(* ===== verification/PSMDB_Prelude.thy ===== *)
theory PSMDB_Prelude
  imports Main "HOL-Library.Word" "HOL-Library.Sublist" "HOL-Library.AList"
begin

text \<open>
  The prelude of the development: Go's string functions as the provider uses them
  (\<^verbatim>\<open>strings\<close>, \<^verbatim>\<open>strconv\<close>, the \<^verbatim>\<open>%d\<close> and \<^verbatim>\<open>%016x\<close> verbs of \<^verbatim>\<open>fmt\<close>), Go errors as values,
  the history-passing shape of every function that talks to the cluster, and the generic
  lemmas the components share. A Go string is a list of bytes, here a \<^typ>\<open>string\<close>.
\<close>

section \<open>Collections of facts\<close>

named_theorems io_simps \<open>unfolding of the history-passing combinators\<close>
named_theorems read_only_intros \<open>actions that write nothing to the cluster\<close>

section \<open>Machine integers\<close>

type_synonym int32 = "32 word"

text \<open>Go's \<^verbatim>\<open>int32\<close> comparisons read the word as two's complement.\<close>

abbreviation i32 :: "int32 \<Rightarrow> int" where
  "i32 \<equiv> sint"

lemma i32_range: "- (2 ^ 31) \<le> i32 x" "i32 x < 2 ^ 31"
  using sint_ge [of x] sint_lt [of x] by simp_all

text \<open>An \<^verbatim>\<open>int32\<close> addition is exact while the true sum is in range.\<close>

lemma i32_add_exact:
  assumes "- (2 ^ 31) \<le> i32 a + i32 b" "i32 a + i32 b < 2 ^ 31"
  shows "i32 (a + b) = i32 a + i32 b"
proof -
  have "i32 (a + b) = signed_take_bit 31 (i32 a + i32 b)"
    by (simp add: sint_word_ariths)
  also have "\<dots> = i32 a + i32 b"
    using assms by (intro signed_take_bit_int_eq_self) simp_all
  finally show ?thesis .
qed

section \<open>Strings\<close>

definition hasPrefix :: "string \<Rightarrow> string \<Rightarrow> bool" where
  "hasPrefix s p \<longleftrightarrow> take (length p) s = p"

definition hasSuffix :: "string \<Rightarrow> string \<Rightarrow> bool" where
  "hasSuffix s p \<longleftrightarrow> length p \<le> length s \<and> drop (length s - length p) s = p"

definition trimSuffix :: "string \<Rightarrow> string \<Rightarrow> string" where
  "trimSuffix s p = (if hasSuffix s p then take (length s - length p) s else s)"

definition trimPrefix :: "string \<Rightarrow> string \<Rightarrow> string" where
  "trimPrefix s p = (if hasPrefix s p then drop (length p) s else s)"

text \<open>\<^verbatim>\<open>strings.Contains\<close>, for any substring.\<close>

fun contains :: "string \<Rightarrow> string \<Rightarrow> bool" where
  "contains [] sub = (sub = [])"
| "contains (c # cs) sub = (hasPrefix (c # cs) sub \<or> contains cs sub)"

text \<open>\<^verbatim>\<open>strings.LastIndex\<close> of a one-byte separator; \<^const>\<open>None\<close> is Go's \<^verbatim>\<open>-1\<close>.\<close>

fun lastIndex :: "string \<Rightarrow> char \<Rightarrow> nat option" where
  "lastIndex [] d = None"
| "lastIndex (c # cs) d =
     (case lastIndex cs d of Some i \<Rightarrow> Some (Suc i) | None \<Rightarrow> if c = d then Some 0 else None)"

text \<open>The part before the first separator, the first result of \<^verbatim>\<open>strings.Cut\<close>.\<close>

definition cutBefore :: "string \<Rightarrow> char \<Rightarrow> string" where
  "cutBefore s d = takeWhile (\<lambda>c. c \<noteq> d) s"

text \<open>\<^verbatim>\<open>strings.Trim\<close> with a one-byte cutset.\<close>

definition trimByte :: "string \<Rightarrow> char \<Rightarrow> string" where
  "trimByte s d = rev (dropWhile (\<lambda>c. c = d) (rev (dropWhile (\<lambda>c. c = d) s)))"

text \<open>\<^verbatim>\<open>strings.Split\<close> and \<^verbatim>\<open>strings.Join\<close> with a one-byte separator.\<close>

fun splitOn :: "char \<Rightarrow> string \<Rightarrow> string list" where
  "splitOn d [] = [[]]"
| "splitOn d (c # cs) =
     (if c = d then [] # splitOn d cs
      else (case splitOn d cs of [] \<Rightarrow> [[c]] | w # ws \<Rightarrow> (c # w) # ws))"

fun joinWith :: "string \<Rightarrow> string list \<Rightarrow> string" where
  "joinWith d [] = []"
| "joinWith d [w] = w"
| "joinWith d (w # v # ws) = w @ d @ joinWith d (v # ws)"

text \<open>\<^verbatim>\<open>strconv.Quote\<close>, and \<^verbatim>\<open>%q\<close>, of ASCII text.\<close>

definition quoteChar :: "char \<Rightarrow> string" where
  "quoteChar ch = (if ch = CHR 0x22 \<or> ch = CHR 0x5C then [CHR 0x5C, ch] else [ch])"

definition quote :: "string \<Rightarrow> string" where
  "quote s = [CHR 0x22] @ concat (map quoteChar s) @ [CHR 0x22]"

lemma hasPrefix_iff: "hasPrefix s p \<longleftrightarrow> (\<exists>t. s = p @ t)"
  by (metis append_eq_conv_conj append_take_drop_id hasPrefix_def)

lemma hasSuffix_iff: "hasSuffix s p \<longleftrightarrow> (\<exists>t. s = t @ p)"
proof
  assume "hasSuffix s p"
  then show "\<exists>t. s = t @ p"
    unfolding hasSuffix_def by (metis append_take_drop_id)
next
  assume "\<exists>t. s = t @ p"
  then show "hasSuffix s p"
    by (auto simp: hasSuffix_def)
qed

lemma hasPrefix_append [simp]: "hasPrefix (p @ s) p"
  by (simp add: hasPrefix_iff)

lemma hasSuffix_append [simp]: "hasSuffix (s @ p) p"
  by (simp add: hasSuffix_iff)

lemma trimSuffix_append [simp]: "trimSuffix (s @ p) p = s"
  by (simp add: trimSuffix_def)

lemma trimSuffix_inverse: "hasSuffix s p \<Longrightarrow> trimSuffix s p @ p = s"
  by (auto simp: hasSuffix_iff)

lemma contains_iff: "contains s sub \<longleftrightarrow> (\<exists>u v. s = u @ sub @ v)"
proof (induction s)
  case Nil
  then show ?case by simp
next
  case (Cons c cs)
  show ?case
  proof
    assume "contains (c # cs) sub"
    then consider "hasPrefix (c # cs) sub" | "contains cs sub" by auto
    then show "\<exists>u v. c # cs = u @ sub @ v"
    proof cases
      case 1
      then obtain t where "c # cs = sub @ t" by (auto simp: hasPrefix_iff)
      then have "c # cs = [] @ sub @ t" by simp
      then show ?thesis by blast
    next
      case 2
      then obtain u v where "cs = u @ sub @ v" using Cons.IH by blast
      then have "c # cs = (c # u) @ sub @ v" by simp
      then show ?thesis by blast
    qed
  next
    assume "\<exists>u v. c # cs = u @ sub @ v"
    then obtain u v where uv: "c # cs = u @ sub @ v" by blast
    show "contains (c # cs) sub"
    proof (cases u)
      case Nil
      with uv have "hasPrefix (c # cs) sub" by (simp add: hasPrefix_iff)
      then show ?thesis by simp
    next
      case (Cons x xs)
      with uv have "cs = xs @ sub @ v" by simp
      then show ?thesis using Cons.IH by auto
    qed
  qed
qed

lemma lastIndex_None: "lastIndex s d = None \<longleftrightarrow> d \<notin> set s"
  by (induction s) (auto split: option.splits)

lemma lastIndex_append [simp]: "d \<notin> set v \<Longrightarrow> lastIndex (u @ d # v) d = Some (length u)"
proof (induction u)
  case Nil
  then have "lastIndex v d = None" by (simp add: lastIndex_None)
  then show ?case by simp
next
  case (Cons c u)
  then show ?case by simp
qed

lemma lastIndex_Some:
  "lastIndex s d = Some i \<longleftrightarrow> (\<exists>u v. s = u @ d # v \<and> d \<notin> set v \<and> i = length u)"
proof
  assume i: "lastIndex s d = Some i"
  then have "d \<in> set s" using lastIndex_None [of s d] by fastforce
  then obtain u v where "s = u @ d # v" "d \<notin> set v" by (meson split_list_last)
  with i show "\<exists>u v. s = u @ d # v \<and> d \<notin> set v \<and> i = length u" by auto
qed auto

lemma splitOn_ne [simp]: "splitOn d s \<noteq> []"
  by (induction s) (auto split: list.splits)

lemma joinWith_splitOn: "joinWith [d] (splitOn d s) = s"
proof (induction s)
  case Nil
  then show ?case by simp
next
  case (Cons c cs)
  obtain w ws where w: "splitOn d cs = w # ws"
    using splitOn_ne by (meson list.exhaust)
  with Cons.IH show ?case
    by (cases ws) auto
qed

lemma splitOn_no_sep: "w \<in> set (splitOn d s) \<Longrightarrow> d \<notin> set w"
proof (induction s arbitrary: w)
  case Nil
  then show ?case by simp
next
  case (Cons c cs)
  then show ?case
    by (cases "splitOn d cs") (auto split: if_splits)
qed

lemma splitOn_joinWith:
  assumes "ws \<noteq> []" "\<And>w. w \<in> set ws \<Longrightarrow> d \<notin> set w"
  shows "splitOn d (joinWith [d] ws) = ws"
proof -
  have single: "splitOn d w = [w]" if "d \<notin> set w" for w
    using that by (induction w) auto
  have sep: "splitOn d (w @ d # s) = w # splitOn d s" if "d \<notin> set w" for w s
    using that by (induction w) auto
  show ?thesis
    using assms by (induction "[d]" ws rule: joinWith.induct) (auto simp: single sep)
qed

section \<open>Decimal and hexadecimal numbers\<close>

definition digit :: "nat \<Rightarrow> char" where
  "digit n = char_of (48 + n)"

fun natString :: "nat \<Rightarrow> string" where
  "natString n = (if n < 10 then [digit n] else natString (n div 10) @ [digit (n mod 10)])"

declare natString.simps [simp del]

text \<open>\<^verbatim>\<open>fmt.Sprintf("%d", i)\<close>.\<close>

definition itoa :: "int \<Rightarrow> string" where
  "itoa i = (if i < 0 then ''-'' @ natString (nat (- i)) else natString (nat i))"

definition isDigit :: "char \<Rightarrow> bool" where
  "isDigit c \<longleftrightarrow> 48 \<le> (of_char c :: nat) \<and> (of_char c :: nat) \<le> 57"

definition digitsValue :: "string \<Rightarrow> nat" where
  "digitsValue s = foldl (\<lambda>v c. 10 * v + (of_char c - 48)) 0 s"

text \<open>
  \<^verbatim>\<open>strconv.Atoi\<close>: an optional sign, at least one digit, and a value that fits a 64-bit
  \<^verbatim>\<open>int\<close>; anything else is an error, \<^const>\<open>None\<close>.
\<close>

definition atoi :: "string \<Rightarrow> int option" where
  "atoi s =
     (let neg = hasPrefix s ''-'';
          ds = (if neg \<or> hasPrefix s ''+'' then drop 1 s else s);
          v = (if neg then - int (digitsValue ds) else int (digitsValue ds))
      in if ds = [] \<or> \<not> list_all isDigit ds then None
         else if - (2 ^ 63) \<le> v \<and> v < 2 ^ 63 then Some v else None)"

lemma digit_numerals [simp]:
  "digit 0 = CHR ''0''" "digit 1 = CHR ''1''" "digit (Suc 0) = CHR ''1''" "digit 2 = CHR ''2''"
  "digit 3 = CHR ''3''" "digit 4 = CHR ''4''" "digit 5 = CHR ''5''" "digit 6 = CHR ''6''"
  "digit 7 = CHR ''7''" "digit 8 = CHR ''8''" "digit 9 = CHR ''9''"
  by code_simp+

lemma digit_eq_iff: "m < 10 \<Longrightarrow> n < 10 \<Longrightarrow> digit m = digit n \<longleftrightarrow> m = n"
  by (simp add: digit_def char_of_eq_iff) (auto simp: take_bit_eq_mod)

lemma of_char_digit: "n < 10 \<Longrightarrow> (of_char (digit n) :: nat) = 48 + n"
  by (simp add: digit_def of_char_of take_bit_eq_mod)

lemma isDigit_digit [simp]: "n < 10 \<Longrightarrow> isDigit (digit n)"
  by (simp add: isDigit_def of_char_digit)

lemma natString_ne [simp]: "natString n \<noteq> []"
  by (subst natString.simps) simp

lemma natString_digits: "list_all isDigit (natString n)"
proof (induction n rule: natString.induct)
  case (1 n)
  then show ?case by (cases "n < 10") (auto simp: natString.simps [of n])
qed

lemma digitsValue_snoc: "digitsValue (s @ [c]) = 10 * digitsValue s + (of_char c - 48)"
  by (simp add: digitsValue_def)

lemma digitsValue_natString: "digitsValue (natString n) = n"
proof (induction n rule: natString.induct)
  case (1 n)
  show ?case
  proof (cases "n < 10")
    case True
    then show ?thesis
      by (simp add: natString.simps [of n] digitsValue_def of_char_digit)
  next
    case False
    with 1 show ?thesis
      by (simp add: natString.simps [of n] digitsValue_snoc of_char_digit)
  qed
qed

lemma natString_inj: "natString m = natString n \<Longrightarrow> m = n"
  by (metis digitsValue_natString)

lemma natString_no_char: "\<not> isDigit c \<Longrightarrow> c \<notin> set (natString n)"
  using natString_digits [of n] by (auto simp: list_all_iff)

lemma hd_isDigit_no_sign:
  assumes "list_all isDigit s" "\<not> isDigit c"
  shows "\<not> hasPrefix s [c]"
  using assms by (cases s) (auto simp: hasPrefix_def)

text \<open>Parsing a printed ordinal gives it back.\<close>

lemma atoi_natString: "int n < 2 ^ 63 \<Longrightarrow> atoi (natString n) = Some (int n)"
proof -
  assume n: "int n < 2 ^ 63"
  have d: "list_all isDigit (natString n)" by (rule natString_digits)
  have "\<not> isDigit CHR ''-''" "\<not> isDigit CHR ''+''" by (simp_all add: isDigit_def)
  with d have "\<not> hasPrefix (natString n) ''-''" "\<not> hasPrefix (natString n) ''+''"
    by (simp_all add: hd_isDigit_no_sign)
  with n d show ?thesis
    by (simp add: atoi_def digitsValue_natString)
qed

section \<open>Go errors\<close>

text \<open>
  An error value by what the provider can tell of it: the Kubernetes status errors it asks for
  by reason (\<^verbatim>\<open>apierrors.IsNotFound\<close>, \<^verbatim>\<open>IsAlreadyExists\<close>, \<^verbatim>\<open>*StatusError\<close>), plain errors,
  \<^verbatim>\<open>fmt.Errorf("p: %w", err)\<close>, the typed errors of the provider runtime, and the provider's own
  \<^verbatim>\<open>renderFailure\<close> (pmm.go). \<open>Panic\<close> is a run-time panic (a nil dereference): the run stops there.
\<close>

datatype go_error =
    APINotFound string
  | APIAlreadyExists string
  | APIStatus string
  | Errorf string
  | Wrap string go_error
  | WaitFor string
  | BackupConfigError string string
  | DataSourceConfigError string string
  | RenderFailure go_error
  | Panic string

text \<open>
  \<^verbatim>\<open>errors.As\<close> follows \<^verbatim>\<open>%w\<close> only: \<^verbatim>\<open>renderFailure\<close> embeds an \<^verbatim>\<open>error\<close>, which promotes
  \<^verbatim>\<open>Error\<close> and not \<^verbatim>\<open>Unwrap\<close>.
\<close>

fun isNotFound :: "go_error \<Rightarrow> bool" where
  "isNotFound (APINotFound _) = True"
| "isNotFound (Wrap _ e) = isNotFound e"
| "isNotFound _ = False"

fun isAlreadyExists :: "go_error \<Rightarrow> bool" where
  "isAlreadyExists (APIAlreadyExists _) = True"
| "isAlreadyExists (Wrap _ e) = isAlreadyExists e"
| "isAlreadyExists _ = False"

fun isStatusError :: "go_error \<Rightarrow> bool" where
  "isStatusError (APINotFound _) = True"
| "isStatusError (APIAlreadyExists _) = True"
| "isStatusError (APIStatus _) = True"
| "isStatusError (Wrap _ e) = isStatusError e"
| "isStatusError _ = False"

fun isRenderFailure :: "go_error \<Rightarrow> bool" where
  "isRenderFailure (RenderFailure _) = True"
| "isRenderFailure (Wrap _ e) = isRenderFailure e"
| "isRenderFailure _ = False"

fun isWaitFor :: "go_error \<Rightarrow> bool" where
  "isWaitFor (WaitFor _) = True"
| "isWaitFor (Wrap _ e) = isWaitFor e"
| "isWaitFor _ = False"

text \<open>
  \<^verbatim>\<open>err.Error()\<close>; the text of the runtime's own error types is the parameter \<open>rt\<close>.
\<close>

fun errText :: "(go_error \<Rightarrow> string) \<Rightarrow> go_error \<Rightarrow> string" where
  "errText rt (APINotFound m) = m"
| "errText rt (APIAlreadyExists m) = m"
| "errText rt (APIStatus m) = m"
| "errText rt (Errorf m) = m"
| "errText rt (Wrap p e) = p @ '': '' @ errText rt e"
| "errText rt (RenderFailure e) = errText rt e"
| "errText rt e = rt e"

section \<open>Actions on the cluster\<close>

text \<open>
  A Go function that calls the cluster is an action: it takes the history of calls made so far
  and returns its result (an error or a value) with the history extended by its own calls. The
  answer to each call is a parameter that may depend on the whole history, so every behaviour of
  the API server, of the operator and of concurrent writers between two calls is covered.
\<close>

type_synonym ('c, 'a) io = "'c list \<Rightarrow> (go_error + 'a) \<times> 'c list"

definition returnIO :: "'a \<Rightarrow> ('c, 'a) io" where
  "returnIO x h = (Inr x, h)"

definition failIO :: "go_error \<Rightarrow> ('c, 'a) io" where
  "failIO e h = (Inl e, h)"

text \<open>Run an action and go on with its outcome, error or value.\<close>

definition handleIO :: "('c, 'a) io \<Rightarrow> (go_error + 'a \<Rightarrow> ('c, 'b) io) \<Rightarrow> ('c, 'b) io" where
  "handleIO m f h = (case m h of (r, h') \<Rightarrow> f r h')"

text \<open>Sequencing with \<^verbatim>\<open>if err != nil { return err }\<close>.\<close>

definition bindIO :: "('c, 'a) io \<Rightarrow> ('a \<Rightarrow> ('c, 'b) io) \<Rightarrow> ('c, 'b) io" where
  "bindIO m f h = (case m h of (Inl e, h') \<Rightarrow> (Inl e, h') | (Inr x, h') \<Rightarrow> f x h')"

text \<open>\<^verbatim>\<open>if err != nil { return fmt.Errorf("p: %w", err) }\<close>.\<close>

definition wrapIO :: "string \<Rightarrow> ('c, 'a) io \<Rightarrow> ('c, 'a) io" where
  "wrapIO p m h = (case m h of (Inl e, h') \<Rightarrow> (Inl (Wrap p e), h') | (Inr x, h') \<Rightarrow> (Inr x, h'))"

text \<open>A result that needs no call.\<close>

definition liftIO :: "go_error + 'a \<Rightarrow> ('c, 'a) io" where
  "liftIO r h = (r, h)"

text \<open>Dereferencing a pointer; a nil one panics.\<close>

definition derefIO :: "'a option \<Rightarrow> ('c, 'a) io" where
  "derefIO p = (case p of None \<Rightarrow> failIO (Panic ''nil pointer dereference'') | Some x \<Rightarrow> returnIO x)"

lemma derefIO_simps [simp]:
  "derefIO None = failIO (Panic ''nil pointer dereference'')"
  "derefIO (Some x) = returnIO x"
  by (simp_all add: derefIO_def)

text \<open>One call: it is recorded, and answered from the history before it.\<close>

definition callIO :: "'c \<Rightarrow> ('c list \<Rightarrow> go_error + 'a) \<Rightarrow> ('c, 'a) io" where
  "callIO c answer h = (answer h, h @ [c])"

text \<open>A \<^verbatim>\<open>for\<close> loop whose body may return an error, collecting what the body yields.\<close>

fun forIO :: "('x \<Rightarrow> ('c, 'a) io) \<Rightarrow> 'x list \<Rightarrow> ('c, 'a list) io" where
  "forIO f [] = returnIO []"
| "forIO f (x # xs) = bindIO (f x) (\<lambda>y. bindIO (forIO f xs) (\<lambda>ys. returnIO (y # ys)))"

lemmas io_defs = returnIO_def failIO_def handleIO_def bindIO_def wrapIO_def liftIO_def callIO_def

lemma bindIO_return [simp]: "bindIO (returnIO x) f = f x"
  by (simp add: fun_eq_iff bindIO_def returnIO_def)

lemma bindIO_fail [simp]: "bindIO (failIO e) f = failIO e"
  by (simp add: fun_eq_iff bindIO_def failIO_def)

lemma bindIO_Inr:
  "bindIO m f h = (Inr y, h') \<longleftrightarrow> (\<exists>x h1. m h = (Inr x, h1) \<and> f x h1 = (Inr y, h'))"
  by (auto simp: bindIO_def split: prod.splits sum.splits)

lemma bindIO_Inl:
  "bindIO m f h = (Inl e, h') \<longleftrightarrow>
     m h = (Inl e, h') \<or> (\<exists>x h1. m h = (Inr x, h1) \<and> f x h1 = (Inl e, h'))"
  by (auto simp: bindIO_def split: prod.splits sum.splits)

lemma wrapIO_Inr: "wrapIO p m h = (Inr x, h') \<longleftrightarrow> m h = (Inr x, h')"
  by (auto simp: wrapIO_def split: prod.splits sum.splits)

lemma wrapIO_Inl: "wrapIO p m h = (Inl e, h') \<longleftrightarrow> (\<exists>e'. e = Wrap p e' \<and> m h = (Inl e', h'))"
  by (auto simp: wrapIO_def split: prod.splits sum.splits)

lemma returnIO_Inr: "returnIO x h = (Inr y, h') \<longleftrightarrow> x = y \<and> h = h'"
  by (simp add: returnIO_def)

lemma returnIO_Inl: "returnIO x h = (Inl e, h') \<longleftrightarrow> False"
  by (simp add: returnIO_def)

lemma failIO_Inr: "failIO e h = (Inr y, h') \<longleftrightarrow> False"
  by (simp add: failIO_def)

lemma failIO_Inl: "failIO e h = (Inl e', h') \<longleftrightarrow> e = e' \<and> h = h'"
  by (simp add: failIO_def)

lemma liftIO_pair: "liftIO r h = (r', h') \<longleftrightarrow> r = r' \<and> h = h'"
  by (simp add: liftIO_def)

lemma callIO_pair: "callIO c a h = (r, h') \<longleftrightarrow> a h = r \<and> h' = h @ [c]"
  by (auto simp: callIO_def)

lemmas io_results = bindIO_Inr bindIO_Inl wrapIO_Inr wrapIO_Inl returnIO_Inr returnIO_Inl
  failIO_Inr failIO_Inl liftIO_pair callIO_pair

declare io_results [io_simps]

section \<open>What an action may call\<close>

text \<open>
  \<open>emits P m\<close>: whatever the answers, action \<open>m\<close> only appends to the history, and every call it
  makes satisfies \<open>P\<close>. The rules below prove it along the structure of an action.
\<close>

definition emits :: "('c \<Rightarrow> bool) \<Rightarrow> ('c, 'a) io \<Rightarrow> bool" where
  "emits P m \<longleftrightarrow> (\<forall>h. \<exists>cs. snd (m h) = h @ cs \<and> list_all P cs)"

lemma emitsD: "emits P m \<Longrightarrow> m h = (r, h') \<Longrightarrow> \<exists>cs. h' = h @ cs \<and> list_all P cs"
  unfolding emits_def by (metis snd_conv)

lemma emits_return [simp, intro]: "emits P (returnIO x)"
  by (simp add: emits_def returnIO_def)

lemma emits_fail [simp, intro]: "emits P (failIO e)"
  by (simp add: emits_def failIO_def)

lemma emits_lift [simp, intro]: "emits P (liftIO r)"
  by (simp add: emits_def liftIO_def)

lemma emits_deref [simp, intro]: "emits P (derefIO p)"
  by (cases p) simp_all

lemma emits_call [intro]: "P c \<Longrightarrow> emits P (callIO c a)"
  by (simp add: emits_def callIO_def)

lemma emits_handle [intro]:
  assumes "emits P m" "\<And>r. emits P (f r)"
  shows "emits P (handleIO m f)"
  unfolding emits_def
proof
  fix h
  obtain r h1 where m: "m h = (r, h1)" by (cases "m h")
  with assms(1) obtain cs where cs: "h1 = h @ cs" "list_all P cs" using emitsD by blast
  obtain ds where "snd (f r h1) = h1 @ ds" "list_all P ds"
    using assms(2) [of r] unfolding emits_def by blast
  with m cs show "\<exists>cs. snd (handleIO m f h) = h @ cs \<and> list_all P cs"
    by (intro exI [of _ "cs @ ds"]) (simp add: handleIO_def)
qed

lemma bindIO_handle: "bindIO m f = handleIO m (\<lambda>r. case r of Inl e \<Rightarrow> failIO e | Inr x \<Rightarrow> f x)"
  by (auto simp: fun_eq_iff bindIO_def handleIO_def failIO_def split: prod.splits sum.splits)

lemma wrapIO_handle:
  "wrapIO p m = handleIO m (\<lambda>r. case r of Inl e \<Rightarrow> failIO (Wrap p e) | Inr x \<Rightarrow> returnIO x)"
  by (auto simp: fun_eq_iff wrapIO_def handleIO_def failIO_def returnIO_def
      split: prod.splits sum.splits)

lemma emits_bind [intro]: "emits P m \<Longrightarrow> (\<And>x. emits P (f x)) \<Longrightarrow> emits P (bindIO m f)"
  unfolding bindIO_handle by (intro emits_handle) (auto split: sum.splits)

lemma emits_bind_result:
  assumes "emits P m" "\<And>x h h'. m h = (Inr x, h') \<Longrightarrow> emits P (f x)"
  shows "emits P (bindIO m f)"
  unfolding emits_def
proof
  fix h
  obtain r h1 where m: "m h = (r, h1)" by (cases "m h")
  with assms(1) obtain cs where cs: "h1 = h @ cs" "list_all P cs" using emitsD by blast
  show "\<exists>cs. snd (bindIO m f h) = h @ cs \<and> list_all P cs"
  proof (cases r)
    case (Inl e)
    with m cs show ?thesis by (auto simp: bindIO_def)
  next
    case (Inr x)
    then have "emits P (f x)" using m assms(2) by blast
    then obtain ds where "snd (f x h1) = h1 @ ds" "list_all P ds" unfolding emits_def by blast
    with m cs Inr show ?thesis
      by (intro exI [of _ "cs @ ds"]) (simp add: bindIO_def)
  qed
qed

lemma emits_wrap [intro]: "emits P m \<Longrightarrow> emits P (wrapIO p m)"
  unfolding wrapIO_handle by (intro emits_handle) (auto split: sum.splits)

lemma emits_for [intro]: "(\<And>x. emits P (f x)) \<Longrightarrow> emits P (forIO f xs)"
  by (induction xs) auto

lemma emits_mono: "emits P m \<Longrightarrow> (\<And>c. P c \<Longrightarrow> Q c) \<Longrightarrow> emits Q m"
  unfolding emits_def by (metis (mono_tags, lifting) list.pred_mono_strong)

section \<open>The errors an action may end in\<close>

text \<open>
  \<open>failsOnly P m\<close>: every run of \<open>m\<close> that ends in an error ends in one that satisfies \<open>P\<close>. With the empty predicate the action
  always returns a value (\<open>succeeds\<close>); that it returns at all is the totality of the model.
\<close>

definition failsOnly :: "(go_error \<Rightarrow> bool) \<Rightarrow> ('c, 'a) io \<Rightarrow> bool" where
  "failsOnly P m \<longleftrightarrow> (\<forall>h e. fst (m h) = Inl e \<longrightarrow> P e)"

abbreviation succeeds :: "('c, 'a) io \<Rightarrow> bool" where
  "succeeds \<equiv> failsOnly (\<lambda>_. False)"

lemma failsOnlyD: "failsOnly P m \<Longrightarrow> m h = (Inl e, h') \<Longrightarrow> P e"
  by (metis fst_conv failsOnly_def)

lemma succeedsD: "succeeds m \<Longrightarrow> \<exists>x h'. m h = (Inr x, h')"
  by (cases "m h"; cases "fst (m h)") (auto dest: failsOnlyD)

lemma failsOnly_mono: "failsOnly P m \<Longrightarrow> (\<And>e. P e \<Longrightarrow> Q e) \<Longrightarrow> failsOnly Q m"
  by (auto simp: failsOnly_def)

lemma failsOnly_return [simp]: "failsOnly P (returnIO x)"
  by (simp add: failsOnly_def returnIO_def)

lemma failsOnly_fail: "P e \<Longrightarrow> failsOnly P (failIO e)"
  by (simp add: failsOnly_def failIO_def)

lemma failsOnly_lift: "(\<And>e. r = Inl e \<Longrightarrow> P e) \<Longrightarrow> failsOnly P (liftIO r)"
  by (simp add: failsOnly_def liftIO_def)

lemma failsOnly_call: "(\<And>h e. a h = Inl e \<Longrightarrow> P e) \<Longrightarrow> failsOnly P (callIO c a)"
  by (simp add: failsOnly_def callIO_def)

lemma failsOnly_handle:
  assumes "failsOnly Q m" "\<And>e. Q e \<Longrightarrow> failsOnly P (f (Inl e))" "\<And>x. failsOnly P (f (Inr x))"
  shows "failsOnly P (handleIO m f)"
  unfolding failsOnly_def
proof (intro allI impI)
  fix h e
  assume e: "fst (handleIO m f h) = Inl e"
  obtain r h1 where m: "m h = (r, h1)" by (cases "m h")
  have "failsOnly P (f r)"
    using assms(2,3) failsOnlyD [OF assms(1)] m by (cases r) auto
  with e m show "P e" unfolding failsOnly_def by (simp add: handleIO_def)
qed

lemma failsOnly_wrap: "failsOnly (\<lambda>e. P (Wrap p e)) m \<Longrightarrow> failsOnly P (wrapIO p m)"
  unfolding wrapIO_handle by (erule failsOnly_handle) (auto intro: failsOnly_fail)

lemma failsOnly_bind_result:
  assumes "failsOnly P m" "\<And>x h h'. m h = (Inr x, h') \<Longrightarrow> failsOnly P (f x)"
  shows "failsOnly P (bindIO m f)"
  unfolding failsOnly_def
proof (intro allI impI)
  fix h e
  assume e: "fst (bindIO m f h) = Inl e"
  obtain r h1 where m: "m h = (r, h1)" by (cases "m h")
  show "P e"
  proof (cases r)
    case (Inl e')
    with e m failsOnlyD [OF assms(1)] show ?thesis by (auto simp: bindIO_def)
  next
    case (Inr x)
    with e m have "fst (f x h1) = Inl e" by (simp add: bindIO_def)
    with assms(2) m Inr show ?thesis unfolding failsOnly_def by blast
  qed
qed

lemma failsOnly_bind: "failsOnly P m \<Longrightarrow> (\<And>x. failsOnly P (f x)) \<Longrightarrow> failsOnly P (bindIO m f)"
  by (rule failsOnly_bind_result)

lemma failsOnly_for: "(\<And>x. failsOnly P (f x)) \<Longrightarrow> failsOnly P (forIO f xs)"
  by (induction xs) (auto intro!: failsOnly_bind)

section \<open>Actions that do not panic\<close>

text \<open>
  \<open>neverPanics m\<close>: no run of \<open>m\<close> ends in a panic. A panic unwinds through the places that wrap errors, so an error
  that wraps one is one.
\<close>

named_theorems no_panic_intros \<open>actions that never panic\<close>

fun isPanic :: "go_error \<Rightarrow> bool" where
  "isPanic (Panic _) = True"
| "isPanic (Wrap _ e) = isPanic e"
| "isPanic (RenderFailure e) = isPanic e"
| "isPanic _ = False"

abbreviation neverPanics :: "('c, 'a) io \<Rightarrow> bool" where
  "neverPanics \<equiv> failsOnly (\<lambda>e. \<not> isPanic e)"

lemma neverPanicsD: "neverPanics m \<Longrightarrow> m h = (Inl e, h') \<Longrightarrow> \<not> isPanic e"
  by (rule failsOnlyD)

lemma neverPanics_wrap [no_panic_intros]: "neverPanics m \<Longrightarrow> neverPanics (wrapIO p m)"
  by (rule failsOnly_wrap) simp

lemmas neverPanics_return [no_panic_intros] = failsOnly_return [where P = "\<lambda>e. \<not> isPanic e"]
lemmas neverPanics_fail [no_panic_intros] = failsOnly_fail [where P = "\<lambda>e. \<not> isPanic e"]
lemmas neverPanics_lift [no_panic_intros] = failsOnly_lift [where P = "\<lambda>e. \<not> isPanic e"]
lemmas neverPanics_call [no_panic_intros] = failsOnly_call [where P = "\<lambda>e. \<not> isPanic e"]
lemmas neverPanics_handle [no_panic_intros] =
  failsOnly_handle [where P = "\<lambda>e. \<not> isPanic e" and Q = "\<lambda>e. \<not> isPanic e"]
lemmas neverPanics_bind [no_panic_intros] = failsOnly_bind [where P = "\<lambda>e. \<not> isPanic e"]
lemmas neverPanics_for [no_panic_intros] = failsOnly_for [where P = "\<lambda>e. \<not> isPanic e"]
lemmas neverPanics_bind_result = failsOnly_bind_result [where P = "\<lambda>e. \<not> isPanic e"]

section \<open>Repeated actions\<close>

text \<open>
  The runtime calls a reconcile step again and again. \<open>rounds m k h\<close> is the history after \<open>k\<close> rounds of \<open>m\<close>. A step that always
  calls the cluster makes progress on the history, the only clock there is (\<open>retried\<close>): what holds of every run that starts late
  enough holds of some round.
\<close>

fun rounds :: "('c, 'a) io \<Rightarrow> nat \<Rightarrow> 'c list \<Rightarrow> 'c list" where
  "rounds m 0 h = h"
| "rounds m (Suc k) h = snd (m (rounds m k h))"

locale retried =
  fixes m :: "('c, 'a) io"
  assumes grows: "length h < length (snd (m h))"
begin

lemma rounds_grow: "length h + k \<le> length (rounds m k h)"
proof (induction k)
  case (Suc k)
  then show ?case using grows [of "rounds m k h"] by simp
qed simp

lemma late_round: "N \<le> length h + k \<Longrightarrow> N \<le> length (rounds m k h)"
  using rounds_grow [of h k] by linarith

lemma some_round:
  assumes "\<And>h. N \<le> length h \<Longrightarrow> P (m h)"
  shows "\<exists>k \<le> N. P (m (rounds m k h))"
  using assms late_round [of N h N] by (intro exI [of _ N]) simp

end

lemma retried_call: "retried (callIO c a)"
  by unfold_locales (simp add: callIO_def)

lemma retried_handle:
  assumes "retried m" "\<And>r. emits P (f r)"
  shows "retried (handleIO m f)"
proof
  fix h
  obtain r h1 where m: "m h = (r, h1)" by (cases "m h")
  obtain cs where "snd (f r h1) = h1 @ cs" using assms(2) unfolding emits_def by blast
  with m retried.grows [OF assms(1), of h] show "length h < length (snd (handleIO m f h))" by (simp add: handleIO_def)
qed

lemma retried_bind:
  assumes "retried m" "\<And>x. emits P (f x)"
  shows "retried (bindIO m f)"
proof
  fix h
  obtain r h1 where m: "m h = (r, h1)" by (cases "m h")
  obtain cs where "\<And>x. r = Inr x \<Longrightarrow> snd (f x h1) = h1 @ cs" using assms(2) unfolding emits_def by (cases r) auto
  with m retried.grows [OF assms(1), of h] show "length h < length (snd (bindIO m f h))"
    by (cases r) (simp_all add: bindIO_def)
qed

lemma retried_wrap: "retried m \<Longrightarrow> retried (wrapIO p m)"
  unfolding retried_def by (simp add: wrapIO_def split: prod.splits sum.splits) (metis snd_conv)

section \<open>Phases of an action\<close>

text \<open>
  \<open>phased Ps m\<close>: the calls of \<open>m\<close> come in phases, the first ones all satisfying the first predicate of \<open>Ps\<close>, then those
  satisfying the second, and so on; a phase may be empty, as the last ones are when the run stops early.
\<close>

definition phased :: "('c \<Rightarrow> bool) list \<Rightarrow> ('c, 'a) io \<Rightarrow> bool" where
  "phased Ps m \<longleftrightarrow> (\<forall>h. \<exists>css. snd (m h) = h @ concat css \<and> list_all2 list_all Ps css)"

lemma phasedD: "phased Ps m \<Longrightarrow> m h = (r, h') \<Longrightarrow> \<exists>css. h' = h @ concat css \<and> list_all2 list_all Ps css"
  unfolding phased_def by (metis snd_conv)

lemma phased_one: "emits P m \<Longrightarrow> phased [P] m"
  unfolding phased_def emits_def
proof
  fix h
  assume "\<forall>h. \<exists>cs. snd (m h) = h @ cs \<and> list_all P cs"
  then obtain cs where "snd (m h) = h @ cs" "list_all P cs" by blast
  then show "\<exists>css. snd (m h) = h @ concat css \<and> list_all2 list_all [P] css"
    by (intro exI [of _ "[cs]"]) simp
qed

lemma empty_phases: "\<exists>css. concat css = [] \<and> list_all2 list_all Ps css"
  by (rule exI [of _ "map (\<lambda>_. []) Ps"]) (auto simp: list_all2_conv_all_nth)

lemma phased_bind:
  assumes "phased Ps m" "\<And>x h h'. m h = (Inr x, h') \<Longrightarrow> phased Qs (f x)"
  shows "phased (Ps @ Qs) (bindIO m f)"
  unfolding phased_def
proof
  fix h
  obtain r h1 where m: "m h = (r, h1)" by (cases "m h")
  obtain css where css: "h1 = h @ concat css" "list_all2 list_all Ps css" using phasedD [OF assms(1) m] by blast
  show "\<exists>css. snd (bindIO m f h) = h @ concat css \<and> list_all2 list_all (Ps @ Qs) css"
  proof (cases r)
    case (Inl e)
    obtain dss :: "'a list list" where "concat dss = []" "list_all2 list_all Qs dss" using empty_phases by blast
    with css m Inl show ?thesis
      by (intro exI [of _ "css @ dss"]) (simp add: bindIO_def list_all2_appendI)
  next
    case (Inr x)
    obtain dss where "snd (f x h1) = h1 @ concat dss" "list_all2 list_all Qs dss"
      using assms(2) m Inr unfolding phased_def by blast
    with css m Inr show ?thesis
      by (intro exI [of _ "css @ dss"]) (simp add: bindIO_def list_all2_appendI)
  qed
qed

section \<open>Outcomes that do not depend on the history\<close>

definition constOutcome :: "('c, 'a) io \<Rightarrow> bool" where
  "constOutcome m \<longleftrightarrow> (\<forall>h h'. fst (m h) = fst (m h'))"

named_theorems const_intros \<open>actions with the same outcome at every history\<close>

lemma const_basic [const_intros]:
  "constOutcome (returnIO x)" "constOutcome (failIO e)" "constOutcome (liftIO r)" "constOutcome (derefIO p)"
  by (simp_all add: constOutcome_def io_defs derefIO_def split: option.splits)

lemma const_call: "(\<And>h. a h = a []) \<Longrightarrow> constOutcome (callIO cl a)"
  unfolding constOutcome_def callIO_def by (metis fst_conv)

lemma const_handle [const_intros]:
  assumes "constOutcome m" "\<And>r. constOutcome (f r)"
  shows "constOutcome (handleIO m f)"
  unfolding constOutcome_def
proof (intro allI)
  fix h h'
  obtain r h1 r' h1' where m: "m h = (r, h1)" "m h' = (r', h1')" by (cases "m h"; cases "m h'")
  then have "r = r'" using assms(1) unfolding constOutcome_def by (metis fst_conv)
  with m assms(2) show "fst (handleIO m f h) = fst (handleIO m f h')" unfolding constOutcome_def by (simp add: handleIO_def)
qed

lemma const_bind [const_intros]: "constOutcome m \<Longrightarrow> (\<And>x. constOutcome (f x)) \<Longrightarrow> constOutcome (bindIO m f)"
  unfolding bindIO_handle by (rule const_handle) (auto intro: const_intros split: sum.splits)

lemma const_wrap [const_intros]: "constOutcome m \<Longrightarrow> constOutcome (wrapIO p m)"
  unfolding wrapIO_handle by (rule const_handle) (auto intro: const_intros split: sum.splits)

text \<open>\<open>only Q m R\<close>: from a history in \<open>Q\<close>, \<open>m\<close> ends in one, with an outcome in \<open>R\<close>.\<close>

definition only :: "('c list \<Rightarrow> bool) \<Rightarrow> ('c, 'a) io \<Rightarrow> (go_error + 'a \<Rightarrow> bool) \<Rightarrow> bool" where
  "only Q m R \<longleftrightarrow> (\<forall>h. Q h \<longrightarrow> R (fst (m h)) \<and> Q (snd (m h)))"

definition gives :: "'a \<Rightarrow> go_error + 'a \<Rightarrow> bool" where
  "gives x r = (case r of Inl _ \<Rightarrow> True | Inr y \<Rightarrow> y = x)"

lemma gives_simps [simp]: "gives x (Inl e)" "gives x (Inr y) \<longleftrightarrow> y = x"
  by (simp_all add: gives_def)

lemma onlyD: "only Q m R \<Longrightarrow> Q h \<Longrightarrow> m h = (r, h') \<Longrightarrow> R r \<and> Q h'"
  unfolding only_def by (metis fst_conv snd_conv)

lemma only_mono: "only Q m R \<Longrightarrow> (\<And>r. R r \<Longrightarrow> S r) \<Longrightarrow> only Q m S"
  unfolding only_def by blast

lemma only_return: "R (Inr x) \<Longrightarrow> only Q (returnIO x) R"
  by (simp add: only_def returnIO_def)

lemma only_fail: "R (Inl e) \<Longrightarrow> only Q (failIO e) R"
  by (simp add: only_def failIO_def)

lemma only_handle: "only Q m R \<Longrightarrow> (\<And>r. R r \<Longrightarrow> only Q (f r) S) \<Longrightarrow> only Q (handleIO m f) S"
  unfolding only_def handleIO_def by (auto split: prod.splits)

lemma only_bind:
  assumes "only Q m (gives x)" "only Q (f x) (gives y)"
  shows "only Q (bindIO m f) (gives y)"
  unfolding bindIO_handle using assms by (auto intro!: only_handle [OF assms(1)] only_fail split: sum.splits)

lemma only_bind_any:
  assumes "only Q m (\<lambda>_. True)" "\<And>x. only Q (f x) (gives y)"
  shows "only Q (bindIO m f) (gives y)"
  unfolding bindIO_handle using assms by (auto intro!: only_handle [OF assms(1)] only_fail split: sum.splits)

lemma only_wrap: "only Q m (gives x) \<Longrightarrow> only Q (wrapIO p m) (gives x)"
  unfolding wrapIO_handle by (erule only_handle) (auto intro!: only_fail only_return split: sum.splits)

lemma again_bind:
  assumes "bindIO m f h = (Inr y, h')"
    and "\<And>x h1. m h = (Inr x, h1) \<Longrightarrow> f x h1 = (Inr y, h') \<Longrightarrow> only Q m (gives x) \<and> only Q (f x) (gives y)"
  shows "only Q (bindIO m f) (gives y)"
proof -
  obtain x h1 where "m h = (Inr x, h1)" "f x h1 = (Inr y, h')" using assms(1) by (auto simp: io_simps)
  then show ?thesis using assms(2) only_bind by metis
qed

end
