(* ===== verification/Cluster_Types.thy ===== *)
theory Cluster_Types
  imports PSMDB_Prelude
begin

text \<open>
  The data the provider reads and writes, with the fields its code uses: the \<^verbatim>\<open>Instance\<close> and
  backup resources of OpenEverest, the \<^verbatim>\<open>PerconaServerMongoDB\<close> resources of the operator, and the
  Kubernetes objects. A Go struct is a record whose fields carry the Go names after a prefix; a
  pointer or a nil-able map is an \<^typ>\<open>'a option\<close>; a map whose nil and empty values the code does
  not tell apart is a HOL map. List entries that the operator's CRD schema does not let be null are
  not optional. Quantities are exact numbers in units of \<^verbatim>\<open>10^-9\<close>, Kubernetes' finest. Fields the
  code carries without looking inside are strings. The libraries the provider calls are the fields
  of \<open>lib\<close> (pure functions) and \<open>env\<close> (answers to calls, which depend on the history).
\<close>

section \<open>Kubernetes values\<close>

type_synonym quantity = int
type_synonym time = int
type_synonym raw = string
type_synonym labels = "string \<rightharpoonup> string"
type_synonym resourceList = "string \<rightharpoonup> quantity"

abbreviation qMilli :: "int \<Rightarrow> quantity" where
  "qMilli n \<equiv> n * 1000000"

abbreviation qUnit :: "int \<Rightarrow> quantity" where
  "qUnit n \<equiv> n * 1000000000"

abbreviation qMi :: "int \<Rightarrow> quantity" where
  "qMi n \<equiv> qUnit (n * 1048576)"

abbreviation qGi :: "int \<Rightarrow> quantity" where
  "qGi n \<equiv> qUnit (n * 1073741824)"

abbreviation qG :: "int \<Rightarrow> quantity" where
  "qG n \<equiv> qUnit (n * 1000000000)"

record resourceRequirements =
  rr_Limits :: "resourceList option"
  rr_Requests :: "resourceList option"

text \<open>Go reads a missing key, and any key of a nil map, as the zero quantity.\<close>

definition rlGet :: "resourceList option \<Rightarrow> string \<Rightarrow> quantity option" where
  "rlGet rl n = (case rl of None \<Rightarrow> None | Some m \<Rightarrow> m n)"

definition qtyOf :: "quantity option \<Rightarrow> quantity" where
  "qtyOf q = (case q of None \<Rightarrow> 0 | Some v \<Rightarrow> v)"

abbreviation ResourceCPU :: string where
  "ResourceCPU \<equiv> ''cpu''"

abbreviation ResourceMemory :: string where
  "ResourceMemory \<equiv> ''memory''"

abbreviation ResourceStorage :: string where
  "ResourceStorage \<equiv> ''storage''"

record secret =
  sec_Name :: string
  sec_Namespace :: string
  sec_Data :: "string \<rightharpoonup> string"
  sec_StringData :: "string \<rightharpoonup> string"
  sec_Annotations :: "string \<rightharpoonup> string"
  sec_Labels :: "(string \<times> string) list"

record pod =
  pod_Name :: string
  pod_Conditions :: "(string \<times> string) list"

record pvc =
  pvc_Name :: string
  pvc_DeletionTimestamp :: bool

text \<open>An entry of \<^verbatim>\<open>Service.Status.LoadBalancer.Ingress\<close>: its IP and its host name.\<close>

type_synonym ingress = "string \<times> string"

record envVar =
  ev_Name :: string
  ev_SecretName :: string
  ev_SecretKey :: string

record container =
  ct_Name :: string
  ct_Image :: string
  ct_Args :: "string list"
  ct_Env :: "envVar list"
  ct_Ports :: "(string \<times> int \<times> string) list"
  ct_VolumeMounts :: "(string \<times> string \<times> bool) list"
  ct_Resources :: resourceRequirements

section \<open>The Instance\<close>

record storage =
  st_Size :: quantity
  st_StorageClass :: "string option"

record service =
  svc_ServiceType :: string
  svc_Annotations :: "labels option"
  svc_LoadBalancer :: "string list option option"

record schedulingPolicy =
  sp_Affinity :: "string option"
  sp_TopologySpread :: string

record componentSpec =
  comp_Replicas :: "int32 option"
  comp_Image :: string
  comp_Version :: string
  comp_Resources :: "resourceRequirements option"
  comp_Storage :: "storage option"
  comp_Service :: "service option"
  comp_SchedulingPolicy :: "schedulingPolicy option"
  comp_Parameters :: "raw option"

definition zeroComponent :: componentSpec where
  "zeroComponent = \<lparr>comp_Replicas = None, comp_Image = '''', comp_Version = '''',
     comp_Resources = None, comp_Storage = None, comp_Service = None,
     comp_SchedulingPolicy = None, comp_Parameters = None\<rparr>"

type_synonym components = "string \<rightharpoonup> componentSpec"

text \<open>Indexing a Go map: a missing component reads as the zero \<^verbatim>\<open>ComponentSpec\<close>.\<close>

definition compAt :: "components \<Rightarrow> string \<Rightarrow> componentSpec" where
  "compAt m k = (case m k of None \<Rightarrow> zeroComponent | Some c \<Rightarrow> c)"

datatype dataSourceType = DataSourceTypeBackup | DataSourceTypePointInTime | DataSourceTypeOther string

record pointInTime =
  pit_InstanceRef :: "string option"
  pit_StorageRef :: string
  pit_RecoveryTarget :: string
  pit_Date :: "time option"

record dataSource =
  ds_Type :: dataSourceType
  ds_Backup :: "string option"
  ds_PointInTime :: "pointInTime option"

datatype retentionType = RetentionCount | RetentionOther string

record retention =
  ret_Type :: retentionType
  ret_Count :: "int32 option"

record schedule =
  sch_Name :: string
  sch_Enabled :: bool
  sch_Cron :: string
  sch_Retention :: "retention option"

text \<open>\<open>ibs_PITR\<close> is the \<^verbatim>\<open>PITR\<close> pointer with the struct's \<^verbatim>\<open>Enabled\<close> field.\<close>

record instanceBackupStorage =
  ibs_StorageRef :: string
  ibs_PITR :: "bool option"
  ibs_Schedules :: "schedule list"

record instanceBackup =
  ib_Enabled :: bool
  ib_ClassRef :: string
  ib_Storages :: "instanceBackupStorage list"

record topologySpec =
  top_Type :: string
  top_Parameters :: "raw option"

record instance_t =
  in_Name :: string
  in_Namespace :: string
  in_Deleting :: bool
  in_ProviderRef :: string
  in_Components :: components
  in_Topology :: "topologySpec option"
  in_Parameters :: "raw option"
  in_UserSecretRef :: "string option"
  in_DataSource :: "dataSource option"
  in_Backup :: "instanceBackup option"
  in_Phase :: string

section \<open>The PerconaServerMongoDB resource\<close>

datatype podAffinity = TopologyKey string | AdvancedAffinity string

record multiAZ =
  az_Affinity :: "podAffinity option"
  az_TopologySpread :: "string list"
  az_Labels :: labels
  az_PDBMaxUnavailable :: "int option"
  az_Resources :: resourceRequirements
  az_Sidecars :: "container list"

record pvcSpec =
  pvcs_Requests :: resourceList
  pvcs_StorageClassName :: "string option"

text \<open>\<^verbatim>\<open>VolumeSpec.PersistentVolumeClaim.PersistentVolumeClaimSpec\<close>, a pointer.\<close>

type_synonym volumeSpec = "pvcSpec option"

record expose =
  ex_ExposeType :: string
  ex_ServiceAnnotations :: labels
  ex_SourceRanges :: "string list"

record hiddenSpec =
  hid_Enabled :: bool
  hid_Size :: int32
  hid_VolumeSpec :: "volumeSpec option"
  hid_MultiAZ :: multiAZ
  hid_Configuration :: string

record replsetSpec =
  rs_Name :: string
  rs_Configuration :: string
  rs_MultiAZ :: multiAZ
  rs_Size :: int32
  rs_VolumeSpec :: "volumeSpec option"
  rs_ExposeEnabled :: bool
  rs_Expose :: expose
  rs_Hidden :: hiddenSpec

record mongosSpec =
  mos_Size :: int32
  mos_MultiAZ :: multiAZ
  mos_Configuration :: string
  mos_Expose :: expose

record sharding =
  sh_Enabled :: bool
  sh_Configsvr :: "replsetSpec option"
  sh_Mongos :: "mongosSpec option"

record issuerConf =
  iss_Name :: string
  iss_Kind :: string
  iss_Group :: string

datatype certManagementPolicy = PolicyDefault | CertManagementUserProvidedOnly | PolicyOther string

record tlsSpec =
  tls_SpecMode :: string
  tls_IssuerConf :: issuerConf
  tls_CertManagementPolicy :: certManagementPolicy

record unsafeFlags =
  uf_TLS :: bool
  uf_ReplsetSize :: bool
  uf_MongosSize :: bool
  uf_TerminationGracePeriod :: bool
  uf_BackupIfUnhealthy :: bool

record s3Spec =
  s3_Bucket :: string
  s3_Prefix :: string
  s3_Region :: string
  s3_EndpointURL :: string
  s3_CredentialsSecret :: string
  s3_InsecureSkipTLSVerify :: bool
  s3_ForcePathStyle :: "bool option"

record backupStorageSpec =
  bss_Type :: string
  bss_Main :: bool
  bss_S3 :: s3Spec

record taskRetention =
  tr_Count :: int
  tr_DeleteFromStorage :: bool

record backupTaskSpec =
  bts_Name :: string
  bts_Enabled :: bool
  bts_Schedule :: string
  bts_StorageName :: string
  bts_Retention :: "taskRetention option"

text \<open>Backup priorities are multiples of one half; they are kept doubled, so \<^verbatim>\<open>2.0\<close> is 4.\<close>

record backupOptions =
  bo_StartingTimeout :: nat
  bo_Priority :: "string \<rightharpoonup> int"

record backupSpec =
  bk_Enabled :: bool
  bk_Image :: string
  bk_Options :: "backupOptions option"
  bk_Resources :: resourceRequirements
  bk_Storages :: "string \<rightharpoonup> backupStorageSpec"
  bk_Tasks :: "backupTaskSpec list"
  bk_PITR :: bool

record pmmSpec =
  pmm_Enabled :: bool
  pmm_ServerHost :: string
  pmm_Image :: string
  pmm_Resources :: resourceRequirements
  pmm_MongodParams :: string
  pmm_MongosParams :: string

record secretsSpec =
  ss_Users :: string
  ss_EncryptionKey :: string
  ss_SSL :: string
  ss_SSLInternal :: string

record upgradeOptions =
  up_Apply :: string
  up_Schedule :: string
  up_SetFCV :: bool

record psmdbSpec =
  ps_CRVersion :: string
  ps_UpdateStrategy :: string
  ps_UpgradeOptions :: upgradeOptions
  ps_Image :: string
  ps_ImagePullPolicy :: string
  ps_Unsafe :: unsafeFlags
  ps_Replsets :: "replsetSpec list"
  ps_Sharding :: sharding
  ps_Backup :: backupSpec
  ps_PMM :: pmmSpec
  ps_TLS :: "tlsSpec option"
  ps_Secrets :: "secretsSpec option"
  ps_VolumeExpansionEnabled :: bool
  ps_ClusterServiceDNSSuffix :: string

datatype appState = AppStateReady | AppStateError | AppStateOther string

record condition =
  cond_True :: bool
  cond_Type :: appState
  cond_Message :: string

record psmdbStatus =
  pst_State :: appState
  pst_Message :: string
  pst_Conditions :: "condition list"
  pst_BackupVersion :: string
  pst_Host :: string
  pst_ReplsetReady :: "string \<rightharpoonup> int32"
  pst_MongosReady :: "int32 option"

record psmdb =
  cr_Name :: string
  cr_Namespace :: string
  cr_Finalizers :: "string list"
  cr_Spec :: psmdbSpec
  cr_Status :: psmdbStatus

definition zeroResources :: resourceRequirements where
  "zeroResources = \<lparr>rr_Limits = None, rr_Requests = None\<rparr>"

definition zeroMultiAZ :: multiAZ where
  "zeroMultiAZ = \<lparr>az_Affinity = None, az_TopologySpread = [], az_Labels = Map.empty,
     az_PDBMaxUnavailable = None, az_Resources = zeroResources, az_Sidecars = []\<rparr>"

definition zeroHidden :: hiddenSpec where
  "zeroHidden = \<lparr>hid_Enabled = False, hid_Size = 0, hid_VolumeSpec = None,
     hid_MultiAZ = zeroMultiAZ, hid_Configuration = ''''\<rparr>"

definition zeroSharding :: sharding where
  "zeroSharding = \<lparr>sh_Enabled = False, sh_Configsvr = None, sh_Mongos = None\<rparr>"

definition zeroBackupSpec :: backupSpec where
  "zeroBackupSpec = \<lparr>bk_Enabled = False, bk_Image = '''', bk_Options = None,
     bk_Resources = zeroResources, bk_Storages = Map.empty, bk_Tasks = [], bk_PITR = False\<rparr>"

definition zeroPMM :: pmmSpec where
  "zeroPMM = \<lparr>pmm_Enabled = False, pmm_ServerHost = '''', pmm_Image = '''',
     pmm_Resources = zeroResources, pmm_MongodParams = '''', pmm_MongosParams = ''''\<rparr>"

definition zeroUnsafe :: unsafeFlags where
  "zeroUnsafe = \<lparr>uf_TLS = False, uf_ReplsetSize = False, uf_MongosSize = False,
     uf_TerminationGracePeriod = False, uf_BackupIfUnhealthy = False\<rparr>"

definition zeroStatus :: psmdbStatus where
  "zeroStatus = \<lparr>pst_State = AppStateOther '''', pst_Message = '''', pst_Conditions = [],
     pst_BackupVersion = '''', pst_Host = '''', pst_ReplsetReady = Map.empty,
     pst_MongosReady = None\<rparr>"

definition zeroPSMDBSpec :: psmdbSpec where
  "zeroPSMDBSpec = \<lparr>ps_CRVersion = '''', ps_UpdateStrategy = '''',
     ps_UpgradeOptions = \<lparr>up_Apply = '''', up_Schedule = '''', up_SetFCV = False\<rparr>,
     ps_Image = '''', ps_ImagePullPolicy = '''', ps_Unsafe = zeroUnsafe, ps_Replsets = [],
     ps_Sharding = zeroSharding, ps_Backup = zeroBackupSpec, ps_PMM = zeroPMM, ps_TLS = None,
     ps_Secrets = None, ps_VolumeExpansionEnabled = False, ps_ClusterServiceDNSSuffix = ''''\<rparr>"

text \<open>\<^verbatim>\<open>&psmdbv1.PerconaServerMongoDB{}\<close>.\<close>

definition zeroPSMDB :: psmdb where
  "zeroPSMDB = \<lparr>cr_Name = '''', cr_Namespace = '''', cr_Finalizers = [],
     cr_Spec = zeroPSMDBSpec, cr_Status = zeroStatus\<rparr>"

section \<open>Backups and restores\<close>

datatype originType = OriginInstance | OriginExternal | OriginOther string
datatype deletionPolicy = PolicyDelete | PolicyRetain | DeletionPolicyOther string
datatype backupState = BackupPending | BackupRunning | BackupSucceeded | BackupFailed | BackupStateOther string
datatype restoreState = RestorePending | RestoreRunning | RestoreSucceeded | RestoreFailed | RestoreStateOther string

record sourceMetadata =
  sm_EngineVersion :: string
  sm_BackupType :: string
  sm_Topology :: string

record originExternal =
  oe_Path :: string
  oe_StartedAt :: time
  oe_CompletedAt :: time
  oe_SourceMetadata :: "sourceMetadata option"

record backup =
  bkp_Name :: string
  bkp_Namespace :: string
  bkp_OriginType :: originType
  bkp_InstanceRef :: "string option"
  bkp_External :: "originExternal option"
  bkp_ClassRef :: string
  bkp_StorageRef :: string
  bkp_ScheduleName :: string
  bkp_DeletionPolicy :: deletionPolicy
  bkp_State :: backupState
  bkp_CompletedAt :: "time option"
  bkp_OperatorBackupRef :: "string option"

record restore =
  res_Name :: string
  res_Namespace :: string
  res_Deleting :: bool
  res_InstanceRef :: string
  res_DataSource :: dataSource
  res_State :: restoreState

record s3Storage =
  s3s_Bucket :: string
  s3s_Region :: string
  s3s_EndpointURL :: string
  s3s_CredentialsSecretRef :: string
  s3s_VerifyTLS :: "bool option"
  s3s_ForcePathStyle :: "bool option"

record backupStorage =
  bst_Name :: string
  bst_S3 :: "s3Storage option"

datatype opBackupState =
  OpBackupReady | OpBackupError | OpBackupRequested | OpBackupRunning | OpBackupWaiting | OpBackupOther string

datatype opRestoreState =
  OpRestoreReady | OpRestoreError | OpRestoreRequested | OpRestoreRunning | OpRestoreWaiting | OpRestoreOther string

record opBackupStatus =
  obs_State :: opBackupState
  obs_Error :: string
  obs_CompletedAt :: "time option"
  obs_LatestRestorableTime :: "time option"
  obs_StorageName :: string
  obs_Destination :: string
  obs_S3 :: "s3Spec option"
  obs_Azure :: "string option"
  obs_GCS :: "string option"
  obs_Minio :: "string option"
  obs_Filesystem :: "string option"
  obs_Type :: string
  obs_PBMname :: string

record opBackup =
  ob_Name :: string
  ob_Namespace :: string
  ob_Labels :: "(string \<times> string) list"
  ob_Finalizers :: "string list"
  ob_Deleting :: bool
  ob_Controller :: "string option"
  ob_ClusterName :: string
  ob_StorageName :: string
  ob_Status :: opBackupStatus

record pitRestoreSpec =
  prs_Type :: string
  prs_Date :: "time option"

record opRestore =
  or_Name :: string
  or_Namespace :: string
  or_Deleting :: bool
  or_Controller :: "string option"
  or_ClusterName :: string
  or_BackupName :: string
  or_BackupSource :: "opBackupStatus option"
  or_StorageName :: string
  or_PITR :: "pitRestoreSpec option"
  or_State :: opRestoreState
  or_Error :: string

end
