(* ===== verification/Cluster_Env.thy ===== *)
theory Cluster_Env
  imports Cluster_Types
begin

text \<open>
  The code the provider calls and does not contain. \<open>lib\<close> holds the pure functions and constants
  of the libraries (go-version, sigs.k8s.io/yaml, the operator's \<^verbatim>\<open>naming\<close> package, the provider
  runtime's helpers); \<open>env\<close> holds the answers of the API server and of the runtime's
  \<^verbatim>\<open>controller.Context\<close>. An answer is a function of the history of calls, so nothing is assumed of
  it here; what a theorem needs is a hypothesis of that theorem.
\<close>

section \<open>Library functions\<close>

text \<open>A parsed \<^verbatim>\<open>goversion.Version\<close>: the text it was parsed from and its numeric segments.\<close>

record version =
  ver_Original :: string
  ver_Segments :: "int list"
  ver_Rest :: string

text \<open>What \<^verbatim>\<open>yaml.Unmarshal\<close> into a \<^verbatim>\<open>map[string]any\<close> yields.\<close>

datatype yaml = YMap "(string \<times> yaml) list" | YSeq "yaml list" | YBool bool | YNull | YScalar string

type_synonym yamlMap = "(string \<times> yaml) list"

text \<open>A JSON document; integers are exact, other numbers are kept as text.\<close>

datatype json =
  JNull | JBool bool | JInt int | JNumber string | JString string
  | JArray "json list" | JObject "(string \<times> json) list"

record providerSpec =
  prov_ReleaseVersion :: "string option"
  prov_Rest :: string

datatype requirement = Required | NotRequired | Unresolved

record lib =
  lib_errText :: "go_error \<Rightarrow> string"
  lib_newVersion :: "string \<Rightarrow> version option"
  lib_lessThan :: "version \<Rightarrow> version \<Rightarrow> bool"
  lib_greaterThan :: "version \<Rightarrow> version \<Rightarrow> bool"
  lib_yamlUnmarshal :: "string \<Rightarrow> go_error + yamlMap"
  lib_yamlMarshal :: "yamlMap \<Rightarrow> go_error + string"
  lib_jsonParse :: "raw \<Rightarrow> go_error + json"
  lib_urlHost :: "string \<Rightarrow> string option"
  lib_formatTime :: "time \<Rightarrow> string"
  lib_getImageForVersion :: "providerSpec \<Rightarrow> string \<Rightarrow> string \<Rightarrow> string"
  lib_getDefaultImageForComponent :: "providerSpec \<Rightarrow> string \<Rightarrow> string"
  lib_getDefaultImage :: "providerSpec \<Rightarrow> string \<Rightarrow> string"
  lib_effectiveBundleName :: "providerSpec \<Rightarrow> instance_t \<Rightarrow> string"
  lib_resolveVersionBundle :: "providerSpec \<Rightarrow> string \<Rightarrow> go_error + (string \<rightharpoonup> string)"
  lib_validateSecretSchema :: "secret \<Rightarrow> providerSpec \<Rightarrow> go_error option"
  lib_componentConfiguration :: "componentSpec \<Rightarrow> string"
  lib_numShards :: "instance_t \<Rightarrow> int32 option"
  lib_topologyType :: "instance_t \<Rightarrow> string"
  lib_normalizedSourceRanges :: "string list \<Rightarrow> string list"
  lib_topologySpread :: "schedulingPolicy option \<Rightarrow> labels \<Rightarrow> string list"
  lib_podLabels :: "string \<Rightarrow> string \<Rightarrow> labels"
  lib_instanceLabel :: string
  lib_componentLabel :: string
  lib_mongodLabels :: "psmdb \<Rightarrow> replsetSpec \<Rightarrow> labels"
  lib_hiddenLabels :: "psmdb \<Rightarrow> replsetSpec \<Rightarrow> labels"
  lib_rsLabels :: "psmdb \<Rightarrow> string \<Rightarrow> labels"
  lib_mongosLabels :: "psmdb \<Rightarrow> labels"
  lib_labelKubernetesInstance :: string
  lib_labelKubernetesComponent :: string
  lib_namingComponentHidden :: string
  lib_hiddenStatefulSetName :: "psmdb \<Rightarrow> replsetSpec \<Rightarrow> string"
  lib_rsPort :: "replsetSpec \<Rightarrow> int32"
  lib_mongosPort :: "mongosSpec \<Rightarrow> int32"
  lib_defaultDNSSuffix :: string
  lib_configReplSetName :: string
  lib_sslDir :: string
  lib_else :: "requirement \<Rightarrow> bool \<Rightarrow> bool"
  lib_setControllerReference :: "string \<Rightarrow> string option \<Rightarrow> go_error + string option"
  lib_pmmServerToken :: string
  lib_databaseAdminUser :: string
  lib_databaseAdminPassword :: string
  lib_pmmResources :: "raw \<Rightarrow> go_error + resourceRequirements"
  lib_instancePhasePending :: string
  lib_quantityString :: "quantity \<Rightarrow> string"
  lib_zeroRequirement :: requirement
  lib_isUpgradeBlocked :: "go_error \<Rightarrow> bool"
  lib_reasonDataSourceFailed :: string
  lib_reasonUserSecretMismatch :: string
  lib_reasonWaitingForCluster :: string
  lib_smartUpdateStrategy :: string
  lib_getKind :: "yamlMap \<Rightarrow> string"
  lib_getName :: "yamlMap \<Rightarrow> string"
  lib_removeNestedField :: "yamlMap \<Rightarrow> string list \<Rightarrow> yamlMap"

section \<open>Calls and their history\<close>

datatype dataSourceState = DataSourceStateFailed | DataSourceStateWaiting | DataSourceStateOther string

record dataSourceStatus =
  dss_Done :: bool
  dss_State :: dataSourceState
  dss_Reason :: string
  dss_Message :: string

text \<open>A binding of the runtime; of the pointer \<^verbatim>\<open>Class.Spec.ProviderManaged\<close> the code reads the agent image.\<close>

record resolvedBinding =
  rb_Name :: string
  rb_Apply :: bool
  rb_Integration :: string
  rb_ClassName :: string
  rb_ProviderManaged :: "string option"
  rb_DestinationName :: string
  rb_DestinationParameters :: "raw option"
  rb_BindingParameters :: "raw option"

datatype kind = KPSMDB | KSecret | KService | KBackup | KOpBackup | KOpRestore | KBackupStorage
  | KPVC | KPod | KDeployment | KRestore | KInstance

datatype reconcilerOption = WithServer int | WithMetrics string | WithAdmission

datatype maintenanceKind = MaintenanceRollingRestart | MaintenanceOther string

text \<open>The calls. \<open>ApplyCRD\<close> carries the field owner of the server-side apply and whether it takes over fields of other owners, \<open>StartReconciler\<close> whether the provider
  that is started holds a client.\<close>

datatype call =
    Get kind string
  | GetIn kind string string
  | ListBy kind "(string \<times> string) list"
  | ReadProviderSpec
  | ReadRequiredSources
  | ReadMonitoringBindings
  | ReadMonitoringCredentials string
  | ReadDataSourceStatus
  | ReadClock
  | RequestMaintenance string string maintenanceKind
  | SetDataSourceStatus dataSourceStatus
  | SetMonitoringBindingResult string string string
  | ApplyPSMDB psmdb
  | ApplySecret string "(string \<times> string) list"
  | CreateSecret secret
  | DeleteObject kind string
  | CreateOpBackup opBackup
  | UpdateOpBackup opBackup
  | CreateOpRestore opRestore
  | UpdateOpRestore opRestore
  | ReconcileDataSource
  | ApplyCRD string bool yamlMap
  | RunPreflight string
  | NewReconciler "reconcilerOption list"
  | StartReconciler bool
  | Print string

type_synonym history = "call list"
type_synonym 'a act = "(call, 'a) io"

text \<open>The calls that change objects in the cluster.\<close>

fun isWrite :: "call \<Rightarrow> bool" where
  "isWrite (ApplyPSMDB _) = True"
| "isWrite (ApplySecret _ _) = True"
| "isWrite (CreateSecret _) = True"
| "isWrite (DeleteObject _ _) = True"
| "isWrite (CreateOpBackup _) = True"
| "isWrite (UpdateOpBackup _) = True"
| "isWrite (CreateOpRestore _) = True"
| "isWrite (UpdateOpRestore _) = True"
| "isWrite ReconcileDataSource = True"
| "isWrite (ApplyCRD _ _ _) = True"
| "isWrite _ = False"

text \<open>The calls that leave both the cluster and the reconcile context as they are.\<close>

fun isRead :: "call \<Rightarrow> bool" where
  "isRead (RequestMaintenance _ _ _) = False"
| "isRead (SetDataSourceStatus _) = False"
| "isRead (SetMonitoringBindingResult _ _ _) = False"
| "isRead (NewReconciler _) = False"
| "isRead (StartReconciler _) = False"
| "isRead (Print _) = False"
| "isRead c = (\<not> isWrite c)"

record env =
  env_psmdb :: "history \<Rightarrow> string \<Rightarrow> go_error + psmdb"
  env_secret :: "history \<Rightarrow> string \<Rightarrow> go_error + secret"
  env_service :: "history \<Rightarrow> string \<Rightarrow> go_error + ingress list"
  env_backup :: "history \<Rightarrow> string \<Rightarrow> go_error + backup"
  env_opBackup :: "history \<Rightarrow> string \<Rightarrow> go_error + opBackup"
  env_opRestore :: "history \<Rightarrow> string \<Rightarrow> go_error + opRestore"
  env_backupStorage :: "history \<Rightarrow> string \<Rightarrow> go_error + backupStorage"
  env_psmdbIn :: "history \<Rightarrow> string \<Rightarrow> string \<Rightarrow> go_error + psmdb"
  env_instanceIn :: "history \<Rightarrow> string \<Rightarrow> string \<Rightarrow> go_error + instance_t"
  env_pvcs :: "history \<Rightarrow> (string \<times> string) list \<Rightarrow> go_error + pvc list"
  env_pods :: "history \<Rightarrow> (string \<times> string) list \<Rightarrow> go_error + pod list"
  env_deploymentImages :: "history \<Rightarrow> string \<Rightarrow> go_error + string list list"
  env_backupsOf :: "history \<Rightarrow> string \<Rightarrow> string \<Rightarrow> go_error + backup list"
  env_restoresOf :: "history \<Rightarrow> string \<Rightarrow> string \<Rightarrow> go_error + restore list"
  env_opBackups :: "history \<Rightarrow> go_error + opBackup list"
  env_providerSpec :: "history \<Rightarrow> go_error + providerSpec"
  env_requiredSources :: "history \<Rightarrow> go_error + requirement \<times> (string \<rightharpoonup> requirement)"
  env_monitoringBindings :: "history \<Rightarrow> go_error + resolvedBinding list"
  env_monitoringCredentials :: "history \<Rightarrow> resolvedBinding \<Rightarrow> go_error + (string \<rightharpoonup> string)"
  env_dataSourceStatus :: "history \<Rightarrow> dataSourceStatus option"
  env_now :: "history \<Rightarrow> time"
  env_maintenanceApproved :: "history \<Rightarrow> string \<Rightarrow> bool"
  env_write :: "history \<Rightarrow> call \<Rightarrow> go_error option"
  env_podNamespace :: string
  env_namespaceFile :: "go_error + string"
  env_targetOperatorVersion :: string
  env_preflight :: "history \<Rightarrow> string \<Rightarrow> go_error option"
  env_kubeConfig :: "go_error option"
  env_newClient :: "go_error option"
  env_newReconciler :: "history \<Rightarrow> reconcilerOption list \<Rightarrow> go_error option"
  env_startReconciler :: "history \<Rightarrow> go_error option"
  env_crdDocuments :: "(go_error + yamlMap) list"

text \<open>\<^verbatim>\<open>controller.Context\<close>: the Instance being reconciled, with its name and namespace.\<close>

record ctx =
  c_Name :: string
  c_Namespace :: string
  c_Instance :: instance_t

abbreviation c_Components :: "ctx \<Rightarrow> components" where
  "c_Components c \<equiv> in_Components (c_Instance c)"

definition getPSMDB :: "env \<Rightarrow> string \<Rightarrow> psmdb act" where
  "getPSMDB E n = callIO (Get KPSMDB n) (\<lambda>h. env_psmdb E h n)"

definition getSecret :: "env \<Rightarrow> string \<Rightarrow> secret act" where
  "getSecret E n = callIO (Get KSecret n) (\<lambda>h. env_secret E h n)"

definition getService :: "env \<Rightarrow> string \<Rightarrow> ingress list act" where
  "getService E n = callIO (Get KService n) (\<lambda>h. env_service E h n)"

definition getBackup :: "env \<Rightarrow> string \<Rightarrow> backup act" where
  "getBackup E n = callIO (Get KBackup n) (\<lambda>h. env_backup E h n)"

definition getOpBackup :: "env \<Rightarrow> string \<Rightarrow> opBackup act" where
  "getOpBackup E n = callIO (Get KOpBackup n) (\<lambda>h. env_opBackup E h n)"

definition getOpRestore :: "env \<Rightarrow> string \<Rightarrow> opRestore act" where
  "getOpRestore E n = callIO (Get KOpRestore n) (\<lambda>h. env_opRestore E h n)"

definition getBackupStorage :: "env \<Rightarrow> string \<Rightarrow> backupStorage act" where
  "getBackupStorage E n = callIO (Get KBackupStorage n) (\<lambda>h. env_backupStorage E h n)"

definition getPSMDBIn :: "env \<Rightarrow> string \<Rightarrow> string \<Rightarrow> psmdb act" where
  "getPSMDBIn E ns n = callIO (GetIn KPSMDB ns n) (\<lambda>h. env_psmdbIn E h ns n)"

definition getInstanceIn :: "env \<Rightarrow> string \<Rightarrow> string \<Rightarrow> instance_t act" where
  "getInstanceIn E ns n = callIO (GetIn KInstance ns n) (\<lambda>h. env_instanceIn E h ns n)"

definition listPVCs :: "env \<Rightarrow> (string \<times> string) list \<Rightarrow> pvc list act" where
  "listPVCs E sel = callIO (ListBy KPVC sel) (\<lambda>h. env_pvcs E h sel)"

definition listPods :: "env \<Rightarrow> (string \<times> string) list \<Rightarrow> pod list act" where
  "listPods E sel = callIO (ListBy KPod sel) (\<lambda>h. env_pods E h sel)"

definition listDeploymentImages :: "env \<Rightarrow> string \<Rightarrow> string list list act" where
  "listDeploymentImages E ns =
     callIO (ListBy KDeployment [(''namespace'', ns)]) (\<lambda>h. env_deploymentImages E h ns)"

definition listBackupsOf :: "env \<Rightarrow> string \<Rightarrow> string \<Rightarrow> backup list act" where
  "listBackupsOf E ns n =
     callIO (ListBy KBackup [(''namespace'', ns), (''instance'', n)]) (\<lambda>h. env_backupsOf E h ns n)"

definition listRestoresOf :: "env \<Rightarrow> string \<Rightarrow> string \<Rightarrow> restore list act" where
  "listRestoresOf E ns n =
     callIO (ListBy KRestore [(''namespace'', ns), (''instance'', n)]) (\<lambda>h. env_restoresOf E h ns n)"

definition listOpBackups :: "env \<Rightarrow> opBackup list act" where
  "listOpBackups E = callIO (ListBy KOpBackup []) (env_opBackups E)"

definition readProviderSpec :: "env \<Rightarrow> providerSpec act" where
  "readProviderSpec E = callIO ReadProviderSpec (env_providerSpec E)"

definition readRequiredSources :: "env \<Rightarrow> (requirement \<times> (string \<rightharpoonup> requirement)) act" where
  "readRequiredSources E = callIO ReadRequiredSources (env_requiredSources E)"

definition readMonitoringBindings :: "env \<Rightarrow> resolvedBinding list act" where
  "readMonitoringBindings E = callIO ReadMonitoringBindings (env_monitoringBindings E)"

definition readMonitoringCredentials :: "env \<Rightarrow> resolvedBinding \<Rightarrow> (string \<rightharpoonup> string) act" where
  "readMonitoringCredentials E rb =
     callIO (ReadMonitoringCredentials (rb_Name rb)) (\<lambda>h. env_monitoringCredentials E h rb)"

definition readDataSourceStatus :: "env \<Rightarrow> dataSourceStatus option act" where
  "readDataSourceStatus E = callIO ReadDataSourceStatus (\<lambda>h. Inr (env_dataSourceStatus E h))"

definition readClock :: "env \<Rightarrow> time act" where
  "readClock E = callIO ReadClock (\<lambda>h. Inr (env_now E h))"

definition requestMaintenance :: "env \<Rightarrow> string \<Rightarrow> string \<Rightarrow> maintenanceKind \<Rightarrow> bool act" where
  "requestMaintenance E token msg mk =
     callIO (RequestMaintenance token msg mk) (\<lambda>h. Inr (env_maintenanceApproved E h token))"

definition printLine :: "string \<Rightarrow> unit act" where
  "printLine s = callIO (Print s) (\<lambda>h. Inr ())"

text \<open>A call that answers with an error or nothing.\<close>

definition orError :: "go_error option \<Rightarrow> go_error + unit" where
  "orError r = (case r of Some e \<Rightarrow> Inl e | None \<Rightarrow> Inr ())"

definition setDataSourceStatus :: "dataSourceStatus \<Rightarrow> unit act" where
  "setDataSourceStatus s = callIO (SetDataSourceStatus s) (\<lambda>h. Inr ())"

definition setMonitoringBindingResult :: "string \<Rightarrow> string \<Rightarrow> string \<Rightarrow> unit act" where
  "setMonitoringBindingResult n reason msg =
     callIO (SetMonitoringBindingResult n reason msg) (\<lambda>h. Inr ())"

text \<open>A write to the cluster: it fails with the server's error, or succeeds.\<close>

definition writeCall :: "env \<Rightarrow> call \<Rightarrow> unit act" where
  "writeCall E w = callIO w (\<lambda>h. case env_write E h w of Some e \<Rightarrow> Inl e | None \<Rightarrow> Inr ())"

lemmas call_defs = getPSMDB_def getSecret_def getService_def getBackup_def getOpBackup_def
  getOpRestore_def getBackupStorage_def getPSMDBIn_def getInstanceIn_def listPVCs_def listPods_def
  listDeploymentImages_def listBackupsOf_def listRestoresOf_def listOpBackups_def
  readProviderSpec_def readRequiredSources_def readMonitoringBindings_def
  readMonitoringCredentials_def readDataSourceStatus_def readClock_def requestMaintenance_def
  setDataSourceStatus_def setMonitoringBindingResult_def writeCall_def printLine_def

section \<open>Read-only actions\<close>

abbreviation readOnly :: "'a act \<Rightarrow> bool" where
  "readOnly \<equiv> emits isRead"

lemma readOnly_calls [read_only_intros]:
  "readOnly (getPSMDB E n)" "readOnly (getSecret E n)" "readOnly (getService E n)"
  "readOnly (getBackup E n)" "readOnly (getOpBackup E n)" "readOnly (getOpRestore E n)"
  "readOnly (getBackupStorage E n)" "readOnly (getPSMDBIn E ns n)" "readOnly (getInstanceIn E ns n)"
  "readOnly (listPVCs E sel)" "readOnly (listPods E sel)" "readOnly (listDeploymentImages E ns)"
  "readOnly (listBackupsOf E ns n)" "readOnly (listRestoresOf E ns n)" "readOnly (listOpBackups E)"
  "readOnly (readProviderSpec E)" "readOnly (readRequiredSources E)"
  "readOnly (readMonitoringBindings E)" "readOnly (readMonitoringCredentials E rb)"
  "readOnly (readDataSourceStatus E)" "readOnly (readClock E)"
  by (auto simp: call_defs intro!: emits_call)

lemma isRead_not_write: "isRead c \<Longrightarrow> \<not> isWrite c"
  by (cases c) auto

text \<open>The writes a history holds; a read-only action adds none.\<close>

definition writes :: "history \<Rightarrow> call list" where
  "writes h = filter isWrite h"

lemma writes_append [simp]: "writes (h @ cs) = writes h @ writes cs"
  by (simp add: writes_def)

lemma writes_read: "list_all isRead cs \<Longrightarrow> writes cs = []"
  by (induction cs) (auto simp: writes_def isRead_not_write)

lemma readOnly_writes: "readOnly m \<Longrightarrow> m h = (r, h') \<Longrightarrow> writes h' = writes h"
  using emitsD [of isRead m h r h'] writes_read by fastforce

text \<open>The objects a history deletes, by kind and name.\<close>

definition deletions :: "history \<Rightarrow> (kind \<times> string) list" where
  "deletions h = List.map_filter (\<lambda>c. case c of DeleteObject K n \<Rightarrow> Some (K, n) | _ \<Rightarrow> None) h"

lemma deletions_iff: "(K, n) \<in> set (deletions h) \<longleftrightarrow> DeleteObject K n \<in> set h"
  by (induction h) (auto simp: deletions_def map_filter_simps split: call.splits option.splits)

section \<open>Answers that are not panics\<close>

text \<open>A call to the API server or the runtime that fails returns an error; it does not panic. \<open>calm\<close> says so of an environment.\<close>

definition calmAnswer :: "go_error + 'a \<Rightarrow> bool" where
  "calmAnswer r = (case r of Inl e \<Rightarrow> \<not> isPanic e | Inr _ \<Rightarrow> True)"

definition calm :: "env \<Rightarrow> bool" where
  "calm E \<longleftrightarrow>
     (\<forall>h n. calmAnswer (env_psmdb E h n)) \<and> (\<forall>h n. calmAnswer (env_secret E h n)) \<and>
     (\<forall>h n. calmAnswer (env_service E h n)) \<and> (\<forall>h n. calmAnswer (env_backup E h n)) \<and>
     (\<forall>h n. calmAnswer (env_backupStorage E h n)) \<and> (\<forall>h sel. calmAnswer (env_pvcs E h sel)) \<and>
     (\<forall>h sel. calmAnswer (env_pods E h sel)) \<and> (\<forall>h ns. calmAnswer (env_deploymentImages E h ns)) \<and>
     (\<forall>h. calmAnswer (env_providerSpec E h)) \<and> (\<forall>h. calmAnswer (env_requiredSources E h)) \<and>
     (\<forall>h. calmAnswer (env_monitoringBindings E h)) \<and> (\<forall>h rb. calmAnswer (env_monitoringCredentials E h rb)) \<and>
     (\<forall>h n. calmAnswer (env_opBackup E h n)) \<and> (\<forall>h n. calmAnswer (env_opRestore E h n)) \<and>
     (\<forall>h ns n. calmAnswer (env_psmdbIn E h ns n)) \<and> (\<forall>h ns n. calmAnswer (env_instanceIn E h ns n)) \<and>
     (\<forall>h ns n. calmAnswer (env_backupsOf E h ns n)) \<and> (\<forall>h ns n. calmAnswer (env_restoresOf E h ns n)) \<and>
     (\<forall>h. calmAnswer (env_opBackups E h)) \<and> calmAnswer (env_namespaceFile E) \<and> (\<forall>h w e. env_write E h w = Some e \<longrightarrow> \<not> isPanic e)"

text \<open>Likewise for the library functions that return errors.\<close>

definition calmLib :: "lib \<Rightarrow> bool" where
  "calmLib L \<longleftrightarrow>
     (\<forall>s. calmAnswer (lib_yamlUnmarshal L s)) \<and> (\<forall>m. calmAnswer (lib_yamlMarshal L m)) \<and>
     (\<forall>r. calmAnswer (lib_jsonParse L r)) \<and> (\<forall>p b. calmAnswer (lib_resolveVersionBundle L p b)) \<and>
     (\<forall>o' c. calmAnswer (lib_setControllerReference L o' c)) \<and> (\<forall>r. calmAnswer (lib_pmmResources L r))"

lemma calmAnswerD: "calmAnswer r \<Longrightarrow> r = Inl e \<Longrightarrow> \<not> isPanic e"
  by (simp add: calmAnswer_def)

lemma calm_calls [no_panic_intros]:
  assumes "calm E"
  shows "neverPanics (getPSMDB E n)" "neverPanics (getSecret E n)" "neverPanics (getService E n)"
    "neverPanics (getBackup E n)" "neverPanics (getBackupStorage E n)" "neverPanics (listPVCs E sel)"
    "neverPanics (listPods E sel)" "neverPanics (listDeploymentImages E ns)" "neverPanics (readProviderSpec E)"
    "neverPanics (readRequiredSources E)" "neverPanics (readMonitoringBindings E)"
    "neverPanics (readMonitoringCredentials E rb)" "neverPanics (writeCall E w)" "neverPanics (getOpBackup E n)"
    "neverPanics (getOpRestore E n)" "neverPanics (getPSMDBIn E ns n)" "neverPanics (getInstanceIn E ns n)"
    "neverPanics (listBackupsOf E ns n)" "neverPanics (listRestoresOf E ns n)" "neverPanics (listOpBackups E)"
  using assms
  by (auto simp: calm_def call_defs intro!: neverPanics_call split: option.splits) (metis calmAnswerD)+

lemma plain_calls [no_panic_intros]:
  "neverPanics (requestMaintenance E t m mk)" "neverPanics (setDataSourceStatus s)"
  "neverPanics (setMonitoringBindingResult b r m')" "neverPanics (readDataSourceStatus E)"
  "neverPanics (readClock E)"
  by (auto simp: call_defs intro!: neverPanics_call)

section \<open>Answers of a healthy server\<close>

text \<open>An object is read or is not found.\<close>

definition readable :: "go_error + 'a \<Rightarrow> bool" where
  "readable r = (case r of Inl e \<Rightarrow> isNotFound e | Inr _ \<Rightarrow> True)"

definition answered :: "go_error + 'a \<Rightarrow> bool" where
  "answered r = (case r of Inl _ \<Rightarrow> False | Inr _ \<Rightarrow> True)"

lemma answered_iff [simp]: "answered r \<longleftrightarrow> (\<exists>x. r = Inr x)"
  by (cases r) (auto simp: answered_def)

lemma readableD: "readable r \<Longrightarrow> r = Inl e \<Longrightarrow> isNotFound e"
  by (simp add: readable_def)

section \<open>The live engine\<close>

text \<open>\<^verbatim>\<open>liveEngine\<close> (monitoring\_sources.go): the engine CR as it is now, empty before it exists.\<close>

definition liveEngine :: "env \<Rightarrow> ctx \<Rightarrow> psmdb act" where
  "liveEngine E c =
     handleIO (getPSMDB E (c_Name c)) (\<lambda>r. case r of
       Inl e \<Rightarrow> if \<not> isNotFound e then failIO (Wrap ''get live PerconaServerMongoDB'' e)
                else returnIO zeroPSMDB
     | Inr live \<Rightarrow> returnIO live)"

lemma readOnly_liveEngine [read_only_intros]: "readOnly (liveEngine E c)"
  unfolding liveEngine_def
  by (intro emits_handle read_only_intros) (auto split: sum.splits)

lemma liveEngine_no_panic [no_panic_intros]: "calm E \<Longrightarrow> neverPanics (liveEngine E c)"
  unfolding liveEngine_def by (auto intro!: no_panic_intros)

end
