(* ===== verification/Replsets.thy ===== *)
theory Replsets
  imports Cluster_Env
begin

text \<open>
  The building blocks of a replica set (replsets.go): its resources, its data volume, its service
  exposure and the assembled \<^verbatim>\<open>ReplsetSpec\<close>; and the names the shards get. The topology-level
  functions of the same file are in \<open>Topology\<close>, after the hidden members they call.
\<close>

section \<open>Component names\<close>

text \<open>internal/common/spec.go\<close>

definition ComponentEngine :: string where "ComponentEngine = ''engine''"
definition ComponentHidden :: string where "ComponentHidden = ''hidden''"
definition ComponentConfigServer :: string where "ComponentConfigServer = ''configServer''"
definition ComponentProxy :: string where "ComponentProxy = ''proxy''"
definition ComponentBackupAgent :: string where "ComponentBackupAgent = ''backupAgent''"

lemmas component_defs = ComponentEngine_def ComponentHidden_def ComponentConfigServer_def
  ComponentProxy_def ComponentBackupAgent_def

section \<open>Definitions\<close>

text \<open>The operation profiling mode every mongod gets unless the user brings a configuration.\<close>

definition psmdbDefaultConfigurationTemplate :: string where
  "psmdbDefaultConfigurationTemplate =
     [CHR 0x0A] @ ''      operationProfiling:'' @ [CHR 0x0A] @ ''        mode: slowOp'' @ [CHR 0x0A]"

definition maxUnavailable :: int where
  "maxUnavailable = 1"

text \<open>
  \<^verbatim>\<open>if !list.Cpu().IsZero() { out[cpu] = *list.Cpu() }\<close>, for one resource name.
\<close>

definition putNonZero :: "string \<Rightarrow> resourceList \<Rightarrow> resourceList \<Rightarrow> resourceList" where
  "putNonZero n src out = (if qtyOf (src n) \<noteq> 0 then out(n \<mapsto> qtyOf (src n)) else out)"

definition mongodResources :: "resourceRequirements option \<Rightarrow> resourceRequirements" where
  "mongodResources resources =
     (case resources of
        None \<Rightarrow> \<lparr>rr_Limits = Some Map.empty, rr_Requests = None\<rparr>
      | Some r \<Rightarrow>
          \<lparr>rr_Limits = Some (case rr_Limits r of
              None \<Rightarrow> Map.empty
            | Some l \<Rightarrow> putNonZero ResourceMemory l (putNonZero ResourceCPU l Map.empty)),
           rr_Requests = (case rr_Requests r of
              None \<Rightarrow> None
            | Some l \<Rightarrow> Some (putNonZero ResourceMemory l (putNonZero ResourceCPU l Map.empty)))\<rparr>)"

definition mongodVolume :: "storage option \<Rightarrow> volumeSpec" where
  "mongodVolume storage =
     (let volume = \<lparr>pvcs_Requests = [ResourceStorage \<mapsto> qGi 10], pvcs_StorageClassName = None\<rparr>
      in case storage of
           None \<Rightarrow> Some volume
         | Some s \<Rightarrow>
             (let v1 = (if st_Size s \<noteq> 0
                        then volume\<lparr>pvcs_Requests := (pvcs_Requests volume)(ResourceStorage \<mapsto> st_Size s)\<rparr>
                        else volume)
              in Some (if st_StorageClass s \<noteq> None
                       then v1\<lparr>pvcs_StorageClassName := st_StorageClass s\<rparr> else v1)))"

abbreviation ServiceTypeClusterIP :: string where
  "ServiceTypeClusterIP \<equiv> ''ClusterIP''"

abbreviation ServiceTypeLoadBalancer :: string where
  "ServiceTypeLoadBalancer \<equiv> ''LoadBalancer''"

abbreviation ServiceTypeNodePort :: string where
  "ServiceTypeNodePort \<equiv> ''NodePort''"

definition configureExpose :: "lib \<Rightarrow> service option \<Rightarrow> expose" where
  "configureExpose L svc =
     (let ex = \<lparr>ex_ExposeType = ServiceTypeClusterIP, ex_ServiceAnnotations = Map.empty,
                ex_SourceRanges = []\<rparr>
      in case svc of
           None \<Rightarrow> ex
         | Some s \<Rightarrow>
             (let ex1 = ex\<lparr>ex_ExposeType := svc_ServiceType s\<rparr>;
                  ex2 = (case svc_Annotations s of
                           None \<Rightarrow> ex1
                         | Some a \<Rightarrow> ex1\<lparr>ex_ServiceAnnotations := a\<rparr>)
              in if svc_ServiceType s = ServiceTypeLoadBalancer
                 then (case svc_LoadBalancer s of
                         Some (Some ranges) \<Rightarrow>
                           ex2\<lparr>ex_SourceRanges := lib_normalizedSourceRanges L ranges\<rparr>
                       | _ \<Rightarrow> ex2)
                 else ex2))"

definition configureReplset ::
  "lib \<Rightarrow> string \<Rightarrow> int32 option \<Rightarrow> resourceRequirements option \<Rightarrow> storage option \<Rightarrow> bool \<Rightarrow>
   string \<Rightarrow> service option \<Rightarrow> replsetSpec" where
  "configureReplset L name replicas resources storageSize expos config svc =
     (let configuration = (if config \<noteq> '''' then config else psmdbDefaultConfigurationTemplate);
          rsSpec =
            \<lparr>rs_Name = name,
             rs_Configuration = configuration,
             rs_MultiAZ = zeroMultiAZ\<lparr>az_PDBMaxUnavailable := Some maxUnavailable,
                                      az_Resources := mongodResources resources\<rparr>,
             rs_Size = 3,
             rs_VolumeSpec = Some (mongodVolume storageSize),
             rs_ExposeEnabled = expos,
             rs_Expose = configureExpose L svc,
             rs_Hidden = zeroHidden\<rparr>
      in case replicas of None \<Rightarrow> rsSpec | Some n \<Rightarrow> rsSpec\<lparr>rs_Size := n\<rparr>)"

definition rsName :: "nat \<Rightarrow> string" where
  "rsName i = ''rs'' @ itoa (int i)"

section \<open>Lemmas\<close>

lemma putNonZero_apply:
  "putNonZero n src out k = (if k = n \<and> qtyOf (src n) \<noteq> 0 then Some (qtyOf (src n)) else out k)"
  by (simp add: putNonZero_def)

text \<open>What \<^const>\<open>mongodResources\<close> keeps: CPU and memory, when set and not zero.\<close>

definition cpuMemoryOf :: "quantity option \<Rightarrow> string \<Rightarrow> quantity option" where
  "cpuMemoryOf q n =
     (if n \<in> {ResourceCPU, ResourceMemory} \<and> qtyOf q \<noteq> 0 then q else None)"

lemma mongodResources_limits:
  "rlGet (rr_Limits (mongodResources r)) n =
     cpuMemoryOf (Option.bind r (\<lambda>r. rlGet (rr_Limits r) n)) n"
  by (auto simp: mongodResources_def rlGet_def cpuMemoryOf_def putNonZero_apply qtyOf_def
      split: option.splits)

lemma mongodResources_requests:
  "rlGet (rr_Requests (mongodResources r)) n =
     cpuMemoryOf (Option.bind r (\<lambda>r. rlGet (rr_Requests r) n)) n"
  by (auto simp: mongodResources_def rlGet_def cpuMemoryOf_def putNonZero_apply qtyOf_def
      split: option.splits)

lemma putNonZero_idem:
  "putNonZero ResourceMemory (putNonZero ResourceMemory l (putNonZero ResourceCPU l Map.empty))
     (putNonZero ResourceCPU (putNonZero ResourceMemory l (putNonZero ResourceCPU l Map.empty)) Map.empty)
   = putNonZero ResourceMemory l (putNonZero ResourceCPU l Map.empty)"
  by (auto simp: fun_eq_iff putNonZero_apply qtyOf_def)

lemma mongodResources_idem: "mongodResources (Some (mongodResources r)) = mongodResources r"
proof (cases r)
  case None
  then show ?thesis
    by (simp add: mongodResources_def putNonZero_def qtyOf_def)
next
  case (Some r')
  then show ?thesis
    by (cases "rr_Limits r'"; cases "rr_Requests r'")
      (simp_all add: mongodResources_def putNonZero_idem, simp_all add: putNonZero_def qtyOf_def)
qed

lemma mongodVolume_size:
  "\<exists>p. mongodVolume s = Some p \<and>
     pvcs_Requests p ResourceStorage =
       Some (case s of Some t \<Rightarrow> if st_Size t \<noteq> 0 then st_Size t else qGi 10 | None \<Rightarrow> qGi 10) \<and>
     pvcs_StorageClassName p = Option.bind s st_StorageClass"
  by (cases s) (auto simp: mongodVolume_def Let_def)

lemma configureReplset_simps [simp]:
  "rs_Name (configureReplset L n r res st e cfg svc) = n"
  "rs_Size (configureReplset L n r res st e cfg svc) = (case r of None \<Rightarrow> 3 | Some k \<Rightarrow> k)"
  "rs_Hidden (configureReplset L n r res st e cfg svc) = zeroHidden"
  "rs_VolumeSpec (configureReplset L n r res st e cfg svc) = Some (mongodVolume st)"
  "rs_ExposeEnabled (configureReplset L n r res st e cfg svc) = e"
  "rs_Expose (configureReplset L n r res st e cfg svc) = configureExpose L svc"
  "az_Resources (rs_MultiAZ (configureReplset L n r res st e cfg svc)) = mongodResources res"
  "az_Sidecars (rs_MultiAZ (configureReplset L n r res st e cfg svc)) = []"
  "rs_Configuration (configureReplset L n r res st e cfg svc) =
     (if cfg \<noteq> '''' then cfg else psmdbDefaultConfigurationTemplate)"
  by (auto simp: configureReplset_def Let_def zeroMultiAZ_def split: option.splits)

lemma rsName_inj: "rsName i = rsName j \<Longrightarrow> i = j"
  using natString_inj by (auto simp: rsName_def itoa_def)

lemma configureReplset_config_ne: "rs_Configuration (configureReplset L n r res st e cfg svc) \<noteq> ''''"
  by (simp add: psmdbDefaultConfigurationTemplate_def)

end
