(* ===== verification/Cluster_Samples.thy ===== *)
theory Cluster_Samples
  imports Cluster_Env
begin

text \<open>
  Concrete values at which the hypotheses of the properties are shown to hold: a cluster that
  answers every read with \<^verbatim>\<open>NotFound\<close> or an empty list and accepts every write, libraries with
  simple answers, and an instance without components. The components build their own samples from
  these by record update.
\<close>

definition emptyCluster :: env where
  "emptyCluster =
     \<lparr>env_psmdb = (\<lambda>h n. Inl (APINotFound n)),
      env_secret = (\<lambda>h n. Inl (APINotFound n)),
      env_service = (\<lambda>h n. Inl (APINotFound n)),
      env_backup = (\<lambda>h n. Inl (APINotFound n)),
      env_opBackup = (\<lambda>h n. Inl (APINotFound n)),
      env_opRestore = (\<lambda>h n. Inl (APINotFound n)),
      env_backupStorage = (\<lambda>h n. Inl (APINotFound n)),
      env_psmdbIn = (\<lambda>h ns n. Inl (APINotFound n)),
      env_instanceIn = (\<lambda>h ns n. Inl (APINotFound n)),
      env_pvcs = (\<lambda>h sel. Inr []),
      env_pods = (\<lambda>h sel. Inr []),
      env_deploymentImages = (\<lambda>h ns. Inr []),
      env_backupsOf = (\<lambda>h ns n. Inr []),
      env_restoresOf = (\<lambda>h ns n. Inr []),
      env_opBackups = (\<lambda>h. Inr []),
      env_providerSpec = (\<lambda>h. Inr \<lparr>prov_ReleaseVersion = None, prov_Rest = ''''\<rparr>),
      env_requiredSources = (\<lambda>h. Inr (NotRequired, Map.empty)),
      env_monitoringBindings = (\<lambda>h. Inr []),
      env_monitoringCredentials = (\<lambda>h rb. Inl (APINotFound (rb_Name rb))),
      env_dataSourceStatus = (\<lambda>h. None),
      env_now = (\<lambda>h. 0),
      env_maintenanceApproved = (\<lambda>h t. False),
      env_write = (\<lambda>h w. None),
      env_podNamespace = ''everest-system'',
      env_namespaceFile = Inr ''everest-system'',
      env_targetOperatorVersion = ''1.23.0'',
      env_preflight = (\<lambda>h s. None),
      env_kubeConfig = None,
      env_newClient = None,
      env_newReconciler = (\<lambda>h o'. None),
      env_startReconciler = (\<lambda>h. None),
      env_crdDocuments = []\<rparr>"

text \<open>A version with its numbers read off a dotted text, and their lexicographic order.\<close>

fun dottedNumbers :: "string list \<Rightarrow> int list option" where
  "dottedNumbers [] = Some []"
| "dottedNumbers (w # ws) =
     (case (atoi w, dottedNumbers ws) of (Some n, Some ns) \<Rightarrow> Some (n # ns) | _ \<Rightarrow> None)"

fun numbersLess :: "int list \<Rightarrow> int list \<Rightarrow> bool" where
  "numbersLess (a # as) (b # bs) = (a < b \<or> (a = b \<and> numbersLess as bs))"
| "numbersLess _ _ = False"

definition dottedVersion :: "string \<Rightarrow> version option" where
  "dottedVersion s =
     (case dottedNumbers (splitOn CHR ''.'' s) of
        Some [a] \<Rightarrow> Some \<lparr>ver_Original = s, ver_Segments = [a, 0, 0], ver_Rest = ''''\<rparr>
      | Some [a, b] \<Rightarrow> Some \<lparr>ver_Original = s, ver_Segments = [a, b, 0], ver_Rest = ''''\<rparr>
      | Some ns \<Rightarrow> Some \<lparr>ver_Original = s, ver_Segments = ns, ver_Rest = ''''\<rparr>
      | None \<Rightarrow> None)"

text \<open>Fields of a decoded manifest.\<close>

definition yamlField :: "yamlMap \<Rightarrow> string \<Rightarrow> string" where
  "yamlField obj k = (case map_of obj k of Some (YScalar v) \<Rightarrow> v | _ \<Rightarrow> '''')"

fun dropField :: "yamlMap \<Rightarrow> string list \<Rightarrow> yamlMap" where
  "dropField obj [] = obj"
| "dropField obj [k] = filter (\<lambda>(k', v). k' \<noteq> k) obj"
| "dropField obj (k # ks) =
     map (\<lambda>(k', v). (k', case v of YMap m \<Rightarrow> if k' = k then YMap (dropField m ks) else v | _ \<Rightarrow> v)) obj"

definition plainLib :: lib where
  "plainLib =
     \<lparr>lib_errText = (\<lambda>e. ''error''),
      lib_newVersion = dottedVersion,
      lib_lessThan = (\<lambda>a b. numbersLess (ver_Segments a) (ver_Segments b)),
      lib_greaterThan = (\<lambda>a b. numbersLess (ver_Segments b) (ver_Segments a)),
      lib_yamlUnmarshal = (\<lambda>s. Inr []),
      lib_yamlMarshal = (\<lambda>m. Inr ''rendered''),
      lib_jsonParse = (\<lambda>r. Inl (Errorf ''invalid JSON'')),
      lib_urlHost = (\<lambda>u. None),
      lib_formatTime = (\<lambda>t. itoa t),
      lib_getImageForVersion = (\<lambda>p comp v. if v = '''' then '''' else comp @ '':'' @ v),
      lib_getDefaultImageForComponent = (\<lambda>p comp. comp @ '':default''),
      lib_getDefaultImage = (\<lambda>p ty. ty @ '':default''),
      lib_effectiveBundleName = (\<lambda>p i. ''bundle''),
      lib_resolveVersionBundle = (\<lambda>p b. Inr Map.empty),
      lib_validateSecretSchema = (\<lambda>s p. None),
      lib_componentConfiguration = (\<lambda>comp. ''''),
      lib_numShards = (\<lambda>i. None),
      lib_topologyType = (\<lambda>i. case in_Topology i of None \<Rightarrow> '''' | Some t \<Rightarrow> top_Type t),
      lib_normalizedSourceRanges = (\<lambda>r. r),
      lib_topologySpread = (\<lambda>p l. []),
      lib_podLabels = (\<lambda>n comp. [''instance'' \<mapsto> n, ''component'' \<mapsto> comp]),
      lib_instanceLabel = ''core.openeverest.io/instance'',
      lib_componentLabel = ''core.openeverest.io/component'',
      lib_mongodLabels = (\<lambda>cr rs. Map.empty),
      lib_hiddenLabels = (\<lambda>cr rs. Map.empty),
      lib_rsLabels = (\<lambda>cr n. Map.empty),
      lib_mongosLabels = (\<lambda>cr. Map.empty),
      lib_labelKubernetesInstance = ''app.kubernetes.io/instance'',
      lib_labelKubernetesComponent = ''app.kubernetes.io/component'',
      lib_namingComponentHidden = ''hidden'',
      lib_hiddenStatefulSetName = (\<lambda>cr rs. cr_Name cr @ ''-'' @ rs_Name rs @ ''-hidden''),
      lib_rsPort = (\<lambda>rs. 27017),
      lib_mongosPort = (\<lambda>m. 27017),
      lib_defaultDNSSuffix = ''svc.cluster.local'',
      lib_configReplSetName = ''cfg'',
      lib_sslDir = ''/etc/mongodb-ssl'',
      lib_else = (\<lambda>r b. case r of Required \<Rightarrow> True | NotRequired \<Rightarrow> False | Unresolved \<Rightarrow> b),
      lib_setControllerReference = (\<lambda>owner cur. Inr (Some owner)),
      lib_pmmServerToken = ''PMM_SERVER_TOKEN'',
      lib_databaseAdminUser = ''MONGODB_DATABASE_ADMIN_USER'',
      lib_databaseAdminPassword = ''MONGODB_DATABASE_ADMIN_PASSWORD'',
      lib_pmmResources = (\<lambda>r. Inr zeroResources),
      lib_instancePhasePending = ''Pending'',
      lib_quantityString = itoa,
      lib_zeroRequirement = NotRequired,
      lib_isUpgradeBlocked = (\<lambda>e. False),
      lib_reasonDataSourceFailed = ''DataSourceFailed'',
      lib_reasonUserSecretMismatch = ''UserSecretMismatch'',
      lib_reasonWaitingForCluster = ''WaitingForCluster'',
      lib_smartUpdateStrategy = ''SmartUpdate'',
      lib_getKind = (\<lambda>obj. yamlField obj ''kind''),
      lib_getName = (\<lambda>obj. case map_of obj ''metadata'' of Some (YMap m) \<Rightarrow> yamlField m ''name'' | _ \<Rightarrow> ''''),
      lib_removeNestedField = dropField\<rparr>"

definition bareInstance :: instance_t where
  "bareInstance =
     \<lparr>in_Name = ''my-mongo'', in_Namespace = ''db'', in_Deleting = False,
      in_ProviderRef = ''percona-server-mongodb'', in_Components = Map.empty, in_Topology = None,
      in_Parameters = None, in_UserSecretRef = None, in_DataSource = None, in_Backup = None,
      in_Phase = ''''\<rparr>"

definition bareCtx :: ctx where
  "bareCtx = \<lparr>c_Name = ''my-mongo'', c_Namespace = ''db'', c_Instance = bareInstance\<rparr>"

lemmas sample_defs = emptyCluster_def plainLib_def bareInstance_def bareCtx_def

lemma calm_samples: "calm emptyCluster" "calmLib plainLib"
  by (simp_all add: calm_def calmLib_def calmAnswer_def emptyCluster_def plainLib_def)

end
