(* ===== verification/Hidden_Members.thy ===== *)
theory Hidden_Members
  imports Replsets Cluster_Samples
begin

text \<open>
  Hidden replica set members (hidden.go): how many the instance asks for, the storage and resources
  they get, when they may start, which of their volumes are deleted, their backup priority, and
  what the connection details leave out. \<open>resource_defaulting\<close> is the contract of the two
  functions that fill unset resources (here and in \<open>Monitoring\<close>).
\<close>

section \<open>Filling in unset resources\<close>

abbreviation managedResources :: "string list" where
  "managedResources \<equiv> [ResourceCPU, ResourceMemory]"

text \<open>
  The contract: for CPU and memory, a value that is set and not zero wins; otherwise the default's
  value is read.
\<close>

locale resource_defaulting =
  fixes fillFrom :: "resourceList option \<Rightarrow> resourceList option \<Rightarrow> resourceList option"
  assumes explicit: "n \<in> set managedResources \<Longrightarrow> qtyOf (rlGet given n) \<noteq> 0 \<Longrightarrow>
      qtyOf (rlGet (fillFrom given dflt) n) = qtyOf (rlGet given n)"
    and default: "n \<in> set managedResources \<Longrightarrow> qtyOf (rlGet given n) = 0 \<Longrightarrow>
      qtyOf (rlGet (fillFrom given dflt) n) = qtyOf (rlGet dflt n)"
begin

lemma fill_read:
  "n \<in> set managedResources \<Longrightarrow>
     qtyOf (rlGet (fillFrom given dflt) n) =
       (if qtyOf (rlGet given n) \<noteq> 0 then qtyOf (rlGet given n) else qtyOf (rlGet dflt n))"
  using explicit default by simp

lemma fill_again:
  "n \<in> set managedResources \<Longrightarrow>
     qtyOf (rlGet (fillFrom (fillFrom given dflt) dflt) n) = qtyOf (rlGet (fillFrom given dflt) n)"
  by (simp add: fill_read)

lemma fill_assoc:
  "n \<in> set managedResources \<Longrightarrow>
     qtyOf (rlGet (fillFrom a (fillFrom b c)) n) = qtyOf (rlGet (fillFrom (fillFrom a b) c) n)"
  by (simp add: fill_read)

text \<open>A lower bound on the default and on every value that is set carries over to the result.\<close>

lemma fill_lower_bound:
  assumes "n \<in> set managedResources" "m \<le> qtyOf (rlGet dflt n)"
    and "qtyOf (rlGet given n) \<noteq> 0 \<Longrightarrow> m \<le> qtyOf (rlGet given n)"
  shows "m \<le> qtyOf (rlGet (fillFrom given dflt) n)"
  using assms by (simp add: fill_read)

end

section \<open>Definitions\<close>

definition hiddenReplicas :: "ctx \<Rightarrow> int32" where
  "hiddenReplicas c =
     (case c_Components c ComponentHidden of
        None \<Rightarrow> 0
      | Some hidden \<Rightarrow> (case comp_Replicas hidden of None \<Rightarrow> 0 | Some n \<Rightarrow> n))"

definition hiddenStorage :: "storage option \<Rightarrow> storage option \<Rightarrow> storage option" where
  "hiddenStorage engine hidden =
     (case hidden of
        None \<Rightarrow> engine
      | Some merged \<Rightarrow>
          (case engine of
             None \<Rightarrow> Some merged
           | Some e \<Rightarrow>
               (let m1 = (if st_Size merged = 0 then merged\<lparr>st_Size := st_Size e\<rparr> else merged)
                in Some (if st_StorageClass m1 = None
                         then m1\<lparr>st_StorageClass := st_StorageClass e\<rparr> else m1))))"

text \<open>One step of the loop in the \<^verbatim>\<open>fill\<close> closure of \<^verbatim>\<open>hiddenResources\<close>.\<close>

definition fillStep :: "resourceList option \<Rightarrow> string \<Rightarrow> resourceList option \<Rightarrow> resourceList option" where
  "fillStep from n into =
     (case rlGet from n of
        None \<Rightarrow> into
      | Some value \<Rightarrow>
          (if qtyOf (rlGet into n) \<noteq> 0 then into
           else Some ((case into of None \<Rightarrow> Map.empty | Some m \<Rightarrow> m)(n \<mapsto> value))))"

definition fill :: "resourceList option \<Rightarrow> resourceList option \<Rightarrow> resourceList option" where
  "fill into from = fold (fillStep from) managedResources into"

definition hiddenResources ::
  "resourceRequirements option \<Rightarrow> resourceRequirements option \<Rightarrow> resourceRequirements option" where
  "hiddenResources engine hidden =
     (case hidden of
        None \<Rightarrow> engine
      | Some merged \<Rightarrow>
          (case engine of
             None \<Rightarrow> Some merged
           | Some e \<Rightarrow> Some \<lparr>rr_Limits = fill (rr_Limits merged) (rr_Limits e),
                              rr_Requests = fill (rr_Requests merged) (rr_Requests e)\<rparr>))"

text \<open>
  The ordinal at the end of a StatefulSet volume's name:
  \<^verbatim>\<open>strconv.Atoi(pvc.Name[strings.LastIndex(pvc.Name, "-")+1:])\<close>.
\<close>

definition pvcOrdinal :: "pvc \<Rightarrow> int option" where
  "pvcOrdinal p =
     atoi (case lastIndex (pvc_Name p) CHR ''-'' of
             None \<Rightarrow> pvc_Name p | Some i \<Rightarrow> drop (Suc i) (pvc_Name p))"

definition pvcInUse :: "pod list \<Rightarrow> pvc \<Rightarrow> bool" where
  "pvcInUse pods p \<longleftrightarrow> list_ex (\<lambda>q. hasSuffix (pvc_Name p) (''-'' @ pod_Name q)) pods"

definition hiddenSelector :: "lib \<Rightarrow> string \<Rightarrow> (string \<times> string) list" where
  "hiddenSelector L name =
     [(lib_labelKubernetesInstance L, name),
      (lib_labelKubernetesComponent L, lib_namingComponentHidden L)]"

text \<open>The loop of \<^verbatim>\<open>deleteHiddenVolumes\<close> over the listed volumes.\<close>

fun deleteHiddenLoop :: "env \<Rightarrow> pod list \<Rightarrow> int \<Rightarrow> pvc list \<Rightarrow> int \<Rightarrow> int act" where
  "deleteHiddenLoop E pods keepBelow [] remaining = returnIO remaining"
| "deleteHiddenLoop E pods keepBelow (p # ps) remaining =
     (case pvcOrdinal p of
        None \<Rightarrow> deleteHiddenLoop E pods keepBelow ps remaining
      | Some ordinal \<Rightarrow>
          (if ordinal < keepBelow then deleteHiddenLoop E pods keepBelow ps remaining
           else if pvcInUse pods p \<or> pvc_DeletionTimestamp p
           then deleteHiddenLoop E pods keepBelow ps (remaining + 1)
           else bindIO (wrapIO (''delete hidden volume '' @ pvc_Name p)
                          (writeCall E (DeleteObject KPVC (pvc_Name p))))
                  (\<lambda>_. deleteHiddenLoop E pods keepBelow ps (remaining + 1))))"

definition deleteHiddenVolumes :: "lib \<Rightarrow> env \<Rightarrow> ctx \<Rightarrow> int \<Rightarrow> int act" where
  "deleteHiddenVolumes L E c keepBelow =
     bindIO (wrapIO ''list hidden volumes'' (listPVCs E (hiddenSelector L (c_Name c)))) (\<lambda>pvcs.
       if pvcs = [] then returnIO 0
       else bindIO (wrapIO ''list hidden pods'' (listPods E (hiddenSelector L (c_Name c)))) (\<lambda>pods.
              deleteHiddenLoop E pods keepBelow pvcs 0))"

definition deleteUnusedHiddenVolumes :: "lib \<Rightarrow> env \<Rightarrow> ctx \<Rightarrow> unit act" where
  "deleteUnusedHiddenVolumes L E c =
     bindIO (deleteHiddenVolumes L E c (i32 (hiddenReplicas c))) (\<lambda>_. returnIO ())"

text \<open>The hidden members of the live replica set of that name; the last match wins. The code skips nil entries, which are not
  modelled: the items of the list are objects in the operator's CRD (\<^verbatim>\<open>operatorcrds/crd.yaml\<close>), so the API server stores none.\<close>

definition liveHiddenOf :: "psmdb \<Rightarrow> string \<Rightarrow> hiddenSpec" where
  "liveHiddenOf live name =
     fold (\<lambda>liveRS acc. if rs_Name liveRS = name then rs_Hidden liveRS else acc)
       (ps_Replsets (cr_Spec live)) zeroHidden"

text \<open>The hidden members asked for, with the class of running ones pinned.\<close>

definition hiddenSpecFor :: "ctx \<Rightarrow> hiddenSpec \<Rightarrow> hiddenSpec" where
  "hiddenSpecFor c liveHidden =
     (let engine = compAt (c_Components c) ComponentEngine;
          hidden = compAt (c_Components c) ComponentHidden;
          spec = zeroHidden\<lparr>
            hid_Enabled := True,
            hid_Size := hiddenReplicas c,
            hid_VolumeSpec := Some (mongodVolume (hiddenStorage (comp_Storage engine) (comp_Storage hidden))),
            hid_MultiAZ := zeroMultiAZ\<lparr>
              az_PDBMaxUnavailable := Some maxUnavailable,
              az_Resources := mongodResources (hiddenResources (comp_Resources engine) (comp_Resources hidden))\<rparr>\<rparr>
      in case (hid_Enabled liveHidden, hid_VolumeSpec liveHidden) of
           (True, Some (Some livePVC)) \<Rightarrow>
             spec\<lparr>hid_VolumeSpec := map_option (map_option
               (\<lambda>p. p\<lparr>pvcs_StorageClassName := pvcs_StorageClassName livePVC\<rparr>)) (hid_VolumeSpec spec)\<rparr>
         | _ \<Rightarrow> spec)"

definition configureHidden :: "lib \<Rightarrow> env \<Rightarrow> ctx \<Rightarrow> replsetSpec \<Rightarrow> replsetSpec act" where
  "configureHidden L E c rs =
     (if i32 (hiddenReplicas c) \<le> 0 then returnIO rs
      else bindIO (liveEngine E c) (\<lambda>live.
        let liveHidden = liveHiddenOf live (rs_Name rs);
            start = returnIO (rs\<lparr>rs_Hidden := hiddenSpecFor c liveHidden\<rparr>)
        in if hid_Enabled liveHidden then start
           else bindIO (deleteHiddenVolumes L E c 0) (\<lambda>remaining.
                  if remaining > 0 then returnIO rs else start)))"

definition hiddenStartPending :: "ctx \<Rightarrow> psmdb \<Rightarrow> bool" where
  "hiddenStartPending c cr =
     (if i32 (hiddenReplicas c) \<le> 0 \<or> sh_Enabled (ps_Sharding (cr_Spec cr)) then False
      else \<not> list_ex (\<lambda>rs. hid_Enabled (rs_Hidden rs)) (ps_Replsets (cr_Spec cr)))"

definition mirrorOne :: "replsetSpec \<Rightarrow> replsetSpec" where
  "mirrorOne rs =
     (if \<not> hid_Enabled (rs_Hidden rs) then rs
      else rs\<lparr>rs_Hidden := (rs_Hidden rs)\<lparr>
             hid_Configuration := rs_Configuration rs,
             hid_MultiAZ := (hid_MultiAZ (rs_Hidden rs))\<lparr>az_Sidecars := az_Sidecars (rs_MultiAZ rs)\<rparr>\<rparr>\<rparr>)"

definition mirrorReplsetOntoHidden :: "psmdb \<Rightarrow> psmdb" where
  "mirrorReplsetOntoHidden cr =
     cr\<lparr>cr_Spec := (cr_Spec cr)\<lparr>ps_Replsets := map mirrorOne (ps_Replsets (cr_Spec cr))\<rparr>\<rparr>"

text \<open>\<^verbatim>\<open>2.0\<close>, doubled.\<close>

definition hiddenBackupPriority :: int where
  "hiddenBackupPriority = 4"

text \<open>The host of hidden member \<open>i\<close> as the operator registers it.\<close>

definition hiddenHost :: "lib \<Rightarrow> psmdb \<Rightarrow> string \<Rightarrow> replsetSpec \<Rightarrow> nat \<Rightarrow> string" where
  "hiddenHost L cr dnsSuffix rs i =
     lib_hiddenStatefulSetName L cr rs @ ''-'' @ itoa (int i) @ ''.'' @
     cr_Name cr @ ''-'' @ rs_Name rs @ ''.'' @ cr_Namespace cr @ ''.'' @ dnsSuffix @ '':'' @
     itoa (i32 (lib_rsPort L rs))"

definition hiddenHosts :: "lib \<Rightarrow> psmdb \<Rightarrow> string list" where
  "hiddenHosts L cr =
     (let suffix = (if ps_ClusterServiceDNSSuffix (cr_Spec cr) = '''' then lib_defaultDNSSuffix L
                    else ps_ClusterServiceDNSSuffix (cr_Spec cr))
      in concat (map (\<lambda>rs. if \<not> hid_Enabled (rs_Hidden rs) then []
                           else map (hiddenHost L cr suffix rs) [0..<nat (i32 (hid_Size (rs_Hidden rs)))])
           (ps_Replsets (cr_Spec cr))))"

definition preferHiddenForBackups :: "lib \<Rightarrow> psmdb \<Rightarrow> psmdb" where
  "preferHiddenForBackups L cr =
     (case bk_Options (ps_Backup (cr_Spec cr)) of
        None \<Rightarrow> cr
      | Some opts \<Rightarrow>
          (let hosts = hiddenHosts L cr;
               priority = fold (\<lambda>host m. m(host \<mapsto> hiddenBackupPriority)) hosts Map.empty
           in if hosts \<noteq> []
              then cr\<lparr>cr_Spec := (cr_Spec cr)\<lparr>ps_Backup := (ps_Backup (cr_Spec cr))\<lparr>
                     bk_Options := Some (opts\<lparr>bo_Priority := priority\<rparr>)\<rparr>\<rparr>\<rparr>
              else cr))"

text \<open>The prefixes by which one hidden pod shows up in the host list.\<close>

definition hiddenPrefixesOf :: "env \<Rightarrow> pod \<Rightarrow> string list act" where
  "hiddenPrefixesOf E p =
     handleIO (getService E (pod_Name p)) (\<lambda>r. case r of
       Inl e \<Rightarrow> if isNotFound e then returnIO [pod_Name p @ ''.'']
                else failIO (Wrap (''get service of hidden pod '' @ pod_Name p) e)
     | Inr ingresses \<Rightarrow>
         returnIO ((pod_Name p @ ''.'') #
           concat (map (\<lambda>(ip, hostname).
             (if ip \<noteq> '''' then [ip @ '':''] else []) @
             (if hostname \<noteq> '''' then [hostname @ '':''] else [])) ingresses)))"

definition withoutHiddenHosts :: "lib \<Rightarrow> env \<Rightarrow> psmdb \<Rightarrow> string \<Rightarrow> string act" where
  "withoutHiddenHosts L E cluster hosts =
     (if sh_Enabled (ps_Sharding (cr_Spec cluster)) \<or> \<not> contains hosts '','' then returnIO hosts
      else bindIO (wrapIO ''list hidden pods'' (listPods E (hiddenSelector L (cr_Name cluster)))) (\<lambda>pods.
        if pods = [] then returnIO hosts
        else bindIO (forIO (hiddenPrefixesOf E) pods) (\<lambda>prefixes.
          returnIO (joinWith '',''
            (filter (\<lambda>host. \<not> list_ex (hasPrefix host) (concat prefixes)) (splitOn CHR '','' hosts))))))"

definition hiddenMembersServing :: "lib \<Rightarrow> env \<Rightarrow> ctx \<Rightarrow> psmdb \<Rightarrow> bool act" where
  "hiddenMembersServing L E c cluster =
     (if \<not> list_ex (\<lambda>rs. hid_Enabled (rs_Hidden rs) \<and> 0 < i32 (hid_Size (rs_Hidden rs)))
            (ps_Replsets (cr_Spec cluster))
      then returnIO False
      else bindIO (wrapIO ''list hidden pods''
             (listPods E [(lib_instanceLabel L, c_Name c), (lib_componentLabel L, ComponentHidden)])) (\<lambda>pods.
        returnIO (list_ex (\<lambda>p. list_ex (\<lambda>(ty, st). ty = ''Ready'' \<and> st = ''True'') (pod_Conditions p)) pods)))"

section \<open>Storage and resources\<close>

lemma fillStep_read:
  "rlGet (fillStep from n into) k =
     (if k = n \<and> rlGet from n \<noteq> None \<and> qtyOf (rlGet into n) = 0 then rlGet from n else rlGet into k)"
  by (auto simp: fillStep_def rlGet_def qtyOf_def split: option.splits)

lemma fill_get:
  "rlGet (fill into from) k =
     (if k \<in> set managedResources \<and> rlGet from k \<noteq> None \<and> qtyOf (rlGet into k) = 0
      then rlGet from k else rlGet into k)"
  by (auto simp: fill_def fillStep_read)

lemma fill_law:
  "k \<in> set managedResources \<Longrightarrow>
     qtyOf (rlGet (fill into from) k) =
       (if qtyOf (rlGet into k) \<noteq> 0 then qtyOf (rlGet into k) else qtyOf (rlGet from k))"
  by (auto simp: fill_get qtyOf_def)

interpretation hidden_fill: resource_defaulting fill
  by unfold_locales (simp_all only: fill_law if_True if_False simp_thms)

lemma hiddenStorage_size:
  "hiddenStorage engine (Some hid) = Some m \<Longrightarrow>
     st_Size m = (if st_Size hid \<noteq> 0 then st_Size hid
                  else case engine of Some e \<Rightarrow> st_Size e | None \<Rightarrow> 0)"
  by (auto simp: hiddenStorage_def Let_def split: option.splits if_splits)

lemma hiddenStorage_class:
  "hiddenStorage engine (Some hid) = Some m \<Longrightarrow>
     st_StorageClass m = (if st_StorageClass hid \<noteq> None then st_StorageClass hid
                          else Option.bind engine st_StorageClass)"
  by (auto simp: hiddenStorage_def Let_def split: option.splits if_splits)

section \<open>Which volumes are deleted\<close>

text \<open>A volume from ordinal \<open>keepBelow\<close> up, and one of those that is deleted now.\<close>

definition staleVolume :: "int \<Rightarrow> pvc \<Rightarrow> bool" where
  "staleVolume keepBelow p \<longleftrightarrow> (case pvcOrdinal p of None \<Rightarrow> False | Some n \<Rightarrow> keepBelow \<le> n)"

definition deletableVolume :: "pod list \<Rightarrow> int \<Rightarrow> pvc \<Rightarrow> bool" where
  "deletableVolume pods keepBelow p \<longleftrightarrow>
     staleVolume keepBelow p \<and> \<not> pvcInUse pods p \<and> \<not> pvc_DeletionTimestamp p"

abbreviation deleteCalls :: "pvc list \<Rightarrow> call list" where
  "deleteCalls ps \<equiv> map (\<lambda>p. DeleteObject KPVC (pvc_Name p)) ps"

lemma deleteHiddenLoop_Cons_cases:
  "deleteHiddenLoop E pods k (p # ps) r =
     (if deletableVolume pods k p
      then bindIO (wrapIO (''delete hidden volume '' @ pvc_Name p)
                     (writeCall E (DeleteObject KPVC (pvc_Name p))))
             (\<lambda>_. deleteHiddenLoop E pods k ps (r + 1))
      else deleteHiddenLoop E pods k ps (if staleVolume k p then r + 1 else r))"
  by (auto simp: deletableVolume_def staleVolume_def split: option.splits)

declare deleteHiddenLoop.simps(2) [simp del]

lemma deleteHiddenLoop_ok:
  "deleteHiddenLoop E pods k ps r h = (Inr n, h') \<Longrightarrow>
     n = r + int (length (filter (staleVolume k) ps)) \<and>
     h' = h @ deleteCalls (filter (deletableVolume pods k) ps)"
proof (induction ps arbitrary: r h)
  case Nil
  then show ?case by (simp add: io_simps)
next
  case (Cons p ps)
  show ?case
  proof (cases "deletableVolume pods k p")
    case True
    then have "staleVolume k p" by (simp add: deletableVolume_def)
    with True Cons.prems Cons.IH show ?thesis
      by (fastforce simp: deleteHiddenLoop_Cons_cases io_simps writeCall_def)
  next
    case False
    with Cons.prems Cons.IH show ?thesis
      by (fastforce simp: deleteHiddenLoop_Cons_cases split: if_splits)
  qed
qed

lemma deleteHiddenLoop_emits:
  "emits (\<lambda>c. \<exists>p \<in> set ps. deletableVolume pods k p \<and> c = DeleteObject KPVC (pvc_Name p))
     (deleteHiddenLoop E pods k ps r)"
proof (induction ps arbitrary: r)
  case Nil
  then show ?case by simp
next
  case (Cons p ps)
  let ?P = "\<lambda>c. \<exists>q \<in> set (p # ps). deletableVolume pods k q \<and> c = DeleteObject KPVC (pvc_Name q)"
  have rest: "emits ?P (deleteHiddenLoop E pods k ps r')" for r'
    by (rule emits_mono [OF Cons.IH]) auto
  have "emits ?P (bindIO (wrapIO w (writeCall E (DeleteObject KPVC (pvc_Name p))))
      (\<lambda>_. deleteHiddenLoop E pods k ps (r + 1)))" if "deletableVolume pods k p" for w
    unfolding writeCall_def
    by (rule emits_bind [OF emits_wrap [OF emits_call] rest]) (use that in auto)
  with Cons.IH show ?case
    by (simp add: deleteHiddenLoop_Cons_cases)
qed

lemma deleteHiddenVolumes_delete:
  assumes run: "deleteHiddenVolumes L E c k h = (r, h')"
    and del: "DeleteObject K n \<in> set (drop (length h) h')"
  shows "K = KPVC \<and> (\<exists>pvcs h1 pods p. env_pvcs E h (hiddenSelector L (c_Name c)) = Inr pvcs \<and>
     env_pods E h1 (hiddenSelector L (c_Name c)) = Inr pods \<and>
     p \<in> set pvcs \<and> pvc_Name p = n \<and> deletableVolume pods k p)"
proof -
  let ?sel = "hiddenSelector L (c_Name c)"
  from run del obtain pvcs pods where
    pvcs: "env_pvcs E h ?sel = Inr pvcs" and
    pods: "env_pods E (h @ [ListBy KPVC ?sel]) ?sel = Inr pods" and
    loop: "deleteHiddenLoop E pods k pvcs 0 (h @ [ListBy KPVC ?sel, ListBy KPod ?sel]) = (r, h')"
    by (auto simp: deleteHiddenVolumes_def listPVCs_def listPods_def io_defs
        split: sum.splits prod.splits if_splits)
  from emitsD [OF deleteHiddenLoop_emits loop] obtain cs where
    h': "h' = h @ [ListBy KPVC ?sel, ListBy KPod ?sel] @ cs" and
    all: "list_all (\<lambda>c. \<exists>p \<in> set pvcs. deletableVolume pods k p \<and> c = DeleteObject KPVC (pvc_Name p)) cs"
    by auto
  from del h' have "DeleteObject K n \<in> set cs" by auto
  with all obtain p where "p \<in> set pvcs" "deletableVolume pods k p"
    "DeleteObject K n = DeleteObject KPVC (pvc_Name p)"
    by (auto simp: list_all_iff)
  with pvcs pods show ?thesis by auto
qed

lemma pvcOrdinal_named:
  assumes "pvc_Name p = pre @ ''-'' @ natString i" "int i < 2 ^ 63"
  shows "pvcOrdinal p = Some (int i)"
proof -
  have "\<not> isDigit CHR ''-''" by (simp add: isDigit_def)
  then have "CHR ''-'' \<notin> set (natString i)" by (rule natString_no_char)
  then have "lastIndex (pvc_Name p) CHR ''-'' = Some (length pre)"
    using assms(1) by simp
  with assms show ?thesis by (simp add: pvcOrdinal_def atoi_natString)
qed

lemma deleteHiddenVolumes_ok:
  assumes "deleteHiddenVolumes L E c k h = (Inr n, h')"
  shows "\<exists>pvcs. env_pvcs E h (hiddenSelector L (c_Name c)) = Inr pvcs \<and>
     n = int (length (filter (staleVolume k) pvcs))"
  using assms
  by (auto simp: deleteHiddenVolumes_def listPVCs_def listPods_def io_simps
      dest!: deleteHiddenLoop_ok split: if_splits)

section \<open>When hidden members start\<close>

lemma liveHiddenOf_zero [simp]: "liveHiddenOf zeroPSMDB n = zeroHidden"
  by (simp add: liveHiddenOf_def zeroPSMDB_def zeroPSMDBSpec_def)

lemma zeroHidden_disabled [simp]: "\<not> hid_Enabled zeroHidden"
  by (simp add: zeroHidden_def)

lemma hiddenSpecFor_simps [simp]:
  "hid_Enabled (hiddenSpecFor c live)"
  "hid_Size (hiddenSpecFor c live) = hiddenReplicas c"
  "az_Resources (hid_MultiAZ (hiddenSpecFor c live)) =
     mongodResources (hiddenResources (comp_Resources (compAt (c_Components c) ComponentEngine))
       (comp_Resources (compAt (c_Components c) ComponentHidden)))"
  by (auto simp: hiddenSpecFor_def Let_def split: option.splits bool.splits)

lemma configureHidden_result:
  assumes "configureHidden L E c rs h = (Inr rs', h')"
  shows "rs' = rs \<or> (\<exists>live. rs' = rs\<lparr>rs_Hidden := hiddenSpecFor c live\<rparr>)"
  using assms by (auto simp: configureHidden_def Let_def io_simps split: if_splits)

lemma configureHidden_off:
  "i32 (hiddenReplicas c) \<le> 0 \<Longrightarrow> configureHidden L E c rs = returnIO rs"
  by (simp add: configureHidden_def)

section \<open>Host lists\<close>

text \<open>A host of the list belongs to a pod: by the pod's name, or by an ingress address of the service named after it.\<close>

definition hostOfPod :: "(string \<Rightarrow> go_error + ingress list) \<Rightarrow> pod \<Rightarrow> string \<Rightarrow> bool" where
  "hostOfPod svc p host \<longleftrightarrow> hasPrefix host (pod_Name p @ ''.'') \<or>
     (case svc (pod_Name p) of
        Inl _ \<Rightarrow> False
      | Inr ingresses \<Rightarrow> list_ex (\<lambda>(ip, hostname).
          (ip \<noteq> '''' \<and> hasPrefix host (ip @ '':'')) \<or> (hostname \<noteq> '''' \<and> hasPrefix host (hostname @ '':''))) ingresses)"

text \<open>The addresses of a service's ingress entries.\<close>

lemma list_ex_addresses:
  "list_ex P (concat (map (\<lambda>(ip, hn). (if ip \<noteq> '''' then [ip @ '':''] else []) @ (if hn \<noteq> '''' then [hn @ '':''] else [])) xs)) =
     list_ex (\<lambda>(ip, hn). (ip \<noteq> '''' \<and> P (ip @ '':'')) \<or> (hn \<noteq> '''' \<and> P (hn @ '':''))) xs"
  by (induction xs) (auto split: if_splits)

lemma hiddenPrefixesOf_host:
  assumes "hiddenPrefixesOf E p h = (Inr ps, h')" "\<forall>h n. env_service E h n = svc n"
  shows "list_ex (hasPrefix host) ps = hostOfPod svc p host"
  using assms
  by (cases "svc (pod_Name p)")
    (auto simp: hiddenPrefixesOf_def handleIO_def callIO_def getService_def io_simps hostOfPod_def
      list_ex_addresses split: if_splits)

lemma prefixes_host:
  assumes "forIO (hiddenPrefixesOf E) pods h = (Inr pss, h')" "\<forall>h n. env_service E h n = svc n"
  shows "list_ex (hasPrefix host) (concat pss) = list_ex (\<lambda>p. hostOfPod svc p host) pods"
  using assms(1)
proof (induction pods arbitrary: h pss)
  case Nil
  then show ?case by (simp add: io_simps)
next
  case (Cons p pods)
  then obtain ps qss h1 where
    "hiddenPrefixesOf E p h = (Inr ps, h1)" "forIO (hiddenPrefixesOf E) pods h1 = (Inr qss, h')" "pss = ps # qss"
    by (auto simp: io_simps)
  then show ?case using Cons.IH hiddenPrefixesOf_host [OF _ assms(2)] by fastforce
qed

lemma splitOn_filter_joined:
  assumes "host \<in> set (splitOn d (joinWith [d] (filter P (splitOn d hosts))))"
  shows "host = [] \<or> P host"
proof (cases "filter P (splitOn d hosts) = []")
  case True
  with assms show ?thesis by simp
next
  case False
  have "splitOn d (joinWith [d] (filter P (splitOn d hosts))) = filter P (splitOn d hosts)"
    by (rule splitOn_joinWith [OF False]) (auto dest: splitOn_no_sep)
  with assms show ?thesis by simp
qed

lemma readOnly_withoutHiddenHosts [read_only_intros]: "readOnly (withoutHiddenHosts L E cluster hosts)"
  by (auto simp: withoutHiddenHosts_def hiddenPrefixesOf_def split: sum.splits
      intro!: emits_bind emits_wrap emits_for emits_handle read_only_intros)

lemma fold_priority:
  "fold (\<lambda>host m. m(host \<mapsto> v)) hosts m0 = (\<lambda>k. if k \<in> set hosts then Some v else m0 k)"
  by (induction hosts arbitrary: m0) (auto simp: fun_eq_iff)

lemma mirrorOne_idem [simp]: "mirrorOne (mirrorOne rs) = mirrorOne rs"
  by (simp add: mirrorOne_def)

section \<open>Frame facts\<close>

lemma mirrorOne_simps [simp]:
  "rs_Name (mirrorOne rs) = rs_Name rs"
  "rs_Size (mirrorOne rs) = rs_Size rs"
  "rs_Configuration (mirrorOne rs) = rs_Configuration rs"
  "rs_MultiAZ (mirrorOne rs) = rs_MultiAZ rs"
  "rs_VolumeSpec (mirrorOne rs) = rs_VolumeSpec rs"
  "rs_ExposeEnabled (mirrorOne rs) = rs_ExposeEnabled rs"
  "rs_Expose (mirrorOne rs) = rs_Expose rs"
  "hid_Enabled (rs_Hidden (mirrorOne rs)) = hid_Enabled (rs_Hidden rs)"
  "hid_Size (rs_Hidden (mirrorOne rs)) = hid_Size (rs_Hidden rs)"
  by (simp_all add: mirrorOne_def)

section \<open>Properties\<close>

text \<open>C18. Whatever the API server answers and wherever the run stops, \<^verbatim>\<open>deleteHiddenVolumes\<close> deletes
  nothing but persistent volume claims it listed as hidden members' volumes, whose ordinal is not
  below \<open>keepBelow\<close>, whose pod is not among the listed pods and which are not being deleted yet.\<close>

theorem hidden_volume_deletion_safe:
  assumes "deleteHiddenVolumes L E c k h = (r, h')"
    and "DeleteObject K n \<in> set (drop (length h) h')"
  shows "K = KPVC \<and> (\<exists>pvcs h1 pods p. env_pvcs E h (hiddenSelector L (c_Name c)) = Inr pvcs \<and>
     env_pods E h1 (hiddenSelector L (c_Name c)) = Inr pods \<and>
     p \<in> set pvcs \<and> pvc_Name p = n \<and> deletableVolume pods k p)"
  using assms by (rule deleteHiddenVolumes_delete)

definition staleCluster :: env where
  "staleCluster = emptyCluster\<lparr>env_pvcs := (\<lambda>h sel.
     Inr [\<lparr>pvc_Name = ''mongod-data-hidden-0'', pvc_DeletionTimestamp = False\<rparr>,
          \<lparr>pvc_Name = ''mongod-data-hidden-2'', pvc_DeletionTimestamp = False\<rparr>])\<rparr>"

lemma staleCluster_run:
  "deletions (snd (deleteHiddenVolumes plainLib staleCluster bareCtx 1 [])) =
     [(KPVC, ''mongod-data-hidden-2'')]"
  by code_simp

theorem hidden_volume_deletion_safe_witness:
  "DeleteObject KPVC ''mongod-data-hidden-2''
     \<in> set (drop 0 (snd (deleteHiddenVolumes plainLib staleCluster bareCtx 1 []))) \<and>
   (\<exists>pvcs h1 pods p. env_pvcs staleCluster [] (hiddenSelector plainLib ''my-mongo'') = Inr pvcs \<and>
     env_pods staleCluster h1 (hiddenSelector plainLib ''my-mongo'') = Inr pods \<and>
     p \<in> set pvcs \<and> pvc_Name p = ''mongod-data-hidden-2'' \<and> deletableVolume pods 1 p)"
proof -
  have del: "DeleteObject KPVC ''mongod-data-hidden-2''
      \<in> set (drop (length []) (snd (deleteHiddenVolumes plainLib staleCluster bareCtx 1 [])))"
    using staleCluster_run by (simp flip: deletions_iff)
  have name: "c_Name bareCtx = ''my-mongo''" by (simp add: bareCtx_def)
  show ?thesis
    using del hidden_volume_deletion_safe [OF prod.collapse [symmetric] del]
    unfolding name by simp
qed

text \<open>The clean-up after every Sync never deletes the volume of a hidden member the instance still
  has: a volume named after an ordinal below the number of hidden replicas is not among the deleted
  objects, in any run.\<close>

theorem current_hidden_volumes_kept:
  assumes "deleteUnusedHiddenVolumes L E c h = (r, h')"
    and "int i < i32 (hiddenReplicas c)"
  shows "DeleteObject KPVC (pre @ ''-'' @ natString i) \<notin> set (drop (length h) h')"
proof
  assume del: "DeleteObject KPVC (pre @ ''-'' @ natString i) \<in> set (drop (length h) h')"
  from assms(1) obtain r1 where "deleteHiddenVolumes L E c (i32 (hiddenReplicas c)) h = (r1, h')"
    by (auto simp: deleteUnusedHiddenVolumes_def io_defs split: prod.splits sum.splits)
  from deleteHiddenVolumes_delete [OF this del] obtain pods p where
    "pvc_Name p = pre @ ''-'' @ natString i" "deletableVolume pods (i32 (hiddenReplicas c)) p"
    by blast
  moreover have "int i < 2 ^ 63" using assms(2) i32_range(2) [of "hiddenReplicas c"] by simp
  ultimately show False
    using assms(2) by (simp add: deletableVolume_def staleVolume_def pvcOrdinal_named)
qed

definition twoHidden :: ctx where
  "twoHidden = bareCtx\<lparr>c_Instance := bareInstance\<lparr>in_Components :=
     [ComponentHidden \<mapsto> zeroComponent\<lparr>comp_Replicas := Some 2\<rparr>]\<rparr>\<rparr>"

lemma twoHidden_replicas: "hiddenReplicas twoHidden = 2"
  by (simp add: hiddenReplicas_def twoHidden_def bareCtx_def)

theorem current_hidden_volumes_kept_witness:
  "int 1 < i32 (hiddenReplicas twoHidden) \<and>
   DeleteObject KPVC (''mongod-data-hidden'' @ ''-'' @ natString 1) \<notin>
     set (drop 0 (snd (deleteUnusedHiddenVolumes plainLib staleCluster twoHidden [])))"
proof -
  have lt: "int 1 < i32 (hiddenReplicas twoHidden)" by (simp add: twoHidden_replicas)
  show ?thesis
    using lt current_hidden_volumes_kept [OF prod.collapse [symmetric] lt, where h = "[]"]
    unfolding list.size by blast
qed

text \<open>C29. Hidden members start only on fresh volumes: when \<^verbatim>\<open>configureHidden\<close> turns them on, either the
  live replica set already runs hidden members, or the volume list it read held no volume of an
  earlier hidden member.\<close>

theorem hidden_start_needs_fresh_volumes:
  assumes "configureHidden L E c rs h = (Inr rs', h')"
    and "\<not> hid_Enabled (rs_Hidden rs)" "hid_Enabled (rs_Hidden rs')"
  shows "(\<exists>live. env_psmdb E h (c_Name c) = Inr live \<and> hid_Enabled (liveHiddenOf live (rs_Name rs))) \<or>
         (\<exists>h1 pvcs. env_pvcs E h1 (hiddenSelector L (c_Name c)) = Inr pvcs \<and>
            filter (staleVolume 0) pvcs = [])"
proof (cases "\<exists>live. env_psmdb E h (c_Name c) = Inr live \<and> hid_Enabled (liveHiddenOf live (rs_Name rs))")
  case False
  have "rs' \<noteq> rs" using assms(2,3) by auto
  with False assms(1) obtain remaining h1 h2 where
    "deleteHiddenVolumes L E c 0 h1 = (Inr remaining, h2)" "remaining \<le> 0"
    by (auto simp: configureHidden_def liveEngine_def getPSMDB_def handleIO_def callIO_def Let_def
        io_simps split: if_splits sum.splits)
  from deleteHiddenVolumes_ok [OF this(1)] this(2) show ?thesis by auto
qed simp

definition plainReplset :: replsetSpec where
  "plainReplset = configureReplset plainLib ''rs0'' None None None True '''' None"

theorem hidden_start_needs_fresh_volumes_witness:
  "(\<exists>rs' h'. configureHidden plainLib emptyCluster twoHidden plainReplset [] = (Inr rs', h') \<and>
      hid_Enabled (rs_Hidden rs')) \<and>
   ((\<exists>live. env_psmdb emptyCluster [] (c_Name twoHidden) = Inr live \<and>
       hid_Enabled (liveHiddenOf live (rs_Name plainReplset))) \<or>
    (\<exists>h1 pvcs. env_pvcs emptyCluster h1 (hiddenSelector plainLib (c_Name twoHidden)) = Inr pvcs \<and>
       filter (staleVolume 0) pvcs = []))"
proof -
  let ?h = "[Get KPSMDB ''my-mongo'', ListBy KPVC (hiddenSelector plainLib ''my-mongo'')]"
  let ?rs = "plainReplset\<lparr>rs_Hidden := hiddenSpecFor twoHidden zeroHidden\<rparr>"
  have run: "configureHidden plainLib emptyCluster twoHidden plainReplset [] = (Inr ?rs, ?h)"
    by (simp add: configureHidden_def twoHidden_replicas liveEngine_def getPSMDB_def
        deleteHiddenVolumes_def listPVCs_def io_defs emptyCluster_def Let_def)
      (simp add: twoHidden_def bareCtx_def)
  have off: "\<not> hid_Enabled (rs_Hidden plainReplset)" by (simp add: plainReplset_def)
  have on: "hid_Enabled (rs_Hidden ?rs)" by simp
  show ?thesis using run on hidden_start_needs_fresh_volumes [OF run off on] by blast
qed

text \<open>The storage class of running hidden members never changes: while the live replica set has
  hidden members with a volume claim, the hidden members the provider asks for keep its class,
  whatever the instance says.\<close>

theorem running_hidden_class_pinned:
  assumes "configureHidden L E c rs h = (Inr rs', h')" "0 < i32 (hiddenReplicas c)"
    and "env_psmdb E h (c_Name c) = Inr live"
    and "hid_Enabled (liveHiddenOf live (rs_Name rs))"
    and "hid_VolumeSpec (liveHiddenOf live (rs_Name rs)) = Some (Some claim)"
  shows "\<exists>p. hid_VolumeSpec (rs_Hidden rs') = Some (Some p) \<and>
     pvcs_StorageClassName p = pvcs_StorageClassName claim"
proof -
  from assms have "rs' = rs\<lparr>rs_Hidden := hiddenSpecFor c (liveHiddenOf live (rs_Name rs))\<rparr>"
    by (simp add: configureHidden_def liveEngine_def getPSMDB_def io_defs Let_def)
  moreover obtain p where
    "mongodVolume (hiddenStorage (comp_Storage (compAt (c_Components c) ComponentEngine))
       (comp_Storage (compAt (c_Components c) ComponentHidden))) = Some p"
    using mongodVolume_size by blast
  ultimately show ?thesis
    using assms(4,5) by (simp add: hiddenSpecFor_def Let_def)
qed

definition liveWithHidden :: psmdb where
  "liveWithHidden = zeroPSMDB\<lparr>cr_Spec := zeroPSMDBSpec\<lparr>ps_Replsets :=
     [plainReplset\<lparr>rs_Hidden := zeroHidden\<lparr>hid_Enabled := True,
        hid_VolumeSpec := Some (Some \<lparr>pvcs_Requests = Map.empty, pvcs_StorageClassName = Some ''fast''\<rparr>)\<rparr>\<rparr>]\<rparr>\<rparr>"

theorem running_hidden_class_pinned_witness:
  "\<exists>rs' h' p. configureHidden plainLib (emptyCluster\<lparr>env_psmdb := (\<lambda>h n. Inr liveWithHidden)\<rparr>)
       twoHidden plainReplset [] = (Inr rs', h') \<and>
     hid_VolumeSpec (rs_Hidden rs') = Some (Some p) \<and> pvcs_StorageClassName p = Some ''fast''"
proof -
  let ?E = "emptyCluster\<lparr>env_psmdb := (\<lambda>h n. Inr liveWithHidden)\<rparr>"
  let ?live = "liveHiddenOf liveWithHidden (rs_Name plainReplset)"
  let ?claim = "\<lparr>pvcs_Requests = Map.empty, pvcs_StorageClassName = Some ''fast''\<rparr>"
  have live: "hid_Enabled ?live" "hid_VolumeSpec ?live = Some (Some ?claim)"
    by (simp_all add: liveHiddenOf_def liveWithHidden_def plainReplset_def)
  have run: "configureHidden plainLib ?E twoHidden plainReplset [] =
      (Inr (plainReplset\<lparr>rs_Hidden := hiddenSpecFor twoHidden ?live\<rparr>), [Get KPSMDB (c_Name twoHidden)])"
    using live(1)
    by (simp add: configureHidden_def twoHidden_replicas liveEngine_def getPSMDB_def io_defs Let_def)
  have pos: "0 < i32 (hiddenReplicas twoHidden)" by (simp add: twoHidden_replicas)
  have found: "env_psmdb ?E [] (c_Name twoHidden) = Inr liveWithHidden" by simp
  show ?thesis
    using run running_hidden_class_pinned [OF run pos found live] by fastforce
qed

text \<open>C37. Clients of a replica set are pointed at every member but the hidden ones: \<^verbatim>\<open>withoutHiddenHosts\<close> returns
  the operator's host list, in its order, without exactly the hosts that belong to a hidden pod, by its pod name
  or by an ingress address of its service. Nothing is written.\<close>

theorem connection_hosts_exclude_hidden:
  assumes run: "withoutHiddenHosts L E cluster hosts h = (Inr out, h')"
    and rs: "\<not> sh_Enabled (ps_Sharding (cr_Spec cluster))" "contains hosts '',''"
    and pods: "env_pods E h (hiddenSelector L (cr_Name cluster)) = Inr pods"
    and svc: "\<forall>h n. env_service E h n = svc n"
  shows "out = joinWith '','' (filter (\<lambda>host. \<not> list_ex (\<lambda>p. hostOfPod svc p host) pods) (splitOn CHR '','' hosts)) \<and>
    (\<forall>host \<in> set (splitOn CHR '','' out). host = '''' \<or> \<not> list_ex (\<lambda>p. hostOfPod svc p host) pods) \<and>
    writes h' = writes h"
proof -
  let ?keep = "\<lambda>host. \<not> list_ex (\<lambda>p. hostOfPod svc p host) pods"
  have out: "out = joinWith '','' (filter ?keep (splitOn CHR '','' hosts))"
  proof (cases "pods = []")
    case True
    with run rs pods have "out = hosts"
      by (simp add: withoutHiddenHosts_def listPods_def bindIO_def wrapIO_def callIO_def returnIO_def)
    with True show ?thesis by (simp add: joinWith_splitOn)
  next
    case False
    with run rs pods obtain prefixes h1 where
      pre: "forIO (hiddenPrefixesOf E) pods (h @ [ListBy KPod (hiddenSelector L (cr_Name cluster))]) = (Inr prefixes, h1)"
      and out: "out = joinWith '','' (filter (\<lambda>host. \<not> list_ex (hasPrefix host) (concat prefixes)) (splitOn CHR '','' hosts))"
      by (auto simp: withoutHiddenHosts_def listPods_def io_simps)
    show ?thesis unfolding out prefixes_host [OF pre svc] ..
  qed
  have "host = '''' \<or> ?keep host" if "host \<in> set (splitOn CHR '','' out)" for host
    using that unfolding out by (rule splitOn_filter_joined)
  with out readOnly_writes [OF readOnly_withoutHiddenHosts run] show ?thesis by blast
qed

definition hiddenPodCluster :: env where
  "hiddenPodCluster = emptyCluster\<lparr>env_pods := (\<lambda>h sel. Inr [\<lparr>pod_Name = ''m-hidden-0'', pod_Conditions = []\<rparr>])\<rparr>"

theorem connection_hosts_exclude_hidden_witness:
  "\<exists>h'. withoutHiddenHosts plainLib hiddenPodCluster zeroPSMDB ''m-0.x,m-hidden-0.x'' [] = (Inr ''m-0.x'', h') \<and> writes h' = []"
proof -
  let ?run = "withoutHiddenHosts plainLib hiddenPodCluster zeroPSMDB ''m-0.x,m-hidden-0.x'' []"
  have "fst ?run = Inr ''m-0.x''" by code_simp
  then have run: "?run = (Inr ''m-0.x'', snd ?run)" by (metis prod.collapse)
  have sh: "\<not> sh_Enabled (ps_Sharding (cr_Spec zeroPSMDB))"
    by (simp add: zeroPSMDB_def zeroPSMDBSpec_def zeroSharding_def)
  have comma: "contains ''m-0.x,m-hidden-0.x'' '',''" by code_simp
  have pods: "env_pods hiddenPodCluster [] (hiddenSelector plainLib (cr_Name zeroPSMDB)) =
      Inr [\<lparr>pod_Name = ''m-hidden-0'', pod_Conditions = []\<rparr>]"
    by (simp add: hiddenPodCluster_def)
  have svc: "\<forall>h n. env_service hiddenPodCluster h n = Inl (APINotFound n)"
    by (simp add: hiddenPodCluster_def emptyCluster_def)
  have "writes (snd ?run) = []"
    using connection_hosts_exclude_hidden [OF run sh comma pods svc] by (simp add: writes_def)
  with run show ?thesis by blast
qed

text \<open>Backups prefer hidden members: once backup options are configured, the priority map the provider
  writes gives every hidden member's host the hidden priority and no other host any, and with no
  hidden member the options are left alone.\<close>

theorem backups_prefer_hidden_members:
  assumes "bk_Options (ps_Backup (cr_Spec cr)) = Some opts"
  shows "bk_Options (ps_Backup (cr_Spec (preferHiddenForBackups L cr))) =
    Some (if hiddenHosts L cr = [] then opts
          else opts\<lparr>bo_Priority := (\<lambda>host. if host \<in> set (hiddenHosts L cr)
                                           then Some hiddenBackupPriority else None)\<rparr>)"
  using assms by (simp add: preferHiddenForBackups_def Let_def fold_priority)

definition backedUpCR :: psmdb where
  "backedUpCR = zeroPSMDB\<lparr>cr_Name := ''m'', cr_Namespace := ''db'', cr_Spec := zeroPSMDBSpec\<lparr>
     ps_Backup := zeroBackupSpec\<lparr>bk_Options := Some \<lparr>bo_StartingTimeout = 120, bo_Priority = Map.empty\<rparr>\<rparr>,
     ps_Replsets := [plainReplset\<lparr>rs_Hidden := zeroHidden\<lparr>hid_Enabled := True, hid_Size := 1\<rparr>\<rparr>]\<rparr>\<rparr>"

lemma backedUpCR_hosts:
  "hiddenHosts plainLib backedUpCR = [''m-rs0-hidden-0.m-rs0.db.svc.cluster.local:27017'']"
  by (simp add: hiddenHosts_def backedUpCR_def hiddenHost_def plainLib_def plainReplset_def
      zeroPSMDBSpec_def itoa_def natString.simps)

theorem backups_prefer_hidden_members_witness:
  "\<exists>opts. bk_Options (ps_Backup (cr_Spec (preferHiddenForBackups plainLib backedUpCR))) = Some opts \<and>
     bo_Priority opts ''m-rs0-hidden-0.m-rs0.db.svc.cluster.local:27017'' = Some hiddenBackupPriority"
proof -
  have "bk_Options (ps_Backup (cr_Spec backedUpCR)) =
      Some \<lparr>bo_StartingTimeout = 120, bo_Priority = Map.empty\<rparr>"
    by (simp add: backedUpCR_def)
  from backups_prefer_hidden_members [OF this, of plainLib] show ?thesis
    unfolding backedUpCR_hosts by (intro exI conjI, assumption) auto
qed

end
