(* ===== verification/Topology.thy ===== *)
theory Topology
  imports Hidden_Members
begin

text \<open>
  The cluster's members by topology (replsets.go, mongos.go, definition/types.go and
  definition/topologies): the replica sets or shards, the config servers and the mongos routers.
  It also states the contract of the later steps of a Sync: they decorate the members but change
  neither which there are nor how many (\<open>spec_stage\<close>).
\<close>

section \<open>Definitions\<close>

definition TopologyTypeReplicaSet :: string where
  "TopologyTypeReplicaSet = ''replicaSet''"

definition TopologyTypeSharded :: string where
  "TopologyTypeSharded = ''sharded''"

definition isSharded :: "instance_t \<Rightarrow> bool" where
  "isSharded i = (case in_Topology i of None \<Rightarrow> False | Some t \<Rightarrow> top_Type t = ''sharded'')"

definition numShards :: "lib \<Rightarrow> instance_t \<Rightarrow> nat" where
  "numShards L i =
     (case lib_numShards L i of
        None \<Rightarrow> 2
      | Some n \<Rightarrow> if 0 < i32 n then nat (i32 n) else 2)"

definition configureReplsets :: "lib \<Rightarrow> env \<Rightarrow> ctx \<Rightarrow> replsetSpec list act" where
  "configureReplsets L E c =
     (let i = c_Instance c;
          engine = compAt (in_Components i) ComponentEngine;
          config = lib_componentConfiguration L engine
      in if \<not> isSharded i
         then bindIO (configureHidden L E c
                (configureReplset L (rsName 0) (comp_Replicas engine) (comp_Resources engine)
                   (comp_Storage engine) True config (comp_Service engine)))
                (\<lambda>rs. returnIO [rs])
         else returnIO (map (\<lambda>k. configureReplset L (rsName k) (comp_Replicas engine)
                (comp_Resources engine) (comp_Storage engine) False config None) [0..<numShards L i]))"

definition keepCurrentConfigServerStorageClass :: "env \<Rightarrow> ctx \<Rightarrow> replsetSpec \<Rightarrow> replsetSpec act" where
  "keepCurrentConfigServerStorageClass E c rs =
     handleIO (getPSMDB E (c_Name c)) (\<lambda>r. case r of
       Inl e \<Rightarrow> if isNotFound e then returnIO rs else failIO (Wrap ''fetching current PSMDB CR'' e)
     | Inr current \<Rightarrow>
         (case (sh_Enabled (ps_Sharding (cr_Spec current)), sh_Configsvr (ps_Sharding (cr_Spec current))) of
            (True, Some currentCfg) \<Rightarrow>
              (case rs_VolumeSpec currentCfg of
                 Some (Some claim) \<Rightarrow>
                   returnIO (rs\<lparr>rs_VolumeSpec := map_option (map_option
                     (\<lambda>p. p\<lparr>pvcs_StorageClassName := pvcs_StorageClassName claim\<rparr>)) (rs_VolumeSpec rs)\<rparr>)
               | _ \<Rightarrow> returnIO rs)
          | _ \<Rightarrow> returnIO rs))"

definition configureConfigServerReplset :: "lib \<Rightarrow> env \<Rightarrow> ctx \<Rightarrow> replsetSpec option act" where
  "configureConfigServerReplset L E c =
     (let i = c_Instance c in
      if \<not> isSharded i then returnIO None
      else let cfgSrv = compAt (in_Components i) ComponentConfigServer;
               config = lib_componentConfiguration L cfgSrv
           in bindIO (keepCurrentConfigServerStorageClass E c
                (configureReplset L ''configsvr'' (comp_Replicas cfgSrv) (comp_Resources cfgSrv)
                   (comp_Storage cfgSrv) False config None))
                (\<lambda>rs. returnIO (Some rs)))"

text \<open>
  \<^verbatim>\<open>configureMongos\<close> fills the resource lists in place, starting from empty limits.
\<close>

definition configureMongos :: "lib \<Rightarrow> ctx \<Rightarrow> mongosSpec" where
  "configureMongos L c =
     (let proxy = compAt (c_Components c) ComponentProxy;
          config = lib_componentConfiguration L proxy;
          m0 = \<lparr>mos_Size = 3,
                mos_MultiAZ = zeroMultiAZ\<lparr>az_Resources := \<lparr>rr_Limits = Some Map.empty, rr_Requests = None\<rparr>\<rparr>,
                mos_Configuration = '''',
                mos_Expose = \<lparr>ex_ExposeType = '''', ex_ServiceAnnotations = Map.empty, ex_SourceRanges = []\<rparr>\<rparr>;
          m1 = (if config \<noteq> '''' then m0\<lparr>mos_Configuration := config\<rparr> else m0);
          m2 = (case comp_Replicas proxy of None \<Rightarrow> m1 | Some n \<Rightarrow> m1\<lparr>mos_Size := n\<rparr>);
          res0 = az_Resources (mos_MultiAZ m2);
          res2 = (case comp_Resources proxy of
                    None \<Rightarrow> res0
                  | Some r \<Rightarrow>
                      (let res1 = (case rr_Limits r of
                                     None \<Rightarrow> res0
                                   | Some l \<Rightarrow> res0\<lparr>rr_Limits := map_option (\<lambda>out.
                                       putNonZero ResourceMemory l (putNonZero ResourceCPU l out))
                                       (rr_Limits res0)\<rparr>)
                       in case rr_Requests r of
                            None \<Rightarrow> res1
                          | Some l \<Rightarrow> res1\<lparr>rr_Requests := Some (putNonZero ResourceMemory l
                              (putNonZero ResourceCPU l Map.empty))\<rparr>))
      in m2\<lparr>mos_MultiAZ := (mos_MultiAZ m2)\<lparr>az_Resources := res2\<rparr>,
           mos_Expose := configureExpose L (comp_Service proxy)\<rparr>)"

section \<open>The members of a cluster\<close>

text \<open>
  What the operator builds StatefulSets from: each replica set's name, size, volume, hidden
  members and resources, whether the cluster is sharded, and the config servers and routers.
\<close>

type_synonym replsetShape =
  "string \<times> int32 \<times> volumeSpec option \<times> bool \<times> int32 \<times> volumeSpec option \<times> resourceRequirements \<times> resourceRequirements"

definition rsShape :: "replsetSpec \<Rightarrow> replsetShape" where
  "rsShape rs = (rs_Name rs, rs_Size rs, rs_VolumeSpec rs, hid_Enabled (rs_Hidden rs),
     hid_Size (rs_Hidden rs), hid_VolumeSpec (rs_Hidden rs), az_Resources (rs_MultiAZ rs),
     az_Resources (hid_MultiAZ (rs_Hidden rs)))"

definition members ::
  "psmdb \<Rightarrow> replsetShape list \<times> bool \<times> replsetShape option \<times> int32 option" where
  "members cr =
     (let sp = cr_Spec cr; sh = ps_Sharding sp
      in (map rsShape (ps_Replsets sp), sh_Enabled sh, map_option rsShape (sh_Configsvr sh),
          map_option mos_Size (sh_Mongos sh)))"

text \<open>A sharded CR has its config servers and its routers, so no step dereferences nil.\<close>

definition shardingComplete :: "psmdb \<Rightarrow> bool" where
  "shardingComplete cr =
     (sh_Enabled (ps_Sharding (cr_Spec cr)) \<longrightarrow>
        sh_Configsvr (ps_Sharding (cr_Spec cr)) \<noteq> None \<and> sh_Mongos (ps_Sharding (cr_Spec cr)) \<noteq> None)"

lemma shardingComplete_members:
  "members cr = members cr' \<Longrightarrow> shardingComplete cr = shardingComplete cr'"
  by (cases "sh_Configsvr (ps_Sharding (cr_Spec cr'))"; cases "sh_Mongos (ps_Sharding (cr_Spec cr'))")
    (auto simp: members_def shardingComplete_def Let_def)

text \<open>The contract of a step that decorates the CR: when it returns, the members are the same.\<close>

locale spec_stage =
  fixes stage :: "psmdb \<Rightarrow> psmdb act"
  assumes keeps_members: "stage cr h = (Inr cr', h') \<Longrightarrow> members cr' = members cr"
begin

lemma keeps_complete:
  "stage cr h = (Inr cr', h') \<Longrightarrow> shardingComplete cr' = shardingComplete cr"
  using keeps_members shardingComplete_members by blast

lemma keeps_sharding:
  "stage cr h = (Inr cr', h') \<Longrightarrow>
     sh_Enabled (ps_Sharding (cr_Spec cr')) = sh_Enabled (ps_Sharding (cr_Spec cr))"
  using keeps_members by (fastforce simp: members_def Let_def)

end

section \<open>Lemmas\<close>

lemma configureReplsets_ok:
  assumes "configureReplsets L E c h = (Inr rss, h')"
  shows "map rs_Name rss = map rsName [0..<if isSharded (c_Instance c) then numShards L (c_Instance c) else 1]"
  using assms
  by (auto simp: configureReplsets_def Let_def io_simps comp_def dest!: configureHidden_result
      split: if_splits)

lemma numShards_pos: "0 < numShards L i"
  by (simp add: numShards_def split: option.splits)

lemma distinct_rsNames: "distinct (map rsName ks) \<longleftrightarrow> distinct ks"
  by (auto simp: distinct_map inj_on_def dest: rsName_inj)

text \<open>The routers get their resources as every mongod does.\<close>

lemma configureMongos_resources:
  "az_Resources (mos_MultiAZ (configureMongos L c)) =
     mongodResources (comp_Resources (compAt (c_Components c) ComponentProxy))"
  by (auto simp: configureMongos_def mongodResources_def Let_def zeroMultiAZ_def split: option.splits)

section \<open>Properties\<close>

text \<open>The shards a Sync configures are well named: their names are \<^verbatim>\<open>rs0\<close>, \<^verbatim>\<open>rs1\<close>, \<open>\<dots>\<close>, all different, at
  least one, exactly as many as asked for (two by default) in the sharded topology and one
  otherwise; and each has the engine's size, or three.\<close>

theorem shard_names_distinct:
  assumes "configureReplsets L E c h = (Inr rss, h')"
  shows "distinct (map rs_Name rss) \<and> rss \<noteq> [] \<and>
    length rss = (if isSharded (c_Instance c) then numShards L (c_Instance c) else 1) \<and>
    (\<forall>rs \<in> set rss. rs_Size rs =
       (case comp_Replicas (compAt (c_Components c) ComponentEngine) of None \<Rightarrow> 3 | Some n \<Rightarrow> n))"
proof -
  let ?n = "if isSharded (c_Instance c) then numShards L (c_Instance c) else 1"
  have names: "map rs_Name rss = map rsName [0..<?n]"
    using assms by (rule configureReplsets_ok)
  then have "length rss = ?n" by (metis length_map length_upt diff_zero)
  moreover have "0 < ?n" by (simp add: numShards_pos)
  moreover have "\<forall>rs \<in> set rss. rs_Size rs =
       (case comp_Replicas (compAt (c_Components c) ComponentEngine) of None \<Rightarrow> 3 | Some n \<Rightarrow> n)"
    using assms
    by (auto simp: configureReplsets_def Let_def io_simps dest!: configureHidden_result
        split: if_splits)
  moreover have "distinct (map rs_Name rss)" unfolding names by (simp only: distinct_rsNames distinct_upt)
  ultimately show ?thesis by auto
qed

definition shardedCtx :: ctx where
  "shardedCtx = bareCtx\<lparr>c_Instance := bareInstance\<lparr>in_Topology :=
     Some \<lparr>top_Type = ''sharded'', top_Parameters = None\<rparr>\<rparr>\<rparr>"

theorem shard_names_distinct_witness:
  "\<exists>rss. configureReplsets plainLib emptyCluster shardedCtx [] = (Inr rss, []) \<and>
     distinct (map rs_Name rss) \<and> length rss = 2"
proof -
  obtain rss where run: "configureReplsets plainLib emptyCluster shardedCtx [] = (Inr rss, [])"
    by (simp add: configureReplsets_def isSharded_def shardedCtx_def Let_def returnIO_def)
  have two: "isSharded (c_Instance shardedCtx)" "numShards plainLib (c_Instance shardedCtx) = 2"
    by (simp_all add: isSharded_def shardedCtx_def numShards_def plainLib_def)
  show ?thesis
    using run shard_names_distinct [OF run] by (auto simp: two)
qed

text \<open>The config servers' storage class never changes on a running cluster: while the live CR is sharded
  and its config servers have a volume claim, the config servers the provider asks for keep its
  class.\<close>

theorem config_server_class_pinned:
  assumes "configureConfigServerReplset L E c h = (Inr (Some rs), h')"
    and "env_psmdb E h (c_Name c) = Inr current" "sh_Enabled (ps_Sharding (cr_Spec current))"
    and "sh_Configsvr (ps_Sharding (cr_Spec current)) = Some cfg"
    and "rs_VolumeSpec cfg = Some (Some claim)"
  shows "\<exists>p. rs_VolumeSpec rs = Some (Some p) \<and> pvcs_StorageClassName p = pvcs_StorageClassName claim"
proof -
  let ?srv = "compAt (c_Components c) ComponentConfigServer"
  obtain p where vol: "mongodVolume (comp_Storage ?srv) = Some p"
    using mongodVolume_size by blast
  have "rs_VolumeSpec rs = Some (Some (p\<lparr>pvcs_StorageClassName := pvcs_StorageClassName claim\<rparr>))"
    using assms vol
    by (auto simp: configureConfigServerReplset_def keepCurrentConfigServerStorageClass_def
        getPSMDB_def io_defs Let_def split: if_splits)
  then show ?thesis by simp
qed

definition liveSharded :: psmdb where
  "liveSharded = zeroPSMDB\<lparr>cr_Spec := zeroPSMDBSpec\<lparr>ps_Sharding := \<lparr>sh_Enabled = True,
     sh_Configsvr = Some (plainReplset\<lparr>rs_VolumeSpec := Some (Some
       \<lparr>pvcs_Requests = Map.empty, pvcs_StorageClassName = Some ''fast''\<rparr>)\<rparr>), sh_Mongos = None\<rparr>\<rparr>\<rparr>"

theorem config_server_class_pinned_witness:
  "\<exists>rs h' p. configureConfigServerReplset plainLib (emptyCluster\<lparr>env_psmdb := (\<lambda>h n. Inr liveSharded)\<rparr>)
     shardedCtx [] = (Inr (Some rs), h') \<and> rs_VolumeSpec rs = Some (Some p) \<and>
     pvcs_StorageClassName p = Some ''fast''"
proof -
  let ?E = "emptyCluster\<lparr>env_psmdb := (\<lambda>h n. Inr liveSharded)\<rparr>"
  have live: "env_psmdb ?E [] (c_Name shardedCtx) = Inr liveSharded"
    "sh_Enabled (ps_Sharding (cr_Spec liveSharded))" by (simp_all add: liveSharded_def)
  obtain cfg claim where cfg: "sh_Configsvr (ps_Sharding (cr_Spec liveSharded)) = Some cfg"
    "rs_VolumeSpec cfg = Some (Some claim)" "pvcs_StorageClassName claim = Some ''fast''"
    by (simp add: liveSharded_def)
  obtain rs h' where run: "configureConfigServerReplset plainLib ?E shardedCtx [] = (Inr (Some rs), h')"
    using live cfg
    by (simp add: configureConfigServerReplset_def keepCurrentConfigServerStorageClass_def
        isSharded_def shardedCtx_def getPSMDB_def io_defs Let_def)
  show ?thesis
    using run config_server_class_pinned [OF run live cfg(1,2)] cfg(3) by auto
qed

text \<open>The mongos routers get their resources exactly as the mongod members do, although
  \<^verbatim>\<open>configureMongos\<close> repeats the code instead of calling \<^verbatim>\<open>mongodResources\<close>: CPU and memory limits and
  requests that are set and not zero are kept, everything else is dropped, and writing the result
  back changes nothing.\<close>

theorem mongos_resources_as_mongod:
  "az_Resources (mos_MultiAZ (configureMongos L c)) =
     mongodResources (comp_Resources (compAt (c_Components c) ComponentProxy)) \<and>
   mongodResources (Some (az_Resources (mos_MultiAZ (configureMongos L c)))) =
     az_Resources (mos_MultiAZ (configureMongos L c)) \<and>
   rlGet (rr_Limits (az_Resources (mos_MultiAZ (configureMongos L c)))) n =
     cpuMemoryOf (Option.bind (comp_Resources (compAt (c_Components c) ComponentProxy))
       (\<lambda>r. rlGet (rr_Limits r) n)) n"
  by (simp add: configureMongos_resources mongodResources_idem mongodResources_limits)

end
