(* ===== verification/Scheduling.thy ===== *)
theory Scheduling
  imports Topology
begin

text \<open>
  Pod placement and pod labels (scheduling.go). Both steps walk over every component of the
  cluster; a sharded CR without config servers or routers would make them panic.
\<close>

section \<open>Definitions\<close>

abbreviation LabelHostname :: string where
  "LabelHostname \<equiv> ''kubernetes.io/hostname''"

text \<open>\<^verbatim>\<open>psmdbv1.AffinityOff\<close>.\<close>

abbreviation AffinityOff :: string where
  "AffinityOff \<equiv> ''none''"

definition scheduleMultiAZ ::
  "lib \<Rightarrow> schedulingPolicy option \<Rightarrow> labels \<Rightarrow> string \<Rightarrow> multiAZ \<Rightarrow> multiAZ" where
  "scheduleMultiAZ L policy podLabels antiAffinityKey az =
     az\<lparr>az_Affinity := (case policy of
          None \<Rightarrow> Some (TopologyKey antiAffinityKey)
        | Some p \<Rightarrow> (case sp_Affinity p of
            None \<Rightarrow> Some (TopologyKey antiAffinityKey)
          | Some a \<Rightarrow> Some (AdvancedAffinity a))),
        az_TopologySpread := lib_topologySpread L policy podLabels\<rparr>"

definition scheduleReplset :: "lib \<Rightarrow> ctx \<Rightarrow> psmdb \<Rightarrow> replsetSpec \<Rightarrow> replsetSpec" where
  "scheduleReplset L c cr rs =
     (let comps = c_Components c;
          rs1 = rs\<lparr>rs_MultiAZ := scheduleMultiAZ L (comp_SchedulingPolicy (compAt comps ComponentEngine))
                    (lib_mongodLabels L cr rs) LabelHostname (rs_MultiAZ rs)\<rparr>
      in if hid_Enabled (rs_Hidden rs1)
         then rs1\<lparr>rs_Hidden := (rs_Hidden rs1)\<lparr>hid_MultiAZ :=
                scheduleMultiAZ L (comp_SchedulingPolicy (compAt comps ComponentHidden))
                  (lib_hiddenLabels L cr rs1) LabelHostname (hid_MultiAZ (rs_Hidden rs1))\<rparr>\<rparr>
         else rs1)"

definition setReplsets :: "(replsetSpec \<Rightarrow> replsetSpec) \<Rightarrow> psmdb \<Rightarrow> psmdb" where
  "setReplsets f cr = cr\<lparr>cr_Spec := (cr_Spec cr)\<lparr>ps_Replsets := map f (ps_Replsets (cr_Spec cr))\<rparr>\<rparr>"

definition setSharding :: "replsetSpec \<Rightarrow> mongosSpec \<Rightarrow> psmdb \<Rightarrow> psmdb" where
  "setSharding cfg mos cr = cr\<lparr>cr_Spec := (cr_Spec cr)\<lparr>ps_Sharding :=
     (ps_Sharding (cr_Spec cr))\<lparr>sh_Configsvr := Some cfg, sh_Mongos := Some mos\<rparr>\<rparr>\<rparr>"

definition applyScheduling :: "lib \<Rightarrow> ctx \<Rightarrow> psmdb \<Rightarrow> psmdb act" where
  "applyScheduling L c cr =
     (let comps = c_Components c; cr1 = setReplsets (scheduleReplset L c cr) cr
      in if \<not> sh_Enabled (ps_Sharding (cr_Spec cr)) then returnIO cr1
         else bindIO (derefIO (sh_Configsvr (ps_Sharding (cr_Spec cr)))) (\<lambda>cfg.
              bindIO (derefIO (sh_Mongos (ps_Sharding (cr_Spec cr)))) (\<lambda>mos.
                let cfgLabels = (lib_rsLabels L cr (lib_configReplSetName L))
                      (lib_labelKubernetesComponent L \<mapsto> lib_configReplSetName L)
                in returnIO (setSharding
                     (cfg\<lparr>rs_MultiAZ := scheduleMultiAZ L
                        (comp_SchedulingPolicy (compAt comps ComponentConfigServer)) cfgLabels
                        LabelHostname (rs_MultiAZ cfg)\<rparr>)
                     (mos\<lparr>mos_MultiAZ := scheduleMultiAZ L
                        (comp_SchedulingPolicy (compAt comps ComponentProxy)) (lib_mongosLabels L cr)
                        AffinityOff (mos_MultiAZ mos)\<rparr>) cr1))))"

definition labelReplset :: "lib \<Rightarrow> ctx \<Rightarrow> replsetSpec \<Rightarrow> replsetSpec" where
  "labelReplset L c rs =
     (let rs1 = rs\<lparr>rs_MultiAZ := (rs_MultiAZ rs)\<lparr>az_Labels := lib_podLabels L (c_Name c) ComponentEngine\<rparr>\<rparr>
      in if hid_Enabled (rs_Hidden rs1)
         then rs1\<lparr>rs_Hidden := (rs_Hidden rs1)\<lparr>hid_MultiAZ := (hid_MultiAZ (rs_Hidden rs1))\<lparr>
                az_Labels := lib_podLabels L (c_Name c) ComponentHidden\<rparr>\<rparr>\<rparr>
         else rs1)"

definition labelPods :: "lib \<Rightarrow> ctx \<Rightarrow> psmdb \<Rightarrow> psmdb act" where
  "labelPods L c cr =
     (let cr1 = setReplsets (labelReplset L c) cr
      in if \<not> sh_Enabled (ps_Sharding (cr_Spec cr)) then returnIO cr1
         else bindIO (derefIO (sh_Configsvr (ps_Sharding (cr_Spec cr)))) (\<lambda>cfg.
              bindIO (derefIO (sh_Mongos (ps_Sharding (cr_Spec cr)))) (\<lambda>mos.
                returnIO (setSharding
                  (cfg\<lparr>rs_MultiAZ := (rs_MultiAZ cfg)\<lparr>az_Labels := lib_podLabels L (c_Name c) ComponentConfigServer\<rparr>\<rparr>)
                  (mos\<lparr>mos_MultiAZ := (mos_MultiAZ mos)\<lparr>az_Labels := lib_podLabels L (c_Name c) ComponentProxy\<rparr>\<rparr>)
                  cr1))))"

section \<open>Both steps keep the members\<close>

lemma setReplsets_simps [simp]:
  "ps_Sharding (cr_Spec (setReplsets f cr)) = ps_Sharding (cr_Spec cr)"
  "ps_Replsets (cr_Spec (setReplsets f cr)) = map f (ps_Replsets (cr_Spec cr))"
  "cr_Name (setReplsets f cr) = cr_Name cr"
  by (simp_all add: setReplsets_def)

lemma setSharding_simps [simp]:
  "ps_Replsets (cr_Spec (setSharding cfg mos cr)) = ps_Replsets (cr_Spec cr)"
  "sh_Enabled (ps_Sharding (cr_Spec (setSharding cfg mos cr))) = sh_Enabled (ps_Sharding (cr_Spec cr))"
  "sh_Configsvr (ps_Sharding (cr_Spec (setSharding cfg mos cr))) = Some cfg"
  "sh_Mongos (ps_Sharding (cr_Spec (setSharding cfg mos cr))) = Some mos"
  "cr_Name (setSharding cfg mos cr) = cr_Name cr"
  by (simp_all add: setSharding_def)

lemma members_setReplsets:
  "(\<And>rs. rsShape (f rs) = rsShape rs) \<Longrightarrow> members (setReplsets f cr) = members cr"
  by (simp add: members_def Let_def)

lemma members_setSharding:
  assumes "sh_Configsvr (ps_Sharding (cr_Spec cr)) = Some cfg0" "rsShape cfg = rsShape cfg0"
    and "sh_Mongos (ps_Sharding (cr_Spec cr)) = Some mos0" "mos_Size mos = mos_Size mos0"
  shows "members (setSharding cfg mos cr) = members cr"
  using assms by (simp add: members_def Let_def)

lemma scheduleReplset_shape [simp]: "rsShape (scheduleReplset L c cr rs) = rsShape rs"
  by (simp add: scheduleReplset_def scheduleMultiAZ_def rsShape_def Let_def)

lemma labelReplset_shape [simp]: "rsShape (labelReplset L c rs) = rsShape rs"
  by (simp add: labelReplset_def rsShape_def Let_def)

lemma rsShape_MultiAZ [simp]:
  "az_Resources az = az_Resources (rs_MultiAZ rs) \<Longrightarrow> rsShape (rs\<lparr>rs_MultiAZ := az\<rparr>) = rsShape rs"
  by (simp add: rsShape_def)

lemma scheduleMultiAZ_resources [simp]: "az_Resources (scheduleMultiAZ L p l k az) = az_Resources az"
  by (simp add: scheduleMultiAZ_def)

interpretation scheduling: spec_stage "applyScheduling L c" for L c
proof unfold_locales
  fix cr h cr' h'
  assume "applyScheduling L c cr h = (Inr cr', h')"
  then show "members cr' = members cr"
    by (cases "sh_Configsvr (ps_Sharding (cr_Spec cr))"; cases "sh_Mongos (ps_Sharding (cr_Spec cr))")
      (auto simp: applyScheduling_def Let_def io_simps members_setReplsets
        intro!: trans [OF members_setSharding members_setReplsets] split: if_splits)
qed

interpretation labelling: spec_stage "labelPods L c" for L c
proof unfold_locales
  fix cr h cr' h'
  assume "labelPods L c cr h = (Inr cr', h')"
  then show "members cr' = members cr"
    by (cases "sh_Configsvr (ps_Sharding (cr_Spec cr))"; cases "sh_Mongos (ps_Sharding (cr_Spec cr))")
      (auto simp: labelPods_def Let_def io_simps members_setReplsets
        intro!: trans [OF members_setSharding members_setReplsets] split: if_splits)
qed

lemma applyScheduling_total:
  "shardingComplete cr \<Longrightarrow> \<exists>cr'. applyScheduling L c cr h = (Inr cr', h)"
  by (auto simp: applyScheduling_def shardingComplete_def Let_def returnIO_def)

lemma labelPods_total: "shardingComplete cr \<Longrightarrow> \<exists>cr'. labelPods L c cr h = (Inr cr', h)"
  by (auto simp: labelPods_def shardingComplete_def Let_def returnIO_def)

lemma emits_applyScheduling: "emits P (applyScheduling L c cr)"
  by (auto simp: applyScheduling_def Let_def intro!: emits_bind)

lemma emits_labelPods: "emits P (labelPods L c cr)"
  by (auto simp: labelPods_def Let_def intro!: emits_bind)

section \<open>Properties\<close>

text \<open>The anti-affinity of a component: the user's own affinity, or the operator's by key.\<close>

definition wantedAffinity :: "schedulingPolicy option \<Rightarrow> string \<Rightarrow> podAffinity option" where
  "wantedAffinity policy key =
     Some (case Option.bind policy sp_Affinity of None \<Rightarrow> TopologyKey key | Some a \<Rightarrow> AdvancedAffinity a)"

lemma scheduleMultiAZ_affinity [simp]:
  "az_Affinity (scheduleMultiAZ L policy l key az) = wantedAffinity policy key"
  by (simp add: scheduleMultiAZ_def wantedAffinity_def split: option.splits)

text \<open>Data-bearing pods are kept on separate nodes unless the user brings an affinity: after
  \<^verbatim>\<open>applyScheduling\<close> every replica set, its enabled hidden members and the config servers carry the
  user's affinity or required anti-affinity by host name, while the stateless mongos may share a
  node; and the step changes no member of the cluster.\<close>

theorem data_pods_on_separate_nodes:
  assumes "applyScheduling L c cr h = (Inr cr', h')"
  shows "(\<forall>rs \<in> set (ps_Replsets (cr_Spec cr')).
       az_Affinity (rs_MultiAZ rs) =
         wantedAffinity (comp_SchedulingPolicy (compAt (c_Components c) ComponentEngine)) LabelHostname \<and>
       (hid_Enabled (rs_Hidden rs) \<longrightarrow> az_Affinity (hid_MultiAZ (rs_Hidden rs)) =
         wantedAffinity (comp_SchedulingPolicy (compAt (c_Components c) ComponentHidden)) LabelHostname)) \<and>
    (sh_Enabled (ps_Sharding (cr_Spec cr')) \<longrightarrow>
       (\<exists>cfg mos. sh_Configsvr (ps_Sharding (cr_Spec cr')) = Some cfg \<and>
          sh_Mongos (ps_Sharding (cr_Spec cr')) = Some mos \<and>
          az_Affinity (rs_MultiAZ cfg) =
            wantedAffinity (comp_SchedulingPolicy (compAt (c_Components c) ComponentConfigServer)) LabelHostname \<and>
          az_Affinity (mos_MultiAZ mos) =
            wantedAffinity (comp_SchedulingPolicy (compAt (c_Components c) ComponentProxy)) AffinityOff)) \<and>
    members cr' = members cr"
proof -
  have rs: "az_Affinity (rs_MultiAZ (scheduleReplset L c cr rs)) =
        wantedAffinity (comp_SchedulingPolicy (compAt (c_Components c) ComponentEngine)) LabelHostname"
    "hid_Enabled (rs_Hidden (scheduleReplset L c cr rs)) \<Longrightarrow>
      az_Affinity (hid_MultiAZ (rs_Hidden (scheduleReplset L c cr rs))) =
        wantedAffinity (comp_SchedulingPolicy (compAt (c_Components c) ComponentHidden)) LabelHostname" for rs
    by (auto simp: scheduleReplset_def Let_def split: if_splits)
  show ?thesis
    using assms scheduling.keeps_members [OF assms]
    by (cases "sh_Configsvr (ps_Sharding (cr_Spec cr))"; cases "sh_Mongos (ps_Sharding (cr_Spec cr))")
      (auto simp: applyScheduling_def Let_def io_simps rs split: if_splits)
qed

definition shardedCR :: psmdb where
  "shardedCR = zeroPSMDB\<lparr>cr_Name := ''m'', cr_Spec := zeroPSMDBSpec\<lparr>ps_Replsets := [plainReplset],
     ps_Sharding := \<lparr>sh_Enabled = True, sh_Configsvr = Some (plainReplset\<lparr>rs_Name := ''configsvr''\<rparr>),
       sh_Mongos = Some (configureMongos plainLib bareCtx)\<rparr>\<rparr>\<rparr>"

theorem data_pods_on_separate_nodes_witness:
  "\<exists>cr' cfg. applyScheduling plainLib bareCtx shardedCR [] = (Inr cr', []) \<and>
     sh_Configsvr (ps_Sharding (cr_Spec cr')) = Some cfg \<and>
     az_Affinity (rs_MultiAZ cfg) = Some (TopologyKey LabelHostname)"
proof -
  have "shardingComplete shardedCR" by (simp add: shardingComplete_def shardedCR_def)
  then obtain cr' where run: "applyScheduling plainLib bareCtx shardedCR [] = (Inr cr', [])"
    using applyScheduling_total by blast
  have "sh_Enabled (ps_Sharding (cr_Spec cr'))"
    using scheduling.keeps_sharding [OF run] by (simp add: shardedCR_def)
  then show ?thesis
    using run data_pods_on_separate_nodes [OF run]
    by (auto simp: wantedAffinity_def compAt_def bareCtx_def bareInstance_def zeroComponent_def)
qed

end
