(* ===== verification/TLS_Config.thy ===== *)
theory TLS_Config
  imports Scheduling
begin

text \<open>
  TLS (tls.go and the TLS types of definition/types.go): the parameters with their defaults, the
  certificate source, the gate on the restart that makes client certificates optional, the
  validation rules, and what clients are told. JSON decoding into the provider's structs follows
  \<^verbatim>\<open>encoding/json\<close>: keys match a field by exact name or else by ASCII case folding, null leaves a field
  as it is (and a pointer nil), unknown keys are skipped, and a value of another type is an error.
\<close>

section \<open>Decoding JSON into structs\<close>

type_synonym 's field = "string \<times> (json \<Rightarrow> 's \<Rightarrow> go_error + 's)"

definition asciiLower :: "char \<Rightarrow> char" where
  "asciiLower ch = (let n = (of_char ch :: nat) in if 65 \<le> n \<and> n \<le> 90 then char_of (n + 32) else ch)"

definition foldName :: "string \<Rightarrow> string" where
  "foldName s = map asciiLower s"

definition findField :: "'s field list \<Rightarrow> string \<Rightarrow> 's field option" where
  "findField fs key =
     (case List.find (\<lambda>f. fst f = key) fs of
        Some f \<Rightarrow> Some f
      | None \<Rightarrow> List.find (\<lambda>f. foldName (fst f) = foldName key) fs)"

fun decodeFields :: "'s field list \<Rightarrow> (string \<times> json) list \<Rightarrow> 's \<Rightarrow> go_error + 's" where
  "decodeFields fs [] s = Inr s"
| "decodeFields fs ((key, v) # kvs) s =
     (case findField fs key of
        None \<Rightarrow> decodeFields fs kvs s
      | Some f \<Rightarrow> (case snd f v s of Inl e \<Rightarrow> Inl e | Inr s' \<Rightarrow> decodeFields fs kvs s'))"

definition typeError :: go_error where
  "typeError = Errorf ''json: cannot unmarshal value''"

definition decodeStruct :: "'s field list \<Rightarrow> json \<Rightarrow> 's \<Rightarrow> go_error + 's" where
  "decodeStruct fs j s =
     (case j of JNull \<Rightarrow> Inr s | JObject kvs \<Rightarrow> decodeFields fs kvs s | _ \<Rightarrow> Inl typeError)"

definition decodeString :: "json \<Rightarrow> string \<Rightarrow> go_error + string" where
  "decodeString j old =
     (case j of JNull \<Rightarrow> Inr old | JString s \<Rightarrow> Inr s | _ \<Rightarrow> Inl typeError)"

definition decodePointer :: "'s field list \<Rightarrow> 's \<Rightarrow> json \<Rightarrow> 's option \<Rightarrow> go_error + 's option" where
  "decodePointer fs zero j old =
     (case j of
        JNull \<Rightarrow> Inr None
      | _ \<Rightarrow> (case decodeStruct fs j (case old of None \<Rightarrow> zero | Some s \<Rightarrow> s) of
                Inl e \<Rightarrow> Inl e | Inr s \<Rightarrow> Inr (Some s)))"

definition mapRight :: "('a \<Rightarrow> 'b) \<Rightarrow> go_error + 'a \<Rightarrow> go_error + 'b" where
  "mapRight f r = (case r of Inl e \<Rightarrow> Inl e | Inr x \<Rightarrow> Inr (f x))"

section \<open>TLS parameters\<close>

text \<open>definition/types.go: \<^verbatim>\<open>TLSMode\<close> and \<^verbatim>\<open>IssuerKind\<close> are strings; any text can come in.\<close>

definition TLSModePrefer :: string where "TLSModePrefer = ''preferTLS''"
definition TLSModeRequire :: string where "TLSModeRequire = ''requireTLS''"
definition TLSModeDisabled :: string where "TLSModeDisabled = ''disabled''"
definition IssuerKindIssuer :: string where "IssuerKindIssuer = ''Issuer''"
definition IssuerKindClusterIssuer :: string where "IssuerKindClusterIssuer = ''ClusterIssuer''"

lemmas tls_consts = TLSModePrefer_def TLSModeRequire_def TLSModeDisabled_def IssuerKindIssuer_def
  IssuerKindClusterIssuer_def

record issuerReference =
  ir_Name :: string
  ir_Kind :: string

record tlsParameters =
  tp_Mode :: string
  tp_CertificateSecretName :: string
  tp_InternalCertificateSecretName :: string
  tp_Issuer :: "issuerReference option"

definition zeroTLS :: tlsParameters where
  "zeroTLS = \<lparr>tp_Mode = '''', tp_CertificateSecretName = '''',
     tp_InternalCertificateSecretName = '''', tp_Issuer = None\<rparr>"

definition issuerFields :: "issuerReference field list" where
  "issuerFields =
     [(''name'', \<lambda>j s. mapRight (\<lambda>v. s\<lparr>ir_Name := v\<rparr>) (decodeString j (ir_Name s))),
      (''kind'', \<lambda>j s. mapRight (\<lambda>v. s\<lparr>ir_Kind := v\<rparr>) (decodeString j (ir_Kind s)))]"

definition tlsFields :: "tlsParameters field list" where
  "tlsFields =
     [(''mode'', \<lambda>j s. mapRight (\<lambda>v. s\<lparr>tp_Mode := v\<rparr>) (decodeString j (tp_Mode s))),
      (''certificateSecretName'', \<lambda>j s. mapRight (\<lambda>v. s\<lparr>tp_CertificateSecretName := v\<rparr>)
         (decodeString j (tp_CertificateSecretName s))),
      (''internalCertificateSecretName'', \<lambda>j s. mapRight (\<lambda>v. s\<lparr>tp_InternalCertificateSecretName := v\<rparr>)
         (decodeString j (tp_InternalCertificateSecretName s))),
      (''issuer'', \<lambda>j s. mapRight (\<lambda>v. s\<lparr>tp_Issuer := v\<rparr>)
         (decodePointer issuerFields \<lparr>ir_Name = '''', ir_Kind = ''''\<rparr> j (tp_Issuer s)))]"

text \<open>\<^verbatim>\<open>definition.Parameters\<close>: its one field, the pointer \<^verbatim>\<open>TLS\<close>.\<close>

definition parametersFields :: "tlsParameters option field list" where
  "parametersFields = [(''tls'', \<lambda>j s. decodePointer tlsFields zeroTLS j s)]"

text \<open>The defaults of \<^verbatim>\<open>instanceTLSParameters\<close>.\<close>

definition tlsDefaults :: "tlsParameters option \<Rightarrow> tlsParameters" where
  "tlsDefaults params =
     (let t0 = (case params of None \<Rightarrow> zeroTLS | Some t \<Rightarrow> t);
          t1 = (if tp_Mode t0 = '''' then t0\<lparr>tp_Mode := TLSModePrefer\<rparr> else t0);
          t2 = (case tp_Issuer t1 of
                  None \<Rightarrow> t1
                | Some i \<Rightarrow> if ir_Name i = '''' then t1\<lparr>tp_Issuer := None\<rparr> else t1)
      in case tp_Issuer t2 of
           None \<Rightarrow> t2
         | Some i \<Rightarrow> if ir_Kind i = '''' then t2\<lparr>tp_Issuer := Some (i\<lparr>ir_Kind := IssuerKindIssuer\<rparr>)\<rparr> else t2)"

definition instanceTLSParameters :: "lib \<Rightarrow> instance_t \<Rightarrow> go_error + tlsParameters" where
  "instanceTLSParameters L i =
     (case in_Parameters i of
        None \<Rightarrow> Inr (tlsDefaults None)
      | Some raw \<Rightarrow>
          (if raw = '''' then Inr (tlsDefaults None)
           else case lib_jsonParse L raw of
                  Inl e \<Rightarrow> Inl (Wrap ''decode parameters'' e)
                | Inr j \<Rightarrow> (case decodeStruct parametersFields j None of
                    Inl e \<Rightarrow> Inl (Wrap ''decode parameters'' e)
                  | Inr params \<Rightarrow> Inr (tlsDefaults params))))"

definition tlsParametersOf :: "lib \<Rightarrow> ctx \<Rightarrow> go_error + tlsParameters" where
  "tlsParametersOf L c = instanceTLSParameters L (c_Instance c)"

definition tlsEnabled :: "string \<Rightarrow> bool" where
  "tlsEnabled mode \<longleftrightarrow> mode \<noteq> TLSModeDisabled"

definition clientCertificateSecretName :: "ctx \<Rightarrow> tlsParameters \<Rightarrow> string" where
  "clientCertificateSecretName c tls =
     (if tp_CertificateSecretName tls \<noteq> '''' then tp_CertificateSecretName tls else c_Name c @ ''-ssl'')"

definition internalCertificateSecretName :: "ctx \<Rightarrow> tlsParameters \<Rightarrow> string" where
  "internalCertificateSecretName c tls =
     (if tp_InternalCertificateSecretName tls \<noteq> '''' then tp_InternalCertificateSecretName tls
      else c_Name c @ ''-ssl-internal'')"

section \<open>The certificate source\<close>

definition certManagerGroup :: string where
  "certManagerGroup = ''cert-manager.io''"

definition caKey :: string where
  "caKey = ''ca.crt''"

text \<open>\<^verbatim>\<open>cmapi.CertificateNameKey\<close>, the annotation cert-manager puts on the secrets it issues.\<close>

definition CertificateNameKey :: string where
  "CertificateNameKey = ''cert-manager.io/certificate-name''"

definition configureTLS :: "psmdb \<Rightarrow> tlsParameters \<Rightarrow> bool \<Rightarrow> psmdb" where
  "configureTLS cr tls keep =
     (let spec0 = \<lparr>tls_SpecMode = tp_Mode tls,
                   tls_IssuerConf = \<lparr>iss_Name = '''', iss_Kind = '''', iss_Group = ''''\<rparr>,
                   tls_CertManagementPolicy = PolicyDefault\<rparr>;
          spec1 = (case tp_Issuer tls of
                     None \<Rightarrow> spec0
                   | Some i \<Rightarrow> spec0\<lparr>tls_IssuerConf :=
                       \<lparr>iss_Name = ir_Name i, iss_Kind = ir_Kind i, iss_Group = certManagerGroup\<rparr>\<rparr>);
          spec2 = (if tp_CertificateSecretName tls \<noteq> '''' \<or> keep
                   then spec1\<lparr>tls_CertManagementPolicy := CertManagementUserProvidedOnly\<rparr> else spec1)
      in cr\<lparr>cr_Spec := (cr_Spec cr)\<lparr>ps_TLS := Some spec2\<rparr>\<rparr>)"

definition keepCertificates :: "env \<Rightarrow> ctx \<Rightarrow> tlsParameters \<Rightarrow> bool act" where
  "keepCertificates E c tls =
     (if tp_CertificateSecretName tls \<noteq> '''' then returnIO True
      else if \<not> tlsEnabled (tp_Mode tls) \<or> tp_Issuer tls \<noteq> None then returnIO False
      else handleIO (getSecret E (clientCertificateSecretName c tls)) (\<lambda>r. case r of
             Inl e \<Rightarrow> if isNotFound e then returnIO False
                      else failIO (Wrap ''get certificate secret'' e)
           | Inr sec \<Rightarrow> returnIO (sec_Annotations sec CertificateNameKey = None)))"

section \<open>Clients without certificates\<close>

definition yamlSet :: "string \<Rightarrow> yaml \<Rightarrow> yamlMap \<Rightarrow> yamlMap" where
  "yamlSet k v m = AList.update k v m"

text \<open>The map under a key: \<^verbatim>\<open>m[k].(map[string]any)\<close>.\<close>

definition subMap :: "yamlMap \<Rightarrow> string \<Rightarrow> yamlMap option" where
  "subMap m k = (case map_of m k of Some (YMap sub) \<Rightarrow> Some sub | _ \<Rightarrow> None)"

definition allowKey :: string where
  "allowKey = ''allowConnectionsWithoutCertificates''"

definition withClientCertificatesOptional :: "lib \<Rightarrow> string \<Rightarrow> go_error + string" where
  "withClientCertificatesOptional L configuration =
     (case lib_yamlUnmarshal L configuration of
        Inl _ \<Rightarrow> Inr configuration
      | Inr conf \<Rightarrow>
          (if subMap conf ''net'' = None \<and> map_of conf ''net'' \<noteq> None then Inr configuration
           else let net = (case subMap conf ''net'' of Some m \<Rightarrow> m | None \<Rightarrow> [])
           in if subMap net ''tls'' = None \<and> map_of net ''tls'' \<noteq> None then Inr configuration
           else let tls = (case subMap net ''tls'' of Some m \<Rightarrow> m | None \<Rightarrow> [])
           in if map_of tls allowKey \<noteq> None then Inr configuration
           else case lib_yamlMarshal L (yamlSet ''net'' (YMap (yamlSet ''tls''
                       (YMap (yamlSet allowKey (YBool True) tls)) net)) conf) of
                  Inl e \<Rightarrow> Inl (Wrap ''render configuration'' e)
                | Inr out \<Rightarrow> Inr out))"

text \<open>Whether a configuration sets the option, the check of \<^verbatim>\<open>acceptsClientsWithoutCertificates\<close>.\<close>

definition setsAllow :: "lib \<Rightarrow> string \<Rightarrow> bool" where
  "setsAllow L configuration =
     (case lib_yamlUnmarshal L configuration of
        Inl _ \<Rightarrow> False
      | Inr conf \<Rightarrow>
          (let net = (case subMap conf ''net'' of Some m \<Rightarrow> m | None \<Rightarrow> []);
               tls = (case subMap net ''tls'' of Some m \<Rightarrow> m | None \<Rightarrow> [])
           in map_of tls allowKey \<noteq> None))"

definition acceptsClientsWithoutCertificates :: "lib \<Rightarrow> psmdb \<Rightarrow> bool" where
  "acceptsClientsWithoutCertificates L cr =
     (case ps_Replsets (cr_Spec cr) of [] \<Rightarrow> False | rs # _ \<Rightarrow> setsAllow L (rs_Configuration rs))"

definition clientCertificateOptionalToken :: string where
  "clientCertificateOptionalToken = ''tls-clients-without-certificates''"

text \<open>The loop over the replica sets.\<close>

fun optionalReplsets :: "lib \<Rightarrow> replsetSpec list \<Rightarrow> go_error + replsetSpec list" where
  "optionalReplsets L [] = Inr []"
| "optionalReplsets L (rs # rss) =
     (case withClientCertificatesOptional L (rs_Configuration rs) of
        Inl e \<Rightarrow> Inl (Wrap (''replset '' @ rs_Name rs @ '' configuration'') e)
      | Inr conf \<Rightarrow> mapRight ((#) (rs\<lparr>rs_Configuration := conf\<rparr>)) (optionalReplsets L rss))"

definition makeCertificatesOptional :: "lib \<Rightarrow> psmdb \<Rightarrow> psmdb act" where
  "makeCertificatesOptional L cr =
     bindIO (liftIO (optionalReplsets L (ps_Replsets (cr_Spec cr)))) (\<lambda>rss.
       let cr1 = cr\<lparr>cr_Spec := (cr_Spec cr)\<lparr>ps_Replsets := rss\<rparr>\<rparr>
       in if \<not> sh_Enabled (ps_Sharding (cr_Spec cr)) then returnIO cr1
          else bindIO (derefIO (sh_Configsvr (ps_Sharding (cr_Spec cr)))) (\<lambda>cfg.
               bindIO (wrapIO ''config server configuration''
                 (liftIO (withClientCertificatesOptional L (rs_Configuration cfg)))) (\<lambda>cfgConf.
               bindIO (derefIO (sh_Mongos (ps_Sharding (cr_Spec cr)))) (\<lambda>mos.
               bindIO (wrapIO ''mongos configuration''
                 (liftIO (withClientCertificatesOptional L (mos_Configuration mos)))) (\<lambda>mosConf.
               returnIO (setSharding (cfg\<lparr>rs_Configuration := cfgConf\<rparr>)
                 (mos\<lparr>mos_Configuration := mosConf\<rparr>) cr1))))))"

definition acceptClientsWithoutCertificates :: "lib \<Rightarrow> env \<Rightarrow> ctx \<Rightarrow> tlsParameters \<Rightarrow> psmdb \<Rightarrow> psmdb act" where
  "acceptClientsWithoutCertificates L E c tls cr =
     (if \<not> tlsEnabled (tp_Mode tls) then returnIO cr
      else handleIO (getPSMDB E (c_Name c)) (\<lambda>r. case r of
        Inl e \<Rightarrow> if \<not> isNotFound e then failIO (Wrap ''fetching current PSMDB CR'' e)
                 else makeCertificatesOptional L cr
      | Inr current \<Rightarrow>
          (if acceptsClientsWithoutCertificates L current then makeCertificatesOptional L cr
           else bindIO (requestMaintenance E clientCertificateOptionalToken
                  ''Accept TLS clients without a client certificate (causes a brief rolling restart)'' MaintenanceRollingRestart)
                (\<lambda>approved. if \<not> approved then returnIO cr else makeCertificatesOptional L cr))))"

section \<open>What clients are told\<close>

definition tlsConnection :: "lib \<Rightarrow> env \<Rightarrow> ctx \<Rightarrow> (string \<times> bool) act" where
  "tlsConnection L E c =
     bindIO (liftIO (tlsParametersOf L c)) (\<lambda>tls.
       if \<not> tlsEnabled (tp_Mode tls) then returnIO ('''', False)
       else handleIO (getSecret E (clientCertificateSecretName c tls)) (\<lambda>r. case r of
         Inl e \<Rightarrow> if isNotFound e then returnIO ('''', tp_Mode tls = TLSModeRequire)
                  else failIO (Wrap ''get certificate secret'' e)
       | Inr sec \<Rightarrow> returnIO ((case sec_Data sec caKey of None \<Rightarrow> '''' | Some ca \<Rightarrow> ca),
                              tp_Mode tls = TLSModeRequire)))"

section \<open>Lemmas\<close>

text \<open>Decoding a document fails with an error, never with a panic.\<close>

lemma calmAnswer_simps [simp]:
  "calmAnswer (Inr x)" "calmAnswer (Inl e) = (\<not> isPanic e)" "calmAnswer (mapRight f r) = calmAnswer r"
  by (auto simp: calmAnswer_def mapRight_def split: sum.splits)

definition calmFields :: "'s field list \<Rightarrow> bool" where
  "calmFields fs \<longleftrightarrow> (\<forall>f \<in> set fs. \<forall>j s. calmAnswer (snd f j s))"

lemma calmFields_find:
  assumes "calmFields fs" "findField fs key = Some f"
  shows "calmAnswer (snd f j s)"
proof -
  have "f \<in> set fs"
    using assms(2) by (auto simp: findField_def find_Some_iff split: option.splits)
  with assms(1) show ?thesis by (simp add: calmFields_def)
qed

lemma calm_decodeFields: "calmFields fs \<Longrightarrow> calmAnswer (decodeFields fs kvs s)"
proof (induction fs kvs s rule: decodeFields.induct)
  case (2 fs key v kvs s)
  show ?case
  proof (cases "findField fs key")
    case (Some f)
    with 2 calmFields_find [OF "2.prems" Some, of v s] show ?thesis by (auto split: sum.splits)
  qed (use 2 in simp)
qed simp

lemma calm_decodeStruct: "calmFields fs \<Longrightarrow> calmAnswer (decodeStruct fs j s)"
  by (cases j) (simp_all add: decodeStruct_def typeError_def calm_decodeFields)

lemma calm_decodeString [simp]: "calmAnswer (decodeString j old)"
  by (cases j) (simp_all add: decodeString_def typeError_def)

lemma calm_decodePointer: "calmFields fs \<Longrightarrow> calmAnswer (decodePointer fs zero j old)"
  using calm_decodeStruct [of fs j "case old of None \<Rightarrow> zero | Some s \<Rightarrow> s"]
  by (cases j) (auto simp: decodePointer_def split: sum.splits)

lemma calm_parametersFields: "calmFields parametersFields"
proof -
  have "calmFields issuerFields" by (simp add: calmFields_def issuerFields_def)
  then have "calmFields tlsFields" by (simp add: calmFields_def tlsFields_def calm_decodePointer)
  then show ?thesis by (simp add: calmFields_def parametersFields_def calm_decodePointer)
qed

lemma instanceTLSParameters_no_panic:
  assumes "calmLib L" "instanceTLSParameters L i = Inl e"
  shows "\<not> isPanic e"
proof -
  have json: "calmAnswer (lib_jsonParse L raw)" for raw using assms(1) by (simp add: calmLib_def)
  show ?thesis
    using assms(2) calmAnswerD [OF json] calmAnswerD [OF calm_decodeStruct [OF calm_parametersFields]]
    by (auto simp: instanceTLSParameters_def split: option.splits if_splits sum.splits)
qed

lemma tlsDefaults_complete:
  "tp_Mode (tlsDefaults p) \<noteq> ''''"
  "tp_Issuer (tlsDefaults p) = Some i \<Longrightarrow> ir_Name i \<noteq> '''' \<and> ir_Kind i \<noteq> ''''"
  by (auto simp: tlsDefaults_def Let_def zeroTLS_def tls_consts split: option.splits if_splits)

lemma instanceTLSParameters_defaults:
  "instanceTLSParameters L i = Inr t \<Longrightarrow> \<exists>p. t = tlsDefaults p"
  by (auto simp: instanceTLSParameters_def split: option.splits if_splits sum.splits)

lemma instanceTLSParameters_complete:
  assumes "instanceTLSParameters L i = Inr t"
  shows "tp_Mode t \<noteq> ''''" "tp_Issuer t = Some is \<Longrightarrow> ir_Name is \<noteq> '''' \<and> ir_Kind is \<noteq> ''''"
  using instanceTLSParameters_defaults [OF assms] tlsDefaults_complete by blast+

lemma readOnly_keepCertificates [read_only_intros]: "readOnly (keepCertificates E c tls)"
  by (auto simp: keepCertificates_def intro!: emits_handle read_only_intros split: sum.splits)

lemma readOnly_tlsConnection [read_only_intros]: "readOnly (tlsConnection L E c)"
  by (auto simp: tlsConnection_def intro!: emits_bind emits_handle read_only_intros split: sum.splits)

text \<open>The value at a path of a document; a mapping is seen only as being one.\<close>

fun yamlAt :: "yamlMap \<Rightarrow> string list \<Rightarrow> yaml option" where
  "yamlAt m [] = None"
| "yamlAt m [k] = (case map_of m k of Some (YMap _) \<Rightarrow> Some (YMap []) | v \<Rightarrow> v)"
| "yamlAt m (k # ks) = (case map_of m k of Some (YMap sub) \<Rightarrow> yamlAt sub ks | _ \<Rightarrow> None)"

definition allowPath :: "string list" where
  "allowPath = [''net'', ''tls'', allowKey]"

lemma map_of_yamlSet [simp]: "map_of (yamlSet k v m) j = (if j = k then Some v else map_of m j)"
  by (simp add: yamlSet_def update_conv)

lemma yamlAt_yamlSet_other: "hd p \<noteq> k \<Longrightarrow> yamlAt (yamlSet k v m) p = yamlAt m p"
  by (cases "(m, p)" rule: yamlAt.cases) simp_all

lemma yamlAt_yamlSet_map:
  assumes "subMap m k = Some old \<or> (map_of m k = None \<and> old = [])" "p \<noteq> [k]"
    and "\<And>q. p = k # q \<Longrightarrow> yamlAt new q = yamlAt old q"
  shows "yamlAt (yamlSet k (YMap new) m) p = yamlAt m p"
proof (cases "hd p = k")
  case False
  then show ?thesis by (simp add: yamlAt_yamlSet_other)
next
  case True
  have empty: "yamlAt [] q = None" for q
    by (cases "([] :: yamlMap, q)" rule: yamlAt.cases) simp_all
  show ?thesis
    using assms True empty
    by (cases "(m, p)" rule: yamlAt.cases) (auto simp: subMap_def split: option.splits yaml.splits)
qed

lemma yamlAt_yamlSet_bool:
  "map_of m k = None \<Longrightarrow> p \<noteq> [k] \<Longrightarrow> yamlAt (yamlSet k (YBool b) m) p = yamlAt m p"
  by (cases "(m, p)" rule: yamlAt.cases) auto

lemma subMap_yamlAt: "subMap m k = Some s \<Longrightarrow> q \<noteq> [] \<Longrightarrow> yamlAt m (k # q) = yamlAt s q"
  by (cases q) (auto simp: subMap_def split: option.splits yaml.splits)

lemma yamlAt_Some_subMap:
  "yamlAt m (k # j # q) = Some v \<Longrightarrow> \<exists>s. subMap m k = Some s \<and> yamlAt s (j # q) = Some v"
  by (auto simp: subMap_def split: option.splits yaml.splits)

lemma withClientCertificatesOptional_set:
  assumes "lib_yamlUnmarshal L conf = Inr m" "yamlAt m allowPath = Some (YBool True)"
  shows "withClientCertificatesOptional L conf = Inr conf"
proof -
  obtain net where net: "subMap m ''net'' = Some net" "yamlAt net [''tls'', allowKey] = Some (YBool True)"
    using yamlAt_Some_subMap assms(2) unfolding allowPath_def by blast
  obtain tls where tls: "subMap net ''tls'' = Some tls" "yamlAt tls [allowKey] = Some (YBool True)"
    using yamlAt_Some_subMap net(2) by blast
  then have "map_of tls allowKey \<noteq> None" by (auto split: option.splits)
  with assms net tls show ?thesis
    by (simp add: withClientCertificatesOptional_def)
qed

text \<open>What the rendered document holds when the option is added.\<close>

definition allowing :: "yamlMap \<Rightarrow> yamlMap \<Rightarrow> yamlMap \<Rightarrow> yamlMap" where
  "allowing m net tls = yamlSet ''net'' (YMap (yamlSet ''tls'' (YMap (yamlSet allowKey (YBool True) tls)) net)) m"

lemma allowing_at:
  assumes net: "subMap m ''net'' = Some net \<or> (map_of m ''net'' = None \<and> net = [])"
    and tls: "subMap net ''tls'' = Some tls \<or> (map_of net ''tls'' = None \<and> tls = [])"
    and unset: "map_of tls allowKey = None"
  shows "yamlAt (allowing m net tls) allowPath = Some (YBool True)"
    and "\<not> prefix p allowPath \<Longrightarrow> yamlAt (allowing m net tls) p = yamlAt m p"
proof -
  show "yamlAt (allowing m net tls) allowPath = Some (YBool True)"
    by (simp add: allowing_def allowPath_def)
  assume p: "\<not> prefix p allowPath"
  show "yamlAt (allowing m net tls) p = yamlAt m p"
    unfolding allowing_def
  proof (rule yamlAt_yamlSet_map [OF net])
    fix q assume q: "p = ''net'' # q"
    show "yamlAt (yamlSet ''tls'' (YMap (yamlSet allowKey (YBool True) tls)) net) q = yamlAt net q"
    proof (rule yamlAt_yamlSet_map [OF tls])
      fix r assume r: "q = ''tls'' # r"
      show "yamlAt (yamlSet allowKey (YBool True) tls) r = yamlAt tls r"
        using p q r by (intro yamlAt_yamlSet_bool [OF unset]) (auto simp: allowPath_def)
    qed (use p q in \<open>auto simp: allowPath_def\<close>)
  qed (use p in \<open>auto simp: allowPath_def\<close>)
qed

lemma withClientCertificatesOptional_cases:
  assumes "withClientCertificatesOptional L conf = Inr out"
  obtains "out = conf"
  | m net tls where "lib_yamlUnmarshal L conf = Inr m" "yamlAt m allowPath = None"
      "subMap m ''net'' = Some net \<or> (map_of m ''net'' = None \<and> net = [])"
      "subMap net ''tls'' = Some tls \<or> (map_of net ''tls'' = None \<and> tls = [])"
      "map_of tls allowKey = None" "lib_yamlMarshal L (allowing m net tls) = Inr out"
proof (cases "lib_yamlUnmarshal L conf")
  case (Inl e)
  with assms that show ?thesis by (simp add: withClientCertificatesOptional_def)
next
  case (Inr m)
  let ?net = "case subMap m ''net'' of Some n \<Rightarrow> n | None \<Rightarrow> []"
  let ?tls = "case subMap ?net ''tls'' of Some n \<Rightarrow> n | None \<Rightarrow> []"
  show ?thesis
  proof (cases "out = conf")
    case False
    with assms Inr have
      n: "subMap m ''net'' = Some ?net \<or> (map_of m ''net'' = None \<and> ?net = [])" and
      t: "subMap ?net ''tls'' = Some ?tls \<or> (map_of ?net ''tls'' = None \<and> ?tls = [])" and
      a: "map_of ?tls allowKey = None" and o: "lib_yamlMarshal L (allowing m ?net ?tls) = Inr out"
      by (auto simp: withClientCertificatesOptional_def allowing_def Let_def
          split: if_splits option.splits sum.splits)
    have "yamlAt m allowPath = None"
      using n t a by (auto simp: allowPath_def subMap_def split: option.splits yaml.splits)
    with Inr n t a o that(2) show ?thesis by blast
  qed (rule that(1))
qed

text \<open>At a path there is a mapping or nothing.\<close>

definition mapOrAbsent :: "yamlMap \<Rightarrow> string list \<Rightarrow> bool" where
  "mapOrAbsent m p \<longleftrightarrow> yamlAt m p = None \<or> yamlAt m p = Some (YMap [])"

lemma allowPath_literal: "allowPath = [''net'', ''tls'', ''allowConnectionsWithoutCertificates'']"
  by (simp add: allowPath_def allowKey_def)

lemma setsAllow_yamlAt: "setsAllow L conf \<longleftrightarrow> (\<exists>m. lib_yamlUnmarshal L conf = Inr m \<and> yamlAt m allowPath \<noteq> None)"
  by (auto simp: setsAllow_def allowPath_def subMap_def Let_def split: sum.splits option.splits yaml.splits)

lemma withClientCertificatesOptional_kept:
  assumes "lib_yamlUnmarshal L conf = Inr m"
    and "\<not> (mapOrAbsent m [''net''] \<and> mapOrAbsent m [''net'', ''tls''] \<and> yamlAt m allowPath = None)"
  shows "withClientCertificatesOptional L conf = Inr conf"
  using assms
  by (auto simp: withClientCertificatesOptional_def mapOrAbsent_def allowPath_def subMap_def Let_def split: option.splits yaml.splits)

lemma withClientCertificatesOptional_added:
  assumes "lib_yamlUnmarshal L conf = Inr m" "withClientCertificatesOptional L conf = Inr out"
    and "mapOrAbsent m [''net''] \<and> mapOrAbsent m [''net'', ''tls''] \<and> yamlAt m allowPath = None"
  obtains net tls where "subMap m ''net'' = Some net \<or> (map_of m ''net'' = None \<and> net = [])"
    "subMap net ''tls'' = Some tls \<or> (map_of net ''tls'' = None \<and> tls = [])"
    "map_of tls allowKey = None" "lib_yamlMarshal L (allowing m net tls) = Inr out"
proof -
  let ?net = "case subMap m ''net'' of Some n \<Rightarrow> n | None \<Rightarrow> []"
  let ?tls = "case subMap ?net ''tls'' of Some n \<Rightarrow> n | None \<Rightarrow> []"
  have n: "subMap m ''net'' = Some ?net \<or> (map_of m ''net'' = None \<and> ?net = [])"
    and t: "subMap ?net ''tls'' = Some ?tls \<or> (map_of ?net ''tls'' = None \<and> ?tls = [])"
    and a: "map_of ?tls allowKey = None"
    using assms(3) by (auto simp: mapOrAbsent_def allowPath_def subMap_def split: option.splits yaml.splits)
  moreover have "lib_yamlMarshal L (allowing m ?net ?tls) = Inr out"
    using assms(1,2) n t a
    by (cases "subMap m ''net''"; cases "subMap ?net ''tls''")
      (auto simp: withClientCertificatesOptional_def allowing_def subMap_def split: sum.splits)
  ultimately show thesis by (rule that)
qed

text \<open>Adding the option changes configurations only, so it keeps the members.\<close>

lemma rsShape_Configuration [simp]: "rsShape (rs\<lparr>rs_Configuration := conf\<rparr>) = rsShape rs"
  by (simp add: rsShape_def)

lemma optionalReplsets_shape: "optionalReplsets L rss = Inr rss' \<Longrightarrow> map rsShape rss' = map rsShape rss"
  by (induction rss arbitrary: rss') (auto simp: mapRight_def split: sum.splits)

lemma makeCertificatesOptional_members:
  assumes "makeCertificatesOptional L cr h = (Inr cr', h')"
  shows "members cr' = members cr"
proof -
  obtain rss where rss: "optionalReplsets L (ps_Replsets (cr_Spec cr)) = Inr rss"
    using assms by (auto simp: makeCertificatesOptional_def io_simps)
  then have shapes: "map rsShape rss = map rsShape (ps_Replsets (cr_Spec cr))"
    by (rule optionalReplsets_shape)
  then show ?thesis
    using assms rss
    by (cases "sh_Configsvr (ps_Sharding (cr_Spec cr))"; cases "sh_Mongos (ps_Sharding (cr_Spec cr))")
      (auto simp: makeCertificatesOptional_def Let_def io_simps members_def split: if_splits)
qed

interpretation tls_clients: spec_stage "acceptClientsWithoutCertificates L E c tls" for L E c tls
proof unfold_locales
  fix cr h cr' h'
  assume "acceptClientsWithoutCertificates L E c tls cr h = (Inr cr', h')"
  then show "members cr' = members cr"
    by (auto simp: acceptClientsWithoutCertificates_def handleIO_def io_simps call_defs
        dest: makeCertificatesOptional_members split: if_splits sum.splits prod.splits)
qed

lemma emits_makeCertificatesOptional: "emits P (makeCertificatesOptional L cr)"
  by (auto simp: makeCertificatesOptional_def Let_def intro!: emits_bind emits_wrap)

lemma makeCertificatesOptional_h: "makeCertificatesOptional L cr h = (r, h') \<Longrightarrow> h' = h"
  using emitsD [OF emits_makeCertificatesOptional [where P = "\<lambda>c. False"]] by (auto simp: list_all_iff)

section \<open>Properties\<close>

text \<open>C34. Making client certificates optional is precise. A configuration that does not parse as a mapping, that has something else
  where \<^verbatim>\<open>net\<close> or \<^verbatim>\<open>net.tls\<close> should be, or that sets \<^verbatim>\<open>net.tls.allowConnectionsWithoutCertificates\<close> to whatever value is
  returned as it is; every other one is returned with that option true and every setting off its path as before, for a YAML library
  whose rendering parses back to the same settings. Running it again changes nothing more.\<close>

theorem client_certificate_option_added:
  assumes yaml: "\<And>m s. lib_yamlMarshal L m = Inr s \<Longrightarrow>
      \<exists>m'. lib_yamlUnmarshal L s = Inr m' \<and> (\<forall>p. yamlAt m' p = yamlAt m p)"
    and out: "withClientCertificatesOptional L conf = Inr out"
  shows "(case lib_yamlUnmarshal L conf of
       Inl e \<Rightarrow> out = conf
     | Inr m \<Rightarrow>
         (if mapOrAbsent m [''net''] \<and> mapOrAbsent m [''net'', ''tls''] \<and>
             yamlAt m [''net'', ''tls'', ''allowConnectionsWithoutCertificates''] = None
          then \<exists>m'. lib_yamlUnmarshal L out = Inr m' \<and>
            yamlAt m' [''net'', ''tls'', ''allowConnectionsWithoutCertificates''] = Some (YBool True) \<and>
            (\<forall>p. \<not> prefix p [''net'', ''tls'', ''allowConnectionsWithoutCertificates''] \<longrightarrow> yamlAt m' p = yamlAt m p)
          else out = conf)) \<and>
    withClientCertificatesOptional L out = Inr out"
proof (cases "lib_yamlUnmarshal L conf")
  case (Inl e)
  with out show ?thesis by (simp add: withClientCertificatesOptional_def)
next
  case (Inr m)
  note path = allowPath_literal [symmetric]
  show ?thesis
  proof (cases "mapOrAbsent m [''net''] \<and> mapOrAbsent m [''net'', ''tls''] \<and> yamlAt m allowPath = None")
    case False
    then have "withClientCertificatesOptional L conf = Inr conf" by (rule withClientCertificatesOptional_kept [OF Inr])
    with out Inr False show ?thesis unfolding path by auto
  next
    case True
    obtain net tls where added: "subMap m ''net'' = Some net \<or> (map_of m ''net'' = None \<and> net = [])"
      "subMap net ''tls'' = Some tls \<or> (map_of net ''tls'' = None \<and> tls = [])"
      "map_of tls allowKey = None" "lib_yamlMarshal L (allowing m net tls) = Inr out"
      by (rule withClientCertificatesOptional_added [OF Inr out True])
    obtain m' where m': "lib_yamlUnmarshal L out = Inr m'" "\<forall>p. yamlAt m' p = yamlAt (allowing m net tls) p"
      using yaml [OF added(4)] by blast
    have at: "yamlAt m' allowPath = Some (YBool True)" "\<forall>p. \<not> prefix p allowPath \<longrightarrow> yamlAt m' p = yamlAt m p"
      using m'(2) allowing_at [OF added(1-3)] by simp_all
    then have "withClientCertificatesOptional L out = Inr out" using withClientCertificatesOptional_set m'(1) by blast
    with Inr True m'(1) at show ?thesis unfolding path by auto
  qed
qed

text \<open>C23. No restart behind the users' back: when \<^verbatim>\<open>acceptClientsWithoutCertificates\<close> changes the CR it is about to apply, TLS is
  on and no member is added or removed; and either the cluster does not exist yet, or the maintenance was asked for, as a
  rolling restart, and approved, or the first replica set of the running CR sets the option already, to whatever value. In that last
  case nothing is asked, even if the config servers or routers do not have the option yet.\<close>

theorem tls_restart_needs_approval:
  assumes run: "acceptClientsWithoutCertificates L E c tls cr h = (Inr cr', h')" and changed: "cr' \<noteq> cr"
  shows "tp_Mode tls \<noteq> ''disabled'' \<and> members cr' = members cr \<and>
    (case env_psmdb E h (c_Name c) of
       Inl e \<Rightarrow> isNotFound e \<and> h' = h @ [Get KPSMDB (c_Name c)]
     | Inr current \<Rightarrow>
         (\<exists>rs rest m. ps_Replsets (cr_Spec current) = rs # rest \<and> lib_yamlUnmarshal L (rs_Configuration rs) = Inr m \<and>
            yamlAt m [''net'', ''tls'', ''allowConnectionsWithoutCertificates''] \<noteq> None \<and> h' = h @ [Get KPSMDB (c_Name c)]) \<or>
         (\<exists>token msg. env_maintenanceApproved E (h @ [Get KPSMDB (c_Name c)]) token \<and>
            h' = h @ [Get KPSMDB (c_Name c), RequestMaintenance token msg MaintenanceRollingRestart]))"
proof -
  have "\<exists>rs rest m. ps_Replsets (cr_Spec current) = rs # rest \<and> lib_yamlUnmarshal L (rs_Configuration rs) = Inr m \<and>
      yamlAt m allowPath \<noteq> None" if "acceptsClientsWithoutCertificates L current" for current
    using that setsAllow_yamlAt by (auto simp: acceptsClientsWithoutCertificates_def split: list.splits)
  then show ?thesis
    using run changed tls_clients.keeps_members [OF run] unfolding allowPath_literal [symmetric]
    by (auto simp: acceptClientsWithoutCertificates_def handleIO_def io_simps call_defs tlsEnabled_def TLSModeDisabled_def
        dest: makeCertificatesOptional_h split: if_splits sum.splits prod.splits)
qed

text \<open>C36. The operator is told to leave the certificates alone exactly when it must: after
  \<^verbatim>\<open>keepCertificates\<close> and \<^verbatim>\<open>configureTLS\<close> the CR's policy is \<^verbatim>\<open>userProvidedOnly\<close> if and only if the user
  brings certificates, or TLS is on, no issuer is set, and the certificate secret exists without
  cert-manager's annotation. Nothing is written to find that out.\<close>

theorem certificates_kept_exactly:
  assumes "keepCertificates E c tls h = (Inr keep, h')"
  shows "(map_option tls_CertManagementPolicy (ps_TLS (cr_Spec (configureTLS cr tls keep))) =
       Some CertManagementUserProvidedOnly \<longleftrightarrow>
     (tp_CertificateSecretName tls \<noteq> '''' \<or>
      (tlsEnabled (tp_Mode tls) \<and> tp_Issuer tls = None \<and>
       (\<exists>sec. env_secret E h (c_Name c @ ''-ssl'') = Inr sec \<and>
          sec_Annotations sec CertificateNameKey = None)))) \<and> writes h' = writes h"
proof -
  have "writes h' = writes h"
    using readOnly_writes [OF readOnly_keepCertificates assms] .
  then show ?thesis
    using assms
    by (auto simp: configureTLS_def keepCertificates_def clientCertificateSecretName_def handleIO_def
        io_simps call_defs Let_def split: if_splits sum.splits prod.splits option.splits)
qed

section \<open>Witnesses\<close>

definition allowDocument :: yamlMap where
  "allowDocument = allowing [] [] []"

text \<open>A YAML library for the one document that holds the option.\<close>

definition optionLib :: lib where
  "optionLib = plainLib\<lparr>
     lib_yamlUnmarshal := (\<lambda>s. if s = ''allow'' then Inr allowDocument else Inr []),
     lib_yamlMarshal := (\<lambda>m. if m = allowDocument then Inr ''allow'' else Inl (Errorf ''unsupported''))\<rparr>"

lemma optionLib_yaml:
  "lib_yamlMarshal optionLib m = Inr s \<Longrightarrow>
     \<exists>m'. lib_yamlUnmarshal optionLib s = Inr m' \<and> (\<forall>p. yamlAt m' p = yamlAt m p)"
  by (auto simp: optionLib_def split: if_splits)

lemma optionLib_empty: "withClientCertificatesOptional optionLib '''' = Inr ''allow''"
  by (simp add: withClientCertificatesOptional_def optionLib_def subMap_def allowDocument_def allowing_def)

theorem client_certificate_option_added_witness:
  "\<exists>m'. withClientCertificatesOptional optionLib '''' = Inr ''allow'' \<and> lib_yamlUnmarshal optionLib ''allow'' = Inr m' \<and>
     yamlAt m' [''net'', ''tls'', ''allowConnectionsWithoutCertificates''] = Some (YBool True) \<and>
     withClientCertificatesOptional optionLib ''allow'' = Inr ''allow''"
proof -
  have "lib_yamlUnmarshal optionLib '''' = Inr []" by (simp add: optionLib_def)
  moreover have "mapOrAbsent [] p" "yamlAt [] p = None" for p
    by (cases "([] :: yamlMap, p)" rule: yamlAt.cases; simp add: mapOrAbsent_def)+
  ultimately show ?thesis
    using client_certificate_option_added [OF optionLib_yaml optionLib_empty] optionLib_empty by auto
qed

definition preferTLS :: tlsParameters where
  "preferTLS = zeroTLS\<lparr>tp_Mode := TLSModePrefer\<rparr>"

definition oneReplsetCR :: psmdb where
  "oneReplsetCR = zeroPSMDB\<lparr>cr_Spec := zeroPSMDBSpec\<lparr>ps_Replsets := [plainReplset\<lparr>rs_Configuration := ''''\<rparr>]\<rparr>\<rparr>"

definition allowedCR :: psmdb where
  "allowedCR = zeroPSMDB\<lparr>cr_Spec := zeroPSMDBSpec\<lparr>ps_Replsets := [plainReplset\<lparr>rs_Configuration := ''allow''\<rparr>]\<rparr>\<rparr>"

text \<open>A running cluster whose maintenance is approved.\<close>

definition approvingCluster :: env where
  "approvingCluster = emptyCluster\<lparr>env_psmdb := \<lambda>h n. Inr oneReplsetCR, env_maintenanceApproved := \<lambda>h t. True\<rparr>"

lemma approved_cluster_allows:
  "\<exists>h'. acceptClientsWithoutCertificates optionLib approvingCluster bareCtx preferTLS oneReplsetCR [] = (Inr allowedCR, h')"
proof -
  have "\<not> acceptsClientsWithoutCertificates optionLib oneReplsetCR"
    by (simp add: acceptsClientsWithoutCertificates_def setsAllow_def optionLib_def subMap_def oneReplsetCR_def)
  then show ?thesis
    by (simp add: acceptClientsWithoutCertificates_def makeCertificatesOptional_def optionLib_empty approvingCluster_def
        oneReplsetCR_def allowedCR_def preferTLS_def tlsEnabled_def tls_consts zeroTLS_def sample_defs
        call_defs io_defs mapRight_def zeroPSMDBSpec_def zeroPSMDB_def zeroSharding_def)
qed

theorem tls_restart_needs_approval_witness:
  "\<exists>h' token msg. acceptClientsWithoutCertificates optionLib approvingCluster bareCtx preferTLS oneReplsetCR [] = (Inr allowedCR, h') \<and>
     allowedCR \<noteq> oneReplsetCR \<and> RequestMaintenance token msg MaintenanceRollingRestart \<in> set h'"
proof -
  have changed: "allowedCR \<noteq> oneReplsetCR"
    by (auto simp: allowedCR_def oneReplsetCR_def zeroPSMDB_def zeroPSMDBSpec_def
        dest: arg_cong [where f = rs_Configuration])
  obtain h' where run: "acceptClientsWithoutCertificates optionLib approvingCluster bareCtx preferTLS oneReplsetCR [] = (Inr allowedCR, h')"
    using approved_cluster_allows by blast
  have "env_psmdb approvingCluster [] (c_Name bareCtx) = Inr oneReplsetCR" by (simp add: approvingCluster_def)
  moreover have "yamlAt m [''net'', ''tls'', ''allowConnectionsWithoutCertificates''] = None"
    if "ps_Replsets (cr_Spec oneReplsetCR) = rs # rest" "lib_yamlUnmarshal optionLib (rs_Configuration rs) = Inr m" for rs rest m
    using that by (auto simp: oneReplsetCR_def optionLib_def)
  ultimately show ?thesis
    using tls_restart_needs_approval [OF run changed] run changed by auto
qed

theorem certificates_kept_exactly_witness:
  "map_option tls_CertManagementPolicy (ps_TLS (cr_Spec (configureTLS zeroPSMDB preferTLS False))) \<noteq>
     Some CertManagementUserProvidedOnly"
proof -
  have "keepCertificates emptyCluster bareCtx preferTLS [] = (Inr False, [Get KSecret ''my-mongo-ssl''])"
    by (simp add: keepCertificates_def preferTLS_def zeroTLS_def tlsEnabled_def tls_consts
        clientCertificateSecretName_def sample_defs call_defs io_defs)
  from certificates_kept_exactly [OF this, of zeroPSMDB] show ?thesis
    by (simp add: preferTLS_def zeroTLS_def sample_defs)
qed

end
