(* ===== verification/Validation.thy ===== *)
theory Validation
  imports TLS_Config
begin

text \<open>
  What the provider accepts (validate.go and the validation part of tls.go). \<^verbatim>\<open>Validate\<close> checks an
  Instance on its own; \<^verbatim>\<open>ValidateReferences\<close> reads the objects it refers to. Both return lists of
  field errors; an empty list accepts. A reported quantity is kept as the number whose text is
  reported.
\<close>

section \<open>Field errors\<close>

datatype pathElem = Child string | Key string

type_synonym path = "pathElem list"

datatype badValue = VString string | VInt int | VQuantity quantity

datatype fieldError =
    FRequired path string
  | FInvalid path badValue string
  | FNotFound path string
  | FForbidden path string
  | FNotSupported path string "string list"
  | FTooLong path string nat
  | FInternal path go_error

section \<open>Rules on the Instance alone\<close>

definition maxInstanceNameLength :: nat where
  "maxInstanceNameLength = 22"

definition maxVotingMembers :: int where
  "maxVotingMembers = 7"

definition minStorage :: quantity where
  "minStorage = qGi 1"

definition minCPU :: quantity where
  "minCPU = qMilli 600"

definition minMemory :: quantity where
  "minMemory = qMi 512"

text \<open>The minimum limits with the text of each minimum.\<close>

definition minLimits :: "(string \<times> quantity \<times> string) list" where
  "minLimits = [(ResourceCPU, minCPU, ''600m''), (ResourceMemory, minMemory, ''512Mi'')]"

definition isLower :: "char \<Rightarrow> bool" where
  "isLower ch \<longleftrightarrow> 97 \<le> (of_char ch :: nat) \<and> (of_char ch :: nat) \<le> 122"

definition isLowerAlnum :: "char \<Rightarrow> bool" where
  "isLowerAlnum ch \<longleftrightarrow> isLower ch \<or> isDigit ch"

definition isLabelChar :: "char \<Rightarrow> bool" where
  "isLabelChar ch \<longleftrightarrow> ch = CHR ''-'' \<or> isLowerAlnum ch"

text \<open>A match of \<^verbatim>\<open>^[a-z]([-a-z0-9]{0,61}[a-z0-9])?$\<close>.\<close>

fun rfc1035Match :: "string \<Rightarrow> bool" where
  "rfc1035Match [] = False"
| "rfc1035Match (first # rest) =
     (isLower first \<and>
      (rest = [] \<or> (length (butlast rest) \<le> 61 \<and> list_all isLabelChar (butlast rest) \<and>
                    isLowerAlnum (last rest))))"

definition supportedServiceTypes :: "string list" where
  "supportedServiceTypes = [ServiceTypeClusterIP, ServiceTypeLoadBalancer, ServiceTypeNodePort]"

definition componentsPath :: path where
  "componentsPath = [Child ''spec'', Child ''components'']"

definition validateName :: "string \<Rightarrow> fieldError list" where
  "validateName name =
     (let p = [Child ''metadata'', Child ''name'']
      in if name = '''' then [FRequired p '''']
         else if \<not> rfc1035Match name
         then [FInvalid p (VString name)
                ''must be RFC-1035 compliant (lowercase alphanumeric or '-', start with a letter and end with an alphanumeric)'']
         else if length name > maxInstanceNameLength then [FTooLong p name maxInstanceNameLength]
         else [])"

definition validateDataSource :: "instance_t \<Rightarrow> fieldError list" where
  "validateDataSource i =
     (let p = [Child ''spec'', Child ''dataSource'']
      in case in_DataSource i of
           None \<Rightarrow> []
         | Some ds \<Rightarrow>
             (case ds_Type ds of
                DataSourceTypeBackup \<Rightarrow>
                  (case ds_Backup ds of
                     None \<Rightarrow> [FRequired (p @ [Child ''backup'']) '''']
                   | Some name \<Rightarrow>
                       (if name = ''''
                        then [FRequired (p @ [Child ''backup'', Child ''backupRef'', Child ''name'']) '''']
                        else []))
              | DataSourceTypePointInTime \<Rightarrow>
                  (if in_UserSecretRef i \<noteq> None
                   then [FForbidden [Child ''spec'', Child ''userSecretRef'']
                     ''must not be set when seeding from an Instance; the credentials are inherited from the source Instance'']
                   else [])
              | DataSourceTypeOther _ \<Rightarrow> []))"

definition validateLimits :: "path \<Rightarrow> resourceRequirements option \<Rightarrow> fieldError list" where
  "validateLimits p resources =
     (case resources of
        None \<Rightarrow> [FRequired p '''']
      | Some r \<Rightarrow>
          (case rr_Limits r of
             None \<Rightarrow> [FRequired p '''']
           | Some limits \<Rightarrow>
               concat (map (\<lambda>(name, minimum, txt).
                 case limits name of
                   None \<Rightarrow> [FRequired (p @ [Key name]) (''must be at least '' @ txt)]
                 | Some v \<Rightarrow> (if v < minimum
                     then [FInvalid (p @ [Key name]) (VQuantity v) (''must be at least '' @ txt)] else []))
                 minLimits)))"

definition validateService :: "path \<Rightarrow> service option \<Rightarrow> fieldError list" where
  "validateService p svc =
     (case svc of
        None \<Rightarrow> []
      | Some s \<Rightarrow>
          (if svc_ServiceType s \<in> set supportedServiceTypes then []
           else [FNotSupported (p @ [Child ''service'', Child ''serviceType'']) (svc_ServiceType s)
                   supportedServiceTypes]))"

definition validateEngine :: "components \<Rightarrow> fieldError list" where
  "validateEngine comps =
     (let p = componentsPath @ [Key ComponentEngine]
      in case comps ComponentEngine of
           None \<Rightarrow> [FRequired p '''']
         | Some engine \<Rightarrow>
             (case comp_Replicas engine of
                None \<Rightarrow> [FRequired (p @ [Child ''replicas'']) '''']
              | Some n \<Rightarrow> (if i32 n < 1 \<or> i32 n mod 2 = 0
                  then [FInvalid (p @ [Child ''replicas'']) (VInt (i32 n)) ''must be a positive odd number'']
                  else [])) @
             (case comp_Storage engine of
                None \<Rightarrow> [FRequired (p @ [Child ''storage'']) '''']
              | Some st \<Rightarrow> (if st_Size st < minStorage
                  then [FInvalid (p @ [Child ''storage'', Child ''size'']) (VQuantity (st_Size st))
                          ''must be at least 1Gi'']
                  else [])) @
             validateLimits (p @ [Child ''resources'', Child ''limits'']) (comp_Resources engine) @
             validateService p (comp_Service engine))"

text \<open>The sum of the members is an \<^verbatim>\<open>int32\<close> sum, which wraps.\<close>

definition validateHidden :: "components \<Rightarrow> fieldError list" where
  "validateHidden comps =
     (case comps ComponentHidden of
        None \<Rightarrow> []
      | Some hidden \<Rightarrow>
          (case comp_Replicas hidden of
             None \<Rightarrow> []
           | Some h \<Rightarrow>
               (let p = componentsPath @ [Key ComponentHidden]
                in (case comp_Replicas (compAt comps ComponentEngine) of
                      None \<Rightarrow> []
                    | Some e \<Rightarrow>
                        (let voting = e + h
                         in if i32 voting > maxVotingMembers
                            then [FInvalid (p @ [Child ''replicas'']) (VInt (i32 h))
                              (''together with spec.components[engine].replicas must not exceed '' @
                               itoa maxVotingMembers @ '' voting members, got '' @ itoa (i32 voting))]
                            else [])) @
                   (case comp_Storage hidden of
                      None \<Rightarrow> []
                    | Some st \<Rightarrow>
                        (if st_Size st \<noteq> 0 \<and> st_Size st < minStorage
                         then [FInvalid (p @ [Child ''storage'', Child ''size'']) (VQuantity (st_Size st))
                                 ''must be at least 1Gi'']
                         else [])) @
                   (case comp_Resources hidden of
                      None \<Rightarrow> []
                    | Some r \<Rightarrow>
                        concat (map (\<lambda>(name, minimum, txt).
                          case rlGet (rr_Limits r) name of
                            None \<Rightarrow> []
                          | Some v \<Rightarrow> (if v \<noteq> 0 \<and> v < minimum
                              then [FInvalid (p @ [Child ''resources'', Child ''limits'', Key name])
                                      (VQuantity v) (''must be at least '' @ txt)]
                              else []))
                          minLimits)))))"

definition validateShardedTopology :: "components \<Rightarrow> fieldError list" where
  "validateShardedTopology comps =
     (let p = componentsPath @ [Key ComponentConfigServer, Child ''replicas'']
      in (case comp_Replicas (compAt comps ComponentConfigServer) of
            None \<Rightarrow> [FRequired p '''']
          | Some n \<Rightarrow>
              (if i32 n < 1 \<or> i32 n mod 2 = 0
               then [FInvalid p (VInt (i32 n)) ''must be a positive odd number'']
               else case comp_Replicas (compAt comps ComponentEngine) of
                      None \<Rightarrow> []
                    | Some e \<Rightarrow>
                        (if i32 e > 1 \<and> i32 n < 3
                         then [FInvalid p (VInt (i32 n))
                           ''must be at least 3 when spec.components[engine].replicas is greater than 1'']
                         else []))) @
         validateService (componentsPath @ [Key ComponentProxy])
           (comp_Service (compAt comps ComponentProxy)))"

section \<open>Rules on the TLS parameters\<close>

definition tlsModes :: "string list" where
  "tlsModes = [TLSModePrefer, TLSModeRequire, TLSModeDisabled]"

definition issuerKinds :: "string list" where
  "issuerKinds = [IssuerKindIssuer, IssuerKindClusterIssuer]"

definition tlsPath :: path where
  "tlsPath = [Child ''spec'', Child ''parameters'', Child ''tls'']"

definition validateTLS :: "lib \<Rightarrow> instance_t \<Rightarrow> fieldError list" where
  "validateTLS L i =
     (case instanceTLSParameters L i of
        Inl e \<Rightarrow> [FInternal [Child ''spec'', Child ''parameters''] e]
      | Inr tls \<Rightarrow>
          (let customCertificates = tp_CertificateSecretName tls \<noteq> '''' \<or>
                 tp_InternalCertificateSecretName tls \<noteq> ''''
           in (if tp_Mode tls \<notin> set tlsModes
               then [FNotSupported (tlsPath @ [Child ''mode'']) (tp_Mode tls) tlsModes] else []) @
              (case tp_Issuer tls of
                 None \<Rightarrow> []
               | Some is \<Rightarrow> (if ir_Kind is \<notin> set issuerKinds
                   then [FNotSupported (tlsPath @ [Child ''issuer'', Child ''kind'']) (ir_Kind is) issuerKinds]
                   else [])) @
              (if \<not> tlsEnabled (tp_Mode tls) \<and> (customCertificates \<or> tp_Issuer tls \<noteq> None)
               then [FForbidden tlsPath ''certificates and issuer apply only with TLS enabled'']
               else if tp_InternalCertificateSecretName tls \<noteq> '''' \<and> tp_CertificateSecretName tls = ''''
               then [FRequired (tlsPath @ [Child ''certificateSecretName''])
                       ''internalCertificateSecretName requires it'']
               else if tp_CertificateSecretName tls \<noteq> '''' \<and> tp_Issuer tls \<noteq> None
               then [FForbidden (tlsPath @ [Child ''issuer''])
                       ''use either certificate secrets or an issuer, not both'']
               else [])))"

definition issuerText :: "tlsParameters \<Rightarrow> string" where
  "issuerText tls = (case tp_Issuer tls of None \<Rightarrow> ''/'' | Some is \<Rightarrow> ir_Kind is @ ''/'' @ ir_Name is)"

definition certificateSource :: "tlsParameters \<Rightarrow> string" where
  "certificateSource tls = issuerText tls @ '' '' @ tp_CertificateSecretName tls @ '' '' @
     tp_InternalCertificateSecretName tls"

definition modeChangeError :: fieldError where
  "modeChangeError = FForbidden (tlsPath @ [Child ''mode''])
     ''TLS can't be turned on or off on an existing instance''"

definition sourceChangeError :: fieldError where
  "sourceChangeError = FForbidden tlsPath ''certificates and issuer can't change on an existing instance''"

definition validateTLSTransition :: "lib \<Rightarrow> instance_t \<Rightarrow> instance_t option \<Rightarrow> fieldError list" where
  "validateTLSTransition L i old =
     (case old of
        None \<Rightarrow> []
      | Some o' \<Rightarrow>
          (if in_Phase o' = '''' \<or> in_Phase o' = lib_instancePhasePending L then []
           else case (instanceTLSParameters L o', instanceTLSParameters L i) of
                  (Inr before, Inr after) \<Rightarrow>
                    (if tlsEnabled (tp_Mode before) \<noteq> tlsEnabled (tp_Mode after) then [modeChangeError] else []) @
                    (if certificateSource before \<noteq> certificateSource after then [sourceChangeError] else [])
                | _ \<Rightarrow> []))"

definition Validate :: "lib \<Rightarrow> instance_t \<Rightarrow> instance_t option \<Rightarrow> fieldError list" where
  "Validate L i old =
     validateName (in_Name i) @
     validateDataSource i @
     validateEngine (in_Components i) @
     validateHidden (in_Components i) @
     (if lib_topologyType L i = ''sharded'' then validateShardedTopology (in_Components i) else []) @
     validateTLS L i @
     validateTLSTransition L i old"

section \<open>Rules that read other objects\<close>

definition certificateSecretKeys :: "string list" where
  "certificateSecretKeys = [''tls.crt'', ''tls.key'', caKey]"

definition validateCertificateSecret :: "env \<Rightarrow> path \<Rightarrow> string \<Rightarrow> fieldError list act" where
  "validateCertificateSecret E p name =
     handleIO (getSecret E name) (\<lambda>r. case r of
       Inl e \<Rightarrow> if isNotFound e then returnIO [FNotFound p name]
                else failIO (Wrap (''get certificate secret '' @ quote name) e)
     | Inr sec \<Rightarrow>
         (let missing = filter (\<lambda>key. sec_Data sec key = None \<or> sec_Data sec key = Some '''') certificateSecretKeys
          in if missing \<noteq> []
             then returnIO [FInvalid p (VString name) (''missing '' @ joinWith '', '' (map quote missing))]
             else returnIO []))"

definition validateTLSChange :: "env \<Rightarrow> ctx \<Rightarrow> tlsParameters \<Rightarrow> fieldError list act" where
  "validateTLSChange E c tls =
     handleIO (getPSMDB E (c_Name c)) (\<lambda>r. case r of
       Inl e \<Rightarrow> if isNotFound e then returnIO [] else failIO (Wrap ''fetching current PSMDB CR'' e)
     | Inr current \<Rightarrow>
         (let currentMode = (case ps_TLS (cr_Spec current) of
                None \<Rightarrow> ''preferTLS''
              | Some t \<Rightarrow> if tls_SpecMode t \<noteq> '''' then tls_SpecMode t else ''preferTLS'');
              currentIssuer = (case ps_TLS (cr_Spec current) of
                None \<Rightarrow> ''/''
              | Some t \<Rightarrow> iss_Kind (tls_IssuerConf t) @ ''/'' @ iss_Name (tls_IssuerConf t));
              currentInternalSecret = (case ps_Secrets (cr_Spec current) of
                None \<Rightarrow> '''' | Some s \<Rightarrow> ss_SSLInternal s);
              currentSecret = (case (ps_Secrets (cr_Spec current), ps_TLS (cr_Spec current)) of
                (Some s, Some t) \<Rightarrow>
                  if tls_CertManagementPolicy t = CertManagementUserProvidedOnly then ss_SSL s else ''''
              | _ \<Rightarrow> '''')
          in returnIO (
             (if (currentMode \<noteq> ''disabled'') \<noteq> tlsEnabled (tp_Mode tls) then [modeChangeError] else []) @
             (if currentIssuer \<noteq> issuerText tls \<or> currentSecret \<noteq> tp_CertificateSecretName tls \<or>
                 (currentInternalSecret \<noteq> '''' \<and>
                  currentInternalSecret \<noteq> internalCertificateSecretName c tls)
              then [sourceChangeError] else []))))"

definition validateTLSReferences :: "lib \<Rightarrow> env \<Rightarrow> ctx \<Rightarrow> fieldError list act" where
  "validateTLSReferences L E c =
     bindIO (liftIO (tlsParametersOf L c)) (\<lambda>tls.
     bindIO (forIO (\<lambda>(fieldName, name).
         if name = '''' then returnIO []
         else validateCertificateSecret E (tlsPath @ [Child fieldName]) name)
       [(''certificateSecretName'', tp_CertificateSecretName tls),
        (''internalCertificateSecretName'', tp_InternalCertificateSecretName tls)]) (\<lambda>secretErrs.
     bindIO (validateTLSChange E c tls) (\<lambda>changeErrs.
     returnIO (concat secretErrs @ changeErrs))))"

definition userSecretKeys :: "string list" where
  "userSecretKeys =
     [''MONGODB_BACKUP_USER'', ''MONGODB_BACKUP_PASSWORD'', ''MONGODB_CLUSTER_ADMIN_USER'',
      ''MONGODB_CLUSTER_ADMIN_PASSWORD'', ''MONGODB_CLUSTER_MONITOR_USER'',
      ''MONGODB_CLUSTER_MONITOR_PASSWORD'', ''MONGODB_DATABASE_ADMIN_USER'',
      ''MONGODB_DATABASE_ADMIN_PASSWORD'', ''MONGODB_USER_ADMIN_USER'', ''MONGODB_USER_ADMIN_PASSWORD'']"

text \<open>The secret, or the field errors it was rejected with.\<close>

definition validateUserSecretSchema :: "lib \<Rightarrow> env \<Rightarrow> string \<Rightarrow> (secret option \<times> fieldError list) act" where
  "validateUserSecretSchema L E name =
     (let p = [Child ''spec'', Child ''userSecretRef'', Child ''name'']
      in handleIO (getSecret E name) (\<lambda>r. case r of
           Inl e \<Rightarrow> if isNotFound e then returnIO (None, [FNotFound p name])
                    else failIO (Wrap (''get user secret '' @ quote name) e)
         | Inr sec \<Rightarrow>
             bindIO (wrapIO ''get provider spec'' (readProviderSpec E)) (\<lambda>spec.
               case lib_validateSecretSchema L sec spec of
                 Some e \<Rightarrow> returnIO (None, [FInvalid p (VString name) (errText (lib_errText L) e)])
               | None \<Rightarrow> returnIO (Some sec, []))))"

text \<open>A credential is there when \<^verbatim>\<open>data\<close> or \<^verbatim>\<open>stringData\<close> holds a value that is not empty.\<close>

definition holdsCredential :: "secret \<Rightarrow> string \<Rightarrow> bool" where
  "holdsCredential sec key \<longleftrightarrow>
     (case sec_Data sec key of None \<Rightarrow> False | Some v \<Rightarrow> v \<noteq> '''') \<or>
     (case sec_StringData sec key of None \<Rightarrow> False | Some v \<Rightarrow> v \<noteq> '''')"

definition validateUserSecret :: "lib \<Rightarrow> env \<Rightarrow> ctx \<Rightarrow> fieldError list act" where
  "validateUserSecret L E c =
     (let ref = in_UserSecretRef (c_Instance c);
          refPath = [Child ''spec'', Child ''userSecretRef'']
      in case in_DataSource (c_Instance c) of
           None \<Rightarrow>
             (case ref of
                None \<Rightarrow> returnIO []
              | Some name \<Rightarrow> bindIO (validateUserSecretSchema L E name) (\<lambda>(_, errs). returnIO errs))
         | Some ds \<Rightarrow>
             (if ds_Type ds \<noteq> DataSourceTypeBackup then returnIO []
              else let backupPath = [Child ''spec'', Child ''dataSource'', Child ''backup'',
                                     Child ''backupRef'', Child ''name'']
              in bindIO (derefIO (ds_Backup ds)) (\<lambda>name.
                 handleIO (getBackup E name) (\<lambda>r. case r of
                   Inl e \<Rightarrow> if isNotFound e then returnIO [FNotFound backupPath name]
                            else failIO (Wrap (''get Backup '' @ quote name) e)
                 | Inr srcBackup \<Rightarrow>
                     (case bkp_OriginType srcBackup of
                        OriginInstance \<Rightarrow>
                          (if ref = None then returnIO []
                           else returnIO [FForbidden refPath
                             ''must not be set when seeding from a backup of an Instance; the credentials are inherited from that Instance''])
                      | OriginExternal \<Rightarrow>
                          (case ref of
                             None \<Rightarrow> returnIO [FRequired refPath
                               ''required when seeding from an external backup; it must match the credentials of the Instance that produced the backup'']
                           | Some secretName \<Rightarrow>
                               bindIO (validateUserSecretSchema L E secretName) (\<lambda>(found, errs).
                                 if errs \<noteq> [] then returnIO errs
                                 else bindIO (derefIO found) (\<lambda>sec.
                                   let missing = filter (\<lambda>key. \<not> holdsCredential sec key) userSecretKeys
                                   in if missing \<noteq> []
                                      then returnIO [FInvalid (refPath @ [Child ''name'']) (VString secretName)
                                             (''missing '' @ joinWith '', '' (map quote missing))]
                                      else returnIO [])))
                      | OriginOther t \<Rightarrow>
                          returnIO [FInvalid backupPath (VString name)
                            (''has an unknown origin type '' @ quote t)])))))"

definition ValidateReferences :: "lib \<Rightarrow> env \<Rightarrow> ctx \<Rightarrow> fieldError list act" where
  "ValidateReferences L E c =
     bindIO (validateUserSecret L E c) (\<lambda>errs.
     bindIO (validateTLSReferences L E c) (\<lambda>tlsErrs.
     returnIO (errs @ tlsErrs)))"

section \<open>What the rules accept\<close>

text \<open>The data source an instance may carry.\<close>

definition dataSourceAcceptable :: "instance_t \<Rightarrow> bool" where
  "dataSourceAcceptable i =
     (case in_DataSource i of
        None \<Rightarrow> True
      | Some ds \<Rightarrow> (ds_Type ds = DataSourceTypeBackup \<longrightarrow> (\<exists>n. ds_Backup ds = Some n \<and> n \<noteq> '''')) \<and>
                   (ds_Type ds = DataSourceTypePointInTime \<longrightarrow> in_UserSecretRef i = None))"

definition serviceAcceptable :: "service option \<Rightarrow> bool" where
  "serviceAcceptable svc = (\<forall>s. svc = Some s \<longrightarrow> svc_ServiceType s \<in> {''ClusterIP'', ''LoadBalancer'', ''NodePort''})"

definition engineAcceptable :: "componentSpec \<Rightarrow> bool" where
  "engineAcceptable engine \<longleftrightarrow>
     (\<exists>n. comp_Replicas engine = Some n \<and> 1 \<le> i32 n \<and> odd (i32 n)) \<and>
     (\<exists>st. comp_Storage engine = Some st \<and> qGi 1 \<le> st_Size st) \<and>
     (\<exists>r l cpu mem. comp_Resources engine = Some r \<and> rr_Limits r = Some l \<and>
        l ''cpu'' = Some cpu \<and> qMilli 600 \<le> cpu \<and> l ''memory'' = Some mem \<and> qMi 512 \<le> mem) \<and>
     serviceAcceptable (comp_Service engine)"

text \<open>\<open>fits e h\<close> says that \<open>e\<close> members and \<open>h\<close> hidden ones are not too many.\<close>

definition hiddenAcceptable :: "(int32 \<Rightarrow> int32 \<Rightarrow> bool) \<Rightarrow> components \<Rightarrow> componentSpec \<Rightarrow> int32 \<Rightarrow> bool" where
  "hiddenAcceptable fits comps hidden h \<longleftrightarrow>
     (\<forall>e. comp_Replicas (compAt comps ''engine'') = Some e \<longrightarrow> fits e h) \<and>
     (\<forall>st. comp_Storage hidden = Some st \<longrightarrow> st_Size st = 0 \<or> qGi 1 \<le> st_Size st) \<and>
     (\<forall>r. comp_Resources hidden = Some r \<longrightarrow>
        (\<forall>v. rlGet (rr_Limits r) ''cpu'' = Some v \<longrightarrow> v = 0 \<or> qMilli 600 \<le> v) \<and>
        (\<forall>v. rlGet (rr_Limits r) ''memory'' = Some v \<longrightarrow> v = 0 \<or> qMi 512 \<le> v))"

definition shardedAcceptable :: "components \<Rightarrow> bool" where
  "shardedAcceptable comps \<longleftrightarrow>
     (\<exists>n. comp_Replicas (compAt comps ''configServer'') = Some n \<and> 1 \<le> i32 n \<and> odd (i32 n) \<and>
        (\<forall>e. comp_Replicas (compAt comps ''engine'') = Some e \<longrightarrow> i32 e \<le> 1 \<or> 3 \<le> i32 n)) \<and>
     serviceAcceptable (comp_Service (compAt comps ''proxy''))"

definition tlsAcceptable :: "tlsParameters \<Rightarrow> bool" where
  "tlsAcceptable tls \<longleftrightarrow>
     tp_Mode tls \<in> {''preferTLS'', ''requireTLS'', ''disabled''} \<and>
     (\<forall>is. tp_Issuer tls = Some is \<longrightarrow> ir_Kind is \<in> {''Issuer'', ''ClusterIssuer''}) \<and>
     (tp_Mode tls = ''disabled'' \<longrightarrow> tp_CertificateSecretName tls = '''' \<and>
        tp_InternalCertificateSecretName tls = '''' \<and> tp_Issuer tls = None) \<and>
     (tp_InternalCertificateSecretName tls \<noteq> '''' \<longrightarrow> tp_CertificateSecretName tls \<noteq> '''') \<and>
     (tp_CertificateSecretName tls \<noteq> '''' \<longrightarrow> tp_Issuer tls = None)"

text \<open>What an update may not change once the instance is beyond \<^verbatim>\<open>Pending\<close>.\<close>

definition tlsUpdateAcceptable :: "lib \<Rightarrow> instance_t \<Rightarrow> instance_t \<Rightarrow> bool" where
  "tlsUpdateAcceptable L i old =
     (in_Phase old \<noteq> '''' \<longrightarrow> in_Phase old \<noteq> lib_instancePhasePending L \<longrightarrow>
      (\<forall>before after. instanceTLSParameters L old = Inr before \<longrightarrow> instanceTLSParameters L i = Inr after \<longrightarrow>
         (tp_Mode before = ''disabled'') = (tp_Mode after = ''disabled'') \<and>
         certificateSource before = certificateSource after))"

definition rulesMet :: "(int32 \<Rightarrow> int32 \<Rightarrow> bool) \<Rightarrow> lib \<Rightarrow> instance_t \<Rightarrow> instance_t option \<Rightarrow> bool" where
  "rulesMet fits L i old \<longleftrightarrow>
     rfc1035Match (in_Name i) \<and> length (in_Name i) \<le> 22 \<and>
     dataSourceAcceptable i \<and>
     (\<exists>engine. in_Components i ''engine'' = Some engine \<and> engineAcceptable engine) \<and>
     (\<forall>hidden h. in_Components i ''hidden'' = Some hidden \<longrightarrow> comp_Replicas hidden = Some h \<longrightarrow>
        hiddenAcceptable fits (in_Components i) hidden h) \<and>
     (lib_topologyType L i = ''sharded'' \<longrightarrow> shardedAcceptable (in_Components i)) \<and>
     (\<exists>tls. instanceTLSParameters L i = Inr tls \<and> tlsAcceptable tls) \<and>
     (\<forall>prev. old = Some prev \<longrightarrow> tlsUpdateAcceptable L i prev)"

text \<open>An Instance is acceptable when there are at most seven voting members, MongoDB's limit; what the code checks is the sum as
  \<^verbatim>\<open>int32\<close> computes it.\<close>

definition acceptable :: "lib \<Rightarrow> instance_t \<Rightarrow> instance_t option \<Rightarrow> bool" where
  "acceptable = rulesMet (\<lambda>e h. i32 e + i32 h \<le> 7)"

abbreviation wrappedFits :: "int32 \<Rightarrow> int32 \<Rightarrow> bool" where
  "wrappedFits \<equiv> (\<lambda>e h. i32 (e + h) \<le> 7)"

abbreviation passesRules :: "lib \<Rightarrow> instance_t \<Rightarrow> instance_t option \<Rightarrow> bool" where
  "passesRules \<equiv> rulesMet wrappedFits"

definition replicasOf :: "components \<Rightarrow> string \<Rightarrow> int" where
  "replicasOf comps name = (case comp_Replicas (compAt comps name) of None \<Rightarrow> 0 | Some n \<Rightarrow> i32 n)"

definition votingMembers :: "instance_t \<Rightarrow> int" where
  "votingMembers i = replicasOf (in_Components i) ''engine'' + replicasOf (in_Components i) ''hidden''"

lemmas minimum_defs = minLimits_def minStorage_def minCPU_def minMemory_def

lemma validateName_accepts: "validateName n = [] \<longleftrightarrow> rfc1035Match n \<and> length n \<le> 22"
  by (auto simp: validateName_def Let_def maxInstanceNameLength_def)

lemma validateDataSource_accepts: "validateDataSource i = [] \<longleftrightarrow> dataSourceAcceptable i"
  by (auto simp: validateDataSource_def dataSourceAcceptable_def Let_def
      split: option.splits dataSourceType.splits)

lemma validateService_accepts: "validateService p svc = [] \<longleftrightarrow> serviceAcceptable svc"
  by (auto simp: validateService_def serviceAcceptable_def supportedServiceTypes_def split: option.splits)

lemma validateLimits_accepts:
  "validateLimits p resources = [] \<longleftrightarrow>
     (\<exists>r l cpu mem. resources = Some r \<and> rr_Limits r = Some l \<and>
        l ''cpu'' = Some cpu \<and> minCPU \<le> cpu \<and> l ''memory'' = Some mem \<and> minMemory \<le> mem)"
  by (auto simp: validateLimits_def minLimits_def not_less split: option.splits if_splits)

text \<open>The sum of the members, as computed and as it is.\<close>

lemma wrapped_sum_fits: "1 \<le> i32 e \<Longrightarrow> i32 e + i32 h \<le> 7 \<Longrightarrow> wrappedFits e h"
  using i32_add_exact [of e h] i32_range [of h] by simp

lemma true_sum_fits: "1 \<le> i32 e \<Longrightarrow> i32 e + i32 h < 2 ^ 31 \<Longrightarrow> wrappedFits e h \<Longrightarrow> i32 e + i32 h \<le> 7"
  using i32_add_exact [of e h] i32_range [of h] by simp

text \<open>The two rules that engine and config servers share.\<close>

lemma positive_odd: "\<not> (i32 n < 1 \<or> i32 n mod 2 = 0) \<longleftrightarrow> 1 \<le> i32 n \<and> odd (i32 n)"
  by (simp add: not_less even_iff_mod_2_eq_zero)

lemma validateEngine_accepts:
  "validateEngine comps = [] \<longleftrightarrow> (\<exists>engine. comps ''engine'' = Some engine \<and> engineAcceptable engine)"
proof (cases "comps ''engine''")
  case None
  then show ?thesis by (simp add: validateEngine_def component_defs)
next
  case (Some engine)
  have "validateEngine comps = [] \<longleftrightarrow>
      (\<exists>n. comp_Replicas engine = Some n \<and> \<not> (i32 n < 1 \<or> i32 n mod 2 = 0)) \<and>
      (\<exists>st. comp_Storage engine = Some st \<and> minStorage \<le> st_Size st) \<and>
      validateLimits (componentsPath @ [Key ComponentEngine, Child ''resources'', Child ''limits''])
        (comp_Resources engine) = [] \<and>
      validateService (componentsPath @ [Key ComponentEngine]) (comp_Service engine) = []"
    using Some
    by (cases "comp_Replicas engine"; cases "comp_Storage engine")
      (simp_all add: validateEngine_def Let_def component_defs not_less)
  then show ?thesis
    unfolding positive_odd validateLimits_accepts validateService_accepts
    using Some by (simp add: engineAcceptable_def minStorage_def minCPU_def minMemory_def)
qed

lemma validateHidden_accepts:
  "validateHidden comps = [] \<longleftrightarrow>
     (\<forall>hidden h. comps ''hidden'' = Some hidden \<longrightarrow> comp_Replicas hidden = Some h \<longrightarrow>
        hiddenAcceptable wrappedFits comps hidden h)"
proof (cases "\<exists>hidden h. comps ''hidden'' = Some hidden \<and> comp_Replicas hidden = Some h")
  case False
  then show ?thesis
    by (auto simp: validateHidden_def component_defs split: option.splits)
next
  case True
  then obtain hidden h where hid: "comps ''hidden'' = Some hidden" "comp_Replicas hidden = Some h"
    by blast
  have "validateHidden comps = [] \<longleftrightarrow>
      (\<forall>e. comp_Replicas (compAt comps ''engine'') = Some e \<longrightarrow> \<not> maxVotingMembers < i32 (e + h)) \<and>
      (\<forall>st. comp_Storage hidden = Some st \<longrightarrow> \<not> (st_Size st \<noteq> 0 \<and> st_Size st < minStorage)) \<and>
      (\<forall>r. comp_Resources hidden = Some r \<longrightarrow>
         (\<forall>v. rlGet (rr_Limits r) ''cpu'' = Some v \<longrightarrow> \<not> (v \<noteq> 0 \<and> v < minCPU)) \<and>
         (\<forall>v. rlGet (rr_Limits r) ''memory'' = Some v \<longrightarrow> \<not> (v \<noteq> 0 \<and> v < minMemory)))"
    using hid
    by (simp add: validateHidden_def Let_def component_defs minLimits_def split: option.split)
  then show ?thesis
    using hid
    by (simp add: hiddenAcceptable_def maxVotingMembers_def minStorage_def minCPU_def minMemory_def not_less)
qed

lemma validateShardedTopology_accepts: "validateShardedTopology comps = [] \<longleftrightarrow> shardedAcceptable comps"
proof (cases "comp_Replicas (compAt comps ''configServer'')")
  case None
  then show ?thesis
    by (simp add: validateShardedTopology_def shardedAcceptable_def component_defs)
next
  case (Some n)
  have "validateShardedTopology comps = [] \<longleftrightarrow>
      \<not> (i32 n < 1 \<or> i32 n mod 2 = 0) \<and>
      (\<forall>e. comp_Replicas (compAt comps ''engine'') = Some e \<longrightarrow> \<not> (i32 e > 1 \<and> i32 n < 3)) \<and>
      validateService (componentsPath @ [Key ComponentProxy]) (comp_Service (compAt comps ''proxy'')) = []"
    using Some
    by (cases "comp_Replicas (compAt comps ''engine'')")
      (simp_all add: validateShardedTopology_def Let_def component_defs)
  then show ?thesis
    unfolding positive_odd validateService_accepts
    using Some by (auto simp: shardedAcceptable_def)
qed

lemma validateTLS_accepts:
  "validateTLS L i = [] \<longleftrightarrow> (\<exists>tls. instanceTLSParameters L i = Inr tls \<and> tlsAcceptable tls)"
  by (auto simp: validateTLS_def tlsAcceptable_def Let_def tlsModes_def issuerKinds_def tls_consts
      tlsEnabled_def split: option.splits if_splits sum.splits)

lemma validateTLSTransition_accepts:
  "validateTLSTransition L i old = [] \<longleftrightarrow> (\<forall>prev. old = Some prev \<longrightarrow> tlsUpdateAcceptable L i prev)"
  by (auto simp: validateTLSTransition_def tlsUpdateAcceptable_def tlsEnabled_def tls_consts
      split: option.splits if_splits sum.splits)

section \<open>Reading validators write nothing\<close>

lemma readOnly_validateCertificateSecret [read_only_intros]: "readOnly (validateCertificateSecret E p n)"
  by (auto simp: validateCertificateSecret_def Let_def intro!: emits_handle read_only_intros split: sum.splits)

lemma readOnly_validateTLSChange [read_only_intros]: "readOnly (validateTLSChange E c tls)"
  by (auto simp: validateTLSChange_def Let_def intro!: emits_handle read_only_intros split: sum.splits)

lemma readOnly_validateTLSReferences [read_only_intros]: "readOnly (validateTLSReferences L E c)"
  unfolding validateTLSReferences_def
  by (intro emits_bind emits_for read_only_intros emits_lift emits_return)
    (auto intro: read_only_intros split: prod.splits)

lemma readOnly_validateUserSecretSchema [read_only_intros]: "readOnly (validateUserSecretSchema L E n)"
  by (auto simp: validateUserSecretSchema_def Let_def
      intro!: emits_handle emits_bind emits_wrap read_only_intros split: sum.splits option.splits)

lemma readOnly_validateUserSecret [read_only_intros]: "readOnly (validateUserSecret L E c)"
  by (auto simp: validateUserSecret_def Let_def
      intro!: emits_handle emits_bind read_only_intros split: sum.splits option.splits originType.splits prod.splits)

lemma readOnly_ValidateReferences [read_only_intros]: "readOnly (ValidateReferences L E c)"
  unfolding ValidateReferences_def by (intro emits_bind read_only_intros emits_return)

section \<open>Admission and reconciliation agree\<close>

text \<open>A CR whose TLS part is the one \<open>tls\<close> asks for: mode, issuer, who manages the certificates, and the secrets they are in.\<close>

definition tlsSpecFits :: "tlsParameters \<Rightarrow> bool \<Rightarrow> tlsSpec \<Rightarrow> bool" where
  "tlsSpecFits tls keep t \<longleftrightarrow>
     tls_SpecMode t = tp_Mode tls \<and>
     tls_IssuerConf t = (case tp_Issuer tls of
        None \<Rightarrow> \<lparr>iss_Name = '''', iss_Kind = '''', iss_Group = ''''\<rparr>
      | Some i \<Rightarrow> \<lparr>iss_Name = ir_Name i, iss_Kind = ir_Kind i, iss_Group = ''cert-manager.io''\<rparr>) \<and>
     tls_CertManagementPolicy t =
       (if tp_CertificateSecretName tls \<noteq> '''' \<or> keep then CertManagementUserProvidedOnly else PolicyDefault)"

definition tlsSynced :: "ctx \<Rightarrow> tlsParameters \<Rightarrow> bool \<Rightarrow> psmdb \<Rightarrow> bool" where
  "tlsSynced c tls keep cr \<longleftrightarrow>
     (\<exists>t. ps_TLS (cr_Spec cr) = Some t \<and> tlsSpecFits tls keep t) \<and>
     (\<exists>s. ps_Secrets (cr_Spec cr) = Some s \<and> ss_SSL s = tp_CertificateSecretName tls \<and>
        ss_SSLInternal s = (if tp_InternalCertificateSecretName tls \<noteq> '''' then tp_InternalCertificateSecretName tls
          else c_Name c @ ''-ssl-internal''))"

lemma configureTLS_fits: "\<exists>t. ps_TLS (cr_Spec (configureTLS cr tls keep)) = Some t \<and> tlsSpecFits tls keep t"
  by (auto simp: configureTLS_def tlsSpecFits_def certManagerGroup_def Let_def split: option.splits)

definition noSpaces :: "tlsParameters \<Rightarrow> bool" where
  "noSpaces tls \<longleftrightarrow> CHR '' '' \<notin> set (issuerText tls) \<and> CHR '' '' \<notin> set (tp_CertificateSecretName tls)"

lemma append_sep_inject:
  "x \<notin> set a \<Longrightarrow> x \<notin> set b \<Longrightarrow> a @ x # s = b @ x # t \<Longrightarrow> a = b \<and> s = t"
  by (induction a arbitrary: b) (case_tac b; auto)+

lemma certificateSource_inject:
  assumes "noSpaces a" "noSpaces b" "certificateSource a = certificateSource b"
  shows "issuerText a = issuerText b \<and> tp_CertificateSecretName a = tp_CertificateSecretName b \<and>
    tp_InternalCertificateSecretName a = tp_InternalCertificateSecretName b"
proof -
  have "issuerText a = issuerText b \<and>
      tp_CertificateSecretName a @ CHR '' '' # tp_InternalCertificateSecretName a =
      tp_CertificateSecretName b @ CHR '' '' # tp_InternalCertificateSecretName b"
    using assms by (intro append_sep_inject [where x = "CHR '' ''"]) (auto simp: noSpaces_def certificateSource_def)
  then show ?thesis
    using assms append_sep_inject [where x = "CHR '' ''"] by (auto simp: noSpaces_def)
qed

lemma validateTLSChange_synced:
  assumes synced: "env_psmdb E h (c_Name c) = Inr current" "tlsSynced c before keep current"
    and mode: "tp_Mode before \<noteq> ''''" "tlsEnabled (tp_Mode before) = tlsEnabled (tp_Mode after)"
    and source: "issuerText before = issuerText after"
      "tp_CertificateSecretName before = tp_CertificateSecretName after"
      "tp_InternalCertificateSecretName before = tp_InternalCertificateSecretName after"
  shows "fst (validateTLSChange E c after h) = Inr []"
proof -
  obtain s where s: "ps_Secrets (cr_Spec current) = Some s" "ss_SSL s = tp_CertificateSecretName before"
    "ss_SSLInternal s = internalCertificateSecretName c before"
    using synced(2) by (auto simp: tlsSynced_def internalCertificateSecretName_def)
  obtain t where t: "ps_TLS (cr_Spec current) = Some t" "tls_SpecMode t = tp_Mode before"
    "iss_Kind (tls_IssuerConf t) @ ''/'' @ iss_Name (tls_IssuerConf t) = issuerText before"
    "tp_CertificateSecretName before \<noteq> '''' \<longrightarrow> tls_CertManagementPolicy t = CertManagementUserProvidedOnly"
    using synced(2)
    by (auto simp: tlsSynced_def tlsSpecFits_def issuerText_def split: option.splits)
  have "internalCertificateSecretName c before = internalCertificateSecretName c after"
    using source(3) by (simp add: internalCertificateSecretName_def)
  then show ?thesis
    using synced(1) s t mode source
    by (auto simp: validateTLSChange_def call_defs io_defs Let_def tlsEnabled_def tls_consts)
qed

section \<open>Minimums of accepted instances\<close>

lemma Validate_iff: "Validate L i old = [] \<longleftrightarrow> passesRules L i old"
proof -
  have "(if lib_topologyType L i = ''sharded'' then validateShardedTopology (in_Components i) else []) = [] \<longleftrightarrow>
      (lib_topologyType L i = ''sharded'' \<longrightarrow> shardedAcceptable (in_Components i))"
    by (simp add: validateShardedTopology_accepts)
  then show ?thesis
    unfolding Validate_def append_is_Nil_conv rulesMet_def validateName_accepts
      validateDataSource_accepts validateEngine_accepts validateHidden_accepts validateTLS_accepts
      validateTLSTransition_accepts
    by blast
qed

lemma mongodResources_lower_bound:
  assumes "n \<in> set managedResources" "0 < m" "m \<le> qtyOf (rlGet (rr_Limits r) n)"
  shows "m \<le> qtyOf (rlGet (rr_Limits (mongodResources (Some r))) n)"
  using assms by (simp add: mongodResources_limits cpuMemoryOf_def)

lemma hiddenResources_lower_bound:
  assumes n: "n \<in> set managedResources" and "0 < m" "m \<le> qtyOf (rlGet (rr_Limits e) n)"
    and set: "\<And>r v. hidden = Some r \<Longrightarrow> rlGet (rr_Limits r) n = Some v \<Longrightarrow> v = 0 \<or> m \<le> v"
  shows "m \<le> qtyOf (rlGet (rr_Limits (mongodResources (hiddenResources (Some e) hidden))) n)"
proof (cases hidden)
  case None
  with assms show ?thesis by (simp add: hiddenResources_def mongodResources_lower_bound)
next
  case (Some r)
  have "m \<le> qtyOf (rlGet (rr_Limits r) n)" if "qtyOf (rlGet (rr_Limits r) n) \<noteq> 0"
    using that set [OF Some] by (auto simp: qtyOf_def split: option.splits)
  then have "m \<le> qtyOf (rlGet (fill (rr_Limits r) (rr_Limits e)) n)"
    using assms(3) n by (intro hidden_fill.fill_lower_bound)
  then show ?thesis
    using n \<open>0 < m\<close> Some by (simp add: hiddenResources_def mongodResources_lower_bound)
qed

lemma hiddenSpecFor_resources:
  "az_Resources (hid_MultiAZ (hiddenSpecFor c live)) =
     mongodResources (hiddenResources (comp_Resources (compAt (c_Components c) ComponentEngine))
       (comp_Resources (compAt (c_Components c) ComponentHidden)))"
  by (auto simp: hiddenSpecFor_def Let_def split: bool.splits option.splits)

lemma hiddenSpecFor_volume:
  "\<exists>v. hid_VolumeSpec (hiddenSpecFor c live) = Some (Some v) \<and>
     pvcs_Requests v ResourceStorage =
       Some (case hiddenStorage (comp_Storage (compAt (c_Components c) ComponentEngine))
                    (comp_Storage (compAt (c_Components c) ComponentHidden)) of
               Some t \<Rightarrow> if st_Size t \<noteq> 0 then st_Size t else qGi 10 | None \<Rightarrow> qGi 10)"
proof -
  let ?s = "hiddenStorage (comp_Storage (compAt (c_Components c) ComponentEngine))
              (comp_Storage (compAt (c_Components c) ComponentHidden))"
  obtain p where p: "mongodVolume ?s = Some p"
    "pvcs_Requests p ResourceStorage =
       Some (case ?s of Some t \<Rightarrow> if st_Size t \<noteq> 0 then st_Size t else qGi 10 | None \<Rightarrow> qGi 10)"
    using mongodVolume_size [of ?s] by blast
  have "\<exists>v. hid_VolumeSpec (hiddenSpecFor c live) = Some (Some v) \<and> pvcs_Requests v = pvcs_Requests p"
    using p(1) by (auto simp: hiddenSpecFor_def Let_def split: bool.splits option.splits)
  with p(2) show ?thesis by auto
qed

lemma hiddenStorage_lower_bound:
  assumes "minStorage \<le> st_Size e"
    and "\<And>st. hidden = Some st \<Longrightarrow> st_Size st = 0 \<or> minStorage \<le> st_Size st"
  shows "\<exists>t. hiddenStorage (Some e) hidden = Some t \<and> minStorage \<le> st_Size t"
  using assms by (cases hidden) (auto simp: hiddenStorage_def Let_def)

section \<open>No panics\<close>

lemma validateCertificateSecret_no_panic [no_panic_intros]: "calm E \<Longrightarrow> neverPanics (validateCertificateSecret E p n)"
  by (auto simp: validateCertificateSecret_def Let_def intro!: no_panic_intros split: sum.splits)

lemma validateTLSChange_no_panic [no_panic_intros]: "calm E \<Longrightarrow> neverPanics (validateTLSChange E c tls)"
  by (auto simp: validateTLSChange_def Let_def intro!: no_panic_intros split: sum.splits)

lemma validateTLSReferences_no_panic [no_panic_intros]:
  "calm E \<Longrightarrow> calmLib L \<Longrightarrow> neverPanics (validateTLSReferences L E c)"
  unfolding validateTLSReferences_def tlsParametersOf_def
  by (auto intro!: no_panic_intros dest: instanceTLSParameters_no_panic split: prod.splits)

text \<open>What \<^const>\<open>validateUserSecretSchema\<close> returns: errors, or else the secret.\<close>

lemma validateUserSecretSchema_found:
  "validateUserSecretSchema L E n h = (Inr (found, []), h') \<Longrightarrow> \<exists>sec. found = Some sec"
  by (auto simp: validateUserSecretSchema_def handleIO_def call_defs io_simps Let_def
      split: sum.splits if_splits option.splits prod.splits)

lemma validateUserSecretSchema_no_panic: "calm E \<Longrightarrow> neverPanics (validateUserSecretSchema L E n)"
  by (auto simp: validateUserSecretSchema_def Let_def intro!: no_panic_intros split: sum.splits option.splits)

lemma checkedSecret_no_panic:
  assumes "calm E" "\<And>sec. neverPanics (f sec)"
  shows "neverPanics (bindIO (validateUserSecretSchema L E n)
    (\<lambda>(found, errs). if errs \<noteq> [] then returnIO errs else bindIO (derefIO found) f))"
  unfolding failsOnly_def
proof (intro allI impI)
  fix h e
  assume "fst (bindIO (validateUserSecretSchema L E n)
    (\<lambda>(found, errs). if errs \<noteq> [] then returnIO errs else bindIO (derefIO found) f) h) = Inl e"
  then show "\<not> isPanic e"
    using assms(2) neverPanicsD [OF validateUserSecretSchema_no_panic [OF assms(1)]] validateUserSecretSchema_found [of L E n h]
    by (cases "validateUserSecretSchema L E n h")
      (fastforce simp: bindIO_def failsOnly_def returnIO_def split: sum.splits if_splits)
qed

lemma ValidateReferences_no_panic:
  assumes "dataSourceAcceptable (c_Instance c)" "calm E" "calmLib L"
  shows "neverPanics (ValidateReferences L E c)"
proof -
  have "neverPanics (validateUserSecret L E c)"
    using assms
    by (auto simp: validateUserSecret_def dataSourceAcceptable_def Let_def
        intro!: no_panic_intros checkedSecret_no_panic validateUserSecretSchema_no_panic
        split: option.splits sum.splits originType.splits)
  then show ?thesis
    unfolding ValidateReferences_def using assms by (intro no_panic_intros)
qed

section \<open>Properties\<close>

text \<open>C1. \<^verbatim>\<open>Validate\<close> accepts the instances it means to: it reports nothing for every Instance whose name is
  an RFC 1035 label of at most 22 characters, whose data source is complete, whose engine has a
  positive odd number of members, at least \<^verbatim>\<open>1Gi\<close> of storage, at least \<^verbatim>\<open>600m\<close> CPU and \<^verbatim>\<open>512Mi\<close> memory and
  a service type the operator knows, whose hidden members pass their limits and make no more than seven voting members together with
  the engine's, whose sharded topology has enough config servers, and whose TLS parameters are consistent and unchanged where they
  must be. And it reports something for every other one, unless the two counts of members add up beyond \<^verbatim>\<open>int32\<close>.\<close>

theorem validate_accepts_exactly:
  "(acceptable L i old \<longrightarrow> Validate L i old = []) \<and>
   (Validate L i old = [] \<longrightarrow> votingMembers i < 2 ^ 31 \<longrightarrow> acceptable L i old)"
proof (intro conjI impI)
  assume ok: "acceptable L i old"
  then have "i32 (e + h) \<le> 7" if "comp_Replicas (compAt (in_Components i) ''engine'') = Some e"
    "in_Components i ''hidden'' = Some hidden" "comp_Replicas hidden = Some h" for e h hidden
    using that by (auto simp: acceptable_def rulesMet_def hiddenAcceptable_def engineAcceptable_def compAt_def intro: wrapped_sum_fits)
  with ok show "Validate L i old = []"
    unfolding Validate_iff acceptable_def rulesMet_def hiddenAcceptable_def by blast
next
  assume ok: "Validate L i old = []" and small: "votingMembers i < 2 ^ 31"
  then have "i32 e + i32 h \<le> 7" if "comp_Replicas (compAt (in_Components i) ''engine'') = Some e"
    "in_Components i ''hidden'' = Some hidden" "comp_Replicas hidden = Some h" for e h hidden
    using that by (auto simp: Validate_iff rulesMet_def hiddenAcceptable_def engineAcceptable_def compAt_def votingMembers_def
        replicasOf_def intro!: true_sum_fits)
  with ok show "acceptable L i old"
    unfolding Validate_iff acceptable_def rulesMet_def hiddenAcceptable_def by blast
qed

text \<open>Every member of an accepted instance meets the operator's minimums, the hidden ones included:
  the hidden members a Sync configures for it have at least \<^verbatim>\<open>600m\<close> of CPU, \<^verbatim>\<open>512Mi\<close> of memory and \<^verbatim>\<open>1Gi\<close> of
  storage, although their own values may be left unset or zero.\<close>

lemma accepted_hidden_members_meet_minimums:
  assumes ok: "Validate L (c_Instance c) old = []" and hid: "0 < i32 (hiddenReplicas c)"
  shows "minCPU \<le> qtyOf (rlGet (rr_Limits (az_Resources (hid_MultiAZ (hiddenSpecFor c live)))) ''cpu'') \<and>
    minMemory \<le> qtyOf (rlGet (rr_Limits (az_Resources (hid_MultiAZ (hiddenSpecFor c live)))) ''memory'') \<and>
    (\<exists>v. hid_VolumeSpec (hiddenSpecFor c live) = Some (Some v) \<and>
       minStorage \<le> qtyOf (pvcs_Requests v ''storage''))"
proof -
  have acc: "passesRules L (c_Instance c) old" using ok by (simp add: Validate_iff)
  obtain engine where engine: "c_Components c ''engine'' = Some engine" "engineAcceptable engine"
    using acc by (auto simp: rulesMet_def)
  obtain hidden h where hidden: "c_Components c ''hidden'' = Some hidden" "comp_Replicas hidden = Some h"
    using hid by (auto simp: hiddenReplicas_def component_defs split: option.splits)
  then have hok: "hiddenAcceptable wrappedFits (c_Components c) hidden h" using acc by (auto simp: rulesMet_def)
  have at: "compAt (c_Components c) ComponentEngine = engine" "compAt (c_Components c) ComponentHidden = hidden"
    using engine hidden by (simp_all add: compAt_def component_defs)
  obtain r l cpu mem st where r: "comp_Resources engine = Some r" "rr_Limits r = Some l" "l ''cpu'' = Some cpu"
    "minCPU \<le> cpu" "l ''memory'' = Some mem" "minMemory \<le> mem" "comp_Storage engine = Some st"
    "minStorage \<le> st_Size st"
    using engine(2) by (auto simp: engineAcceptable_def minCPU_def minMemory_def minStorage_def)
  have lim: "\<And>hr v. comp_Resources hidden = Some hr \<Longrightarrow> rlGet (rr_Limits hr) ''cpu'' = Some v \<Longrightarrow> v = 0 \<or> minCPU \<le> v"
    "\<And>hr v. comp_Resources hidden = Some hr \<Longrightarrow> rlGet (rr_Limits hr) ''memory'' = Some v \<Longrightarrow> v = 0 \<or> minMemory \<le> v"
    "\<And>hs. comp_Storage hidden = Some hs \<Longrightarrow> st_Size hs = 0 \<or> minStorage \<le> st_Size hs"
    using hok unfolding hiddenAcceptable_def minCPU_def minMemory_def minStorage_def by blast+
  have "minCPU \<le> qtyOf (rlGet (rr_Limits (mongodResources (hiddenResources (Some r) (comp_Resources hidden)))) ''cpu'')"
    using r(2-4) lim(1) by (intro hiddenResources_lower_bound) (auto simp: minCPU_def rlGet_def qtyOf_def)
  moreover have "minMemory \<le> qtyOf (rlGet (rr_Limits (mongodResources (hiddenResources (Some r) (comp_Resources hidden)))) ''memory'')"
    using r(2,5,6) lim(2) by (intro hiddenResources_lower_bound) (auto simp: minMemory_def rlGet_def qtyOf_def)
  moreover obtain t where t: "hiddenStorage (Some st) (comp_Storage hidden) = Some t" "minStorage \<le> st_Size t"
    using hiddenStorage_lower_bound [OF r(8)] lim(3) by blast
  moreover have "st_Size t \<noteq> 0" using t(2) by (auto simp: minStorage_def)
  ultimately show ?thesis
    using hiddenSpecFor_volume [of c live] r(1,7)
    by (auto simp: hiddenSpecFor_resources at qtyOf_def)
qed

text \<open>The voting limit holds for an accepted instance: when the sum of engine and hidden members does
  not leave the range of \<^verbatim>\<open>int32\<close>, there are at most seven of them, and the engine has an odd number.\<close>

theorem accepted_voting_members:
  assumes "Validate L i old = []"
    and "in_Components i ''engine'' = Some engine" "comp_Replicas engine = Some e"
    and "in_Components i ''hidden'' = Some hidden" "comp_Replicas hidden = Some h"
    and "- (2 ^ 31) \<le> i32 e + i32 h" "i32 e + i32 h < 2 ^ 31"
  shows "i32 e + i32 h \<le> 7 \<and> 1 \<le> i32 e \<and> odd (i32 e)"
proof -
  have "passesRules L i old" using assms(1) by (simp add: Validate_iff)
  with assms(2-5) have "i32 (e + h) \<le> 7" "1 \<le> i32 e" "odd (i32 e)"
    by (auto simp: rulesMet_def hiddenAcceptable_def engineAcceptable_def compAt_def)
  with i32_add_exact [OF assms(6,7)] show ?thesis by simp
qed

text \<open>The limit is checked on a wrapped sum: with the largest \<^verbatim>\<open>int32\<close> and two hidden members it passes.\<close>

definition wrappingMembers :: components where
  "wrappingMembers =
     [''engine'' \<mapsto> zeroComponent\<lparr>comp_Replicas := Some 2147483647\<rparr>,
      ''hidden'' \<mapsto> zeroComponent\<lparr>comp_Replicas := Some 2\<rparr>]"

lemma voting_limit_wraps:
  "validateHidden wrappingMembers = [] \<and> i32 (2147483647 :: int32) + i32 (2 :: int32) > maxVotingMembers"
proof
  have "i32 (2147483647 + 2 :: int32) \<le> 7" by simp
  then show "validateHidden wrappingMembers = []"
    unfolding validateHidden_accepts
    by (simp add: wrappingMembers_def hiddenAcceptable_def compAt_def zeroComponent_def)
  show "i32 (2147483647 :: int32) + i32 (2 :: int32) > maxVotingMembers"
    by (simp add: maxVotingMembers_def)
qed

text \<open>C24. What admission accepts, reconciliation accepts: if the old Instance was beyond \<^verbatim>\<open>Pending\<close>, the running CR was synced from it
  and \<^verbatim>\<open>validateTLSTransition\<close> lets the update through, then \<^verbatim>\<open>validateTLSChange\<close> finds nothing to reject
  for the new one. Names without spaces are what the API server admits as object names. (An Instance that is still \<^verbatim>\<open>Pending\<close> is
  not held to anything at admission.)\<close>

theorem accepted_tls_update_reconciles:
  assumes admitted: "validateTLSTransition L (c_Instance c) (Some old) = []"
    and phase: "in_Phase old \<noteq> ''''" "in_Phase old \<noteq> lib_instancePhasePending L"
    and before: "instanceTLSParameters L old = Inr before" "noSpaces before"
    and after: "tlsParametersOf L c = Inr after" "noSpaces after"
    and synced: "env_psmdb E h (c_Name c) = Inr current" "tlsSynced c before keep current"
  shows "fst (validateTLSChange E c after h) = Inr []"
proof -
  have new: "instanceTLSParameters L (c_Instance c) = Inr after"
    using after(1) by (simp add: tlsParametersOf_def)
  have same: "tlsEnabled (tp_Mode before) = tlsEnabled (tp_Mode after)"
    "certificateSource before = certificateSource after"
    using admitted phase before(1) new by (auto simp: validateTLSTransition_def split: if_splits)
  show ?thesis
    using certificateSource_inject [OF before(2) after(2) same(2)] same(1)
      instanceTLSParameters_complete(1) [OF before(1)]
    by (intro validateTLSChange_synced [OF synced]) auto
qed

text \<open>Seeding from an external backup needs every credential: if \<^verbatim>\<open>validateUserSecret\<close> accepts an
  instance whose source backup came from outside, then \<^verbatim>\<open>spec.userSecretRef\<close> names a secret that fits
  the provider's schema and holds all ten \<^verbatim>\<open>MONGODB_*\<close> keys with a value.\<close>

theorem external_backup_needs_all_credentials:
  assumes run: "validateUserSecret L E c h = (Inr [], h')"
    and ds: "in_DataSource (c_Instance c) = Some ds" "ds_Type ds = DataSourceTypeBackup" "ds_Backup ds = Some name"
    and origin: "env_backup E h name = Inr b" "bkp_OriginType b = OriginExternal"
  shows "\<exists>ref sec spec. in_UserSecretRef (c_Instance c) = Some ref \<and>
    env_secret E (h @ [Get KBackup name]) ref = Inr sec \<and> lib_validateSecretSchema L sec spec = None \<and>
    (\<forall>key \<in> set userSecretKeys. holdsCredential sec key)"
  using run ds origin
  by (auto simp: validateUserSecret_def validateUserSecretSchema_def handleIO_def call_defs io_simps Let_def
      filter_empty_conv split: option.splits if_splits sum.splits prod.splits)

text \<open>\<^verbatim>\<open>ValidateReferences\<close> only reads, and it does not panic on an instance \<^verbatim>\<open>Validate\<close> accepts, as long as the API
  server and the libraries do not: the data source and the secret it dereferences are there.\<close>

theorem reference_validation_safe:
  assumes "Validate L (c_Instance c) old = []" "ValidateReferences L E c h = (r, h')" "calm E" "calmLib L"
  shows "(\<forall>e. r = Inl e \<longrightarrow> \<not> isPanic e) \<and> writes h' = writes h"
proof -
  have "dataSourceAcceptable (c_Instance c)"
    using assms(1) by (simp add: Validate_iff rulesMet_def)
  then have "neverPanics (ValidateReferences L E c)" using assms(3,4) by (rule ValidateReferences_no_panic)
  then show ?thesis
    using assms(2) readOnly_writes [OF readOnly_ValidateReferences assms(2)] neverPanicsD by blast
qed

section \<open>Witnesses\<close>

definition soundEngine :: componentSpec where
  "soundEngine = zeroComponent\<lparr>comp_Replicas := Some 3,
     comp_Storage := Some \<lparr>st_Size = qGi 20, st_StorageClass = None\<rparr>,
     comp_Resources := Some \<lparr>rr_Limits = Some [''cpu'' \<mapsto> qUnit 1, ''memory'' \<mapsto> qGi 2], rr_Requests = None\<rparr>\<rparr>"

definition soundHidden :: componentSpec where
  "soundHidden = zeroComponent\<lparr>comp_Replicas := Some 2\<rparr>"

text \<open>Three members and two hidden ones, seeded from a backup.\<close>

definition soundInstance :: instance_t where
  "soundInstance = bareInstance\<lparr>in_Components := [''engine'' \<mapsto> soundEngine, ''hidden'' \<mapsto> soundHidden],
     in_UserSecretRef := Some ''users'',
     in_DataSource := Some \<lparr>ds_Type = DataSourceTypeBackup, ds_Backup = Some ''b1'', ds_PointInTime = None\<rparr>\<rparr>"

definition soundCtx :: ctx where
  "soundCtx = bareCtx\<lparr>c_Instance := soundInstance\<rparr>"

lemmas sound_defs = soundCtx_def soundInstance_def soundEngine_def soundHidden_def zeroComponent_def

lemma soundTLS: "instanceTLSParameters plainLib soundInstance = Inr preferTLS"
  by (simp add: instanceTLSParameters_def sound_defs bareInstance_def tlsDefaults_def preferTLS_def zeroTLS_def)

lemma soundInstance_valid: "Validate plainLib soundInstance None = []"
proof -
  have "rfc1035Match (in_Name soundInstance)" "length (in_Name soundInstance) \<le> 22" by code_simp+
  moreover have "dataSourceAcceptable soundInstance"
    by (simp add: dataSourceAcceptable_def sound_defs bareInstance_def)
  moreover have "engineAcceptable soundEngine"
    by (simp add: engineAcceptable_def serviceAcceptable_def sound_defs)
  moreover have "hiddenAcceptable wrappedFits (in_Components soundInstance) soundHidden 2"
    by (simp add: hiddenAcceptable_def compAt_def sound_defs)
  moreover have "tlsAcceptable preferTLS"
    by (simp add: tlsAcceptable_def preferTLS_def zeroTLS_def tls_consts)
  moreover have "lib_topologyType plainLib soundInstance \<noteq> ''sharded''"
    by (simp add: plainLib_def soundInstance_def bareInstance_def)
  ultimately show ?thesis
    unfolding Validate_iff rulesMet_def using soundTLS
    by (auto simp: soundInstance_def soundHidden_def)
qed

lemma soundCtx_valid: "Validate plainLib (c_Instance soundCtx) None = []"
  using soundInstance_valid by (simp add: soundCtx_def)

theorem validate_accepts_exactly_witness:
  "acceptable plainLib soundInstance None \<and> Validate plainLib (soundInstance\<lparr>in_Name := ''My_Mongo''\<rparr>) None \<noteq> []"
proof -
  have voting: "votingMembers soundInstance < 2 ^ 31" "votingMembers (soundInstance\<lparr>in_Name := ''My_Mongo''\<rparr>) < 2 ^ 31"
    by (simp_all add: votingMembers_def replicasOf_def compAt_def sound_defs)
  have "\<not> rfc1035Match ''My_Mongo''" by code_simp
  moreover have "rfc1035Match (in_Name i)" if "acceptable plainLib i None" for i
    using that by (simp add: acceptable_def rulesMet_def)
  moreover have "in_Name (soundInstance\<lparr>in_Name := ''My_Mongo''\<rparr>) = ''My_Mongo''" by simp
  ultimately have "\<not> acceptable plainLib (soundInstance\<lparr>in_Name := ''My_Mongo''\<rparr>) None" by metis
  with voting show ?thesis
    using soundInstance_valid validate_accepts_exactly by blast
qed

theorem accepted_voting_members_witness: "i32 (3 :: int32) + i32 (2 :: int32) \<le> 7 \<and> odd (i32 (3 :: int32))"
  using accepted_voting_members [OF soundInstance_valid, of soundEngine 3 soundHidden 2]
  by (simp add: sound_defs)

definition syncedCR :: psmdb where
  "syncedCR = (configureTLS zeroPSMDB preferTLS False)\<lparr>cr_Spec :=
     (cr_Spec (configureTLS zeroPSMDB preferTLS False))\<lparr>ps_Secrets := Some \<lparr>ss_Users = ''u'', ss_EncryptionKey = ''k'',
       ss_SSL = '''', ss_SSLInternal = ''my-mongo-ssl-internal''\<rparr>\<rparr>\<rparr>"

lemma syncedCR_synced: "tlsSynced soundCtx preferTLS False syncedCR"
  by (simp add: tlsSynced_def tlsSpecFits_def syncedCR_def configureTLS_def preferTLS_def zeroTLS_def soundCtx_def bareCtx_def)

theorem accepted_tls_update_reconciles_witness:
  "fst (validateTLSChange (emptyCluster\<lparr>env_psmdb := \<lambda>h n. Inr syncedCR\<rparr>) soundCtx preferTLS []) = Inr []"
proof (rule accepted_tls_update_reconciles [of plainLib _ "soundInstance\<lparr>in_Phase := ''Ready''\<rparr>" preferTLS])
  have ready: "instanceTLSParameters plainLib (soundInstance\<lparr>in_Phase := ''Ready''\<rparr>) = Inr preferTLS"
    using soundTLS by (simp add: instanceTLSParameters_def)
  then show "instanceTLSParameters plainLib (soundInstance\<lparr>in_Phase := ''Ready''\<rparr>) = Inr preferTLS" .
  show "validateTLSTransition plainLib (c_Instance soundCtx) (Some (soundInstance\<lparr>in_Phase := ''Ready''\<rparr>)) = []"
    using ready soundTLS by (simp add: validateTLSTransition_def soundCtx_def)
  show "tlsParametersOf plainLib soundCtx = Inr preferTLS"
    using soundTLS by (simp add: tlsParametersOf_def soundCtx_def)
  show "noSpaces preferTLS" "noSpaces preferTLS"
    by (simp_all add: noSpaces_def issuerText_def preferTLS_def zeroTLS_def)
  show "tlsSynced soundCtx preferTLS False syncedCR" by (rule syncedCR_synced)
qed (simp_all add: plainLib_def)

definition fullSecret :: secret where
  "fullSecret = \<lparr>sec_Name = ''users'', sec_Namespace = ''db'', sec_Data = (\<lambda>k. Some ''x''), sec_StringData = Map.empty,
     sec_Annotations = Map.empty, sec_Labels = []\<rparr>"

definition externalBackup :: backup where
  "externalBackup = \<lparr>bkp_Name = ''b1'', bkp_Namespace = ''db'', bkp_OriginType = OriginExternal,
     bkp_InstanceRef = None, bkp_External = None, bkp_ClassRef = ''pbm'', bkp_StorageRef = ''s3'',
     bkp_ScheduleName = '''', bkp_DeletionPolicy = PolicyRetain, bkp_State = BackupSucceeded,
     bkp_CompletedAt = None, bkp_OperatorBackupRef = None\<rparr>"

definition seededCluster :: env where
  "seededCluster = emptyCluster\<lparr>env_backup := \<lambda>h n. Inr externalBackup, env_secret := \<lambda>h n. Inr fullSecret\<rparr>"

theorem external_backup_needs_all_credentials_witness:
  "\<exists>ref sec. in_UserSecretRef soundInstance = Some ref \<and>
     env_secret seededCluster [Get KBackup ''b1''] ref = Inr sec \<and>
     (\<forall>key \<in> set userSecretKeys. holdsCredential sec key)"
proof -
  obtain h' where run: "validateUserSecret plainLib seededCluster soundCtx [] = (Inr [], h')"
    by (simp add: validateUserSecret_def validateUserSecretSchema_def sound_defs bareCtx_def bareInstance_def
        seededCluster_def externalBackup_def fullSecret_def emptyCluster_def plainLib_def call_defs io_defs
        holdsCredential_def)
  have env: "env_backup seededCluster [] ''b1'' = Inr externalBackup" "bkp_OriginType externalBackup = OriginExternal"
    by (simp_all add: seededCluster_def externalBackup_def)
  show ?thesis
    using external_backup_needs_all_credentials [OF run _ _ _ env]
    by (auto simp: soundCtx_def soundInstance_def)
qed

theorem reference_validation_safe_witness:
  "\<not> (\<exists>h' m. ValidateReferences plainLib emptyCluster soundCtx [] = (Inl (Panic m), h'))"
  using reference_validation_safe [OF soundCtx_valid _ calm_samples] by fastforce

end
