(* ===== verification/Backup_Spec.thy ===== *)
theory Backup_Spec
  imports Validation "HOL-Library.Multiset"
begin

text \<open>
  The backup configuration of a cluster and what is reported about it (backup.go up to
  \<^verbatim>\<open>buildPSMDBStorages\<close>, and backup\_status.go): the agent's image, storages, schedules and
  point-in-time recovery written into the CR, the mirror of scheduled backups, and the recovery
  window of each storage. \<open>newest_pick\<close> is the contract of the loops that keep the newest of what
  they see, \<open>instance_enqueue\<close> that of the functions that route a watch event to an Instance.
\<close>

section \<open>Keeping the newest\<close>

locale newest_pick =
  fixes view :: "'x \<Rightarrow> 'a option"
    and stamp :: "'a \<Rightarrow> time"
    and pick :: "'x list \<Rightarrow> 'a option"
  assumes pick_Nil: "pick [] = None"
    and pick_snoc: "pick (xs @ [x]) =
      (case view x of
         None \<Rightarrow> pick xs
       | Some a \<Rightarrow> (case pick xs of None \<Rightarrow> Some a | Some b \<Rightarrow> if stamp b < stamp a then Some a else Some b))"
begin

lemma pick_None: "pick xs = None \<longleftrightarrow> (\<forall>x \<in> set xs. view x = None)"
  by (induction xs rule: rev_induct) (auto simp: pick_Nil pick_snoc split: option.splits)

lemma pick_seen: "pick xs = Some b \<Longrightarrow> \<exists>x \<in> set xs. view x = Some b"
  by (induction xs rule: rev_induct) (auto simp: pick_Nil pick_snoc split: option.splits if_splits)

lemma pick_newest: "pick xs = Some b \<Longrightarrow> x \<in> set xs \<Longrightarrow> view x = Some a \<Longrightarrow> stamp a \<le> stamp b"
proof (induction xs arbitrary: b rule: rev_induct)
  case Nil
  then show ?case by simp
next
  case (snoc y ys)
  show ?case
  proof (cases "pick ys")
    case None
    then have "\<forall>x \<in> set ys. view x = None" by (simp add: pick_None)
    with snoc.prems None show ?thesis
      by (auto simp: pick_snoc split: option.splits)
  next
    case (Some d)
    show ?thesis
      using snoc.prems snoc.IH [OF Some] Some
      by (fastforce simp: pick_snoc split: option.splits if_splits)
  qed
qed

text \<open>The newest stamp does not depend on the order.\<close>

lemma pick_stamp_perm:
  assumes "set xs = set ys"
  shows "map_option stamp (pick xs) = map_option stamp (pick ys)"
proof (cases "pick xs")
  case None
  then show ?thesis using assms pick_None by (metis option.map_disc_iff)
next
  case (Some b)
  then obtain d where d: "pick ys = Some d"
    using assms pick_None by (metis not_Some_eq)
  have "stamp d \<le> stamp b" "stamp b \<le> stamp d"
    using Some d assms pick_seen pick_newest by metis+
  with Some d show ?thesis by simp
qed

end

section \<open>Routing events to Instances\<close>

datatype watched = ORestore restore | OOpBackup opBackup | OOtherObject string

text \<open>A reconcile request: the namespace and name of an Instance.\<close>

type_synonym request = "string \<times> string"

locale instance_enqueue =
  fixes enqueue :: "watched \<Rightarrow> request list"
    and target :: "watched \<Rightarrow> request option"
  assumes routes: "enqueue obj = (case target obj of Some (ns, n) \<Rightarrow> if n = '''' then [] else [(ns, n)] | None \<Rightarrow> [])"
begin

lemma at_most_one: "length (enqueue obj) \<le> 1"
  by (simp add: routes split: option.splits prod.splits)

lemma names_set: "(ns, n) \<in> set (enqueue obj) \<Longrightarrow> n \<noteq> '''' \<and> target obj = Some (ns, n)"
  by (auto simp: routes split: option.splits if_splits)

lemma reached: "target obj = Some (ns, n) \<Longrightarrow> n \<noteq> '''' \<Longrightarrow> enqueue obj = [(ns, n)]"
  by (simp add: routes)

end

definition enqueueRestoreInstance :: "watched \<Rightarrow> request list" where
  "enqueueRestoreInstance obj =
     (case obj of
        ORestore r \<Rightarrow> if res_InstanceRef r = '''' then [] else [(res_Namespace r, res_InstanceRef r)]
      | _ \<Rightarrow> [])"

definition enqueueOperatorBackupInstance :: "watched \<Rightarrow> request list" where
  "enqueueOperatorBackupInstance obj =
     (case obj of
        OOpBackup ub \<Rightarrow> if ob_ClusterName ub = '''' then [] else [(ob_Namespace ub, ob_ClusterName ub)]
      | _ \<Rightarrow> [])"

interpretation restore_events: instance_enqueue enqueueRestoreInstance
  "\<lambda>obj. case obj of ORestore r \<Rightarrow> Some (res_Namespace r, res_InstanceRef r) | _ \<Rightarrow> None"
  by unfold_locales (simp add: enqueueRestoreInstance_def split: watched.splits)

interpretation operator_backup_events: instance_enqueue enqueueOperatorBackupInstance
  "\<lambda>obj. case obj of OOpBackup b \<Rightarrow> Some (ob_Namespace b, ob_ClusterName b) | _ \<Rightarrow> None"
  by unfold_locales (simp add: enqueueOperatorBackupInstance_def split: watched.splits)

section \<open>The backup part of the CR\<close>

definition psmdbBackupAncestorLabel :: string where
  "psmdbBackupAncestorLabel = ''percona.com/backup-ancestor''"

definition psmdbDeleteBackupFinalizer :: string where
  "psmdbDeleteBackupFinalizer = ''percona.com/delete-backup''"

definition defaultBackupStartingTimeout :: nat where
  "defaultBackupStartingTimeout = 120"

definition backupAgentImage :: "lib \<Rightarrow> providerSpec \<Rightarrow> instance_t \<Rightarrow> string" where
  "backupAgentImage L spec i =
     (let v0 = comp_Version (compAt (in_Components i) ComponentBackupAgent);
          v1 = (if v0 = ''''
                then (case lib_resolveVersionBundle L spec (lib_effectiveBundleName L spec i) of
                        Inl _ \<Rightarrow> v0
                      | Inr bundle \<Rightarrow> (case bundle ComponentBackupAgent of None \<Rightarrow> '''' | Some v \<Rightarrow> v))
                else v0);
          image = lib_getImageForVersion L spec ComponentBackupAgent v1
      in if image \<noteq> '''' then image else lib_getDefaultImageForComponent L spec ComponentBackupAgent)"

definition pitrEnabled :: "instanceBackupStorage \<Rightarrow> bool" where
  "pitrEnabled s \<longleftrightarrow> ibs_PITR s = Some True"

text \<open>The last storage with recovery enabled, and an error when there are several.\<close>

definition pitrStorage :: "instanceBackupStorage list \<Rightarrow> go_error + instanceBackupStorage option" where
  "pitrStorage storages =
     (let enabled = filter pitrEnabled storages
      in if length enabled > 1
         then Inl (Errorf (''PSMDB supports at most one PITR-enabled storage, got '' @
                natString (length enabled) @ '': ['' @ joinWith '' '' (map ibs_StorageRef enabled) @ '']''))
         else Inr (case enabled of [] \<Rightarrow> None | s # _ \<Rightarrow> Some s))"

definition buildPSMDBPITRSpec :: "instanceBackupStorage list \<Rightarrow> go_error + bool" where
  "buildPSMDBPITRSpec storages = mapRight (\<lambda>s. s \<noteq> None) (pitrStorage storages)"

text \<open>One schedule; a retention by count without a count panics.\<close>

definition buildTask :: "string \<Rightarrow> schedule \<Rightarrow> go_error + backupTaskSpec" where
  "buildTask storageName s =
     (let task = \<lparr>bts_Name = sch_Name s, bts_Enabled = sch_Enabled s, bts_Schedule = sch_Cron s,
                  bts_StorageName = storageName, bts_Retention = None\<rparr>
      in case sch_Retention s of
           None \<Rightarrow> Inr task
         | Some r \<Rightarrow>
             (case ret_Type r of
                RetentionOther t \<Rightarrow> Inl (Errorf (''schedule '' @ quote (sch_Name s) @ '': '' @ t @
                  '' retention is not supported by PSMDB, use count''))
              | RetentionCount \<Rightarrow>
                  (case ret_Count r of
                     None \<Rightarrow> Inl (Panic ''nil pointer dereference'')
                   | Some n \<Rightarrow> Inr (task\<lparr>bts_Retention := Some \<lparr>tr_Count = i32 n, tr_DeleteFromStorage = True\<rparr>\<rparr>))))"

fun collectRight :: "(go_error + 'a) list \<Rightarrow> go_error + 'a list" where
  "collectRight [] = Inr []"
| "collectRight (r # rs) = (case r of Inl e \<Rightarrow> Inl e | Inr x \<Rightarrow> mapRight ((#) x) (collectRight rs))"

definition buildPSMDBTasks :: "instanceBackupStorage list \<Rightarrow> go_error + backupTaskSpec list" where
  "buildPSMDBTasks storages =
     collectRight (concat (map (\<lambda>st. map (buildTask (ibs_StorageRef st)) (ibs_Schedules st)) storages))"

definition selectMainStorageName :: "instanceBackupStorage list \<Rightarrow> string" where
  "selectMainStorageName storages =
     (case List.find pitrEnabled storages of
        Some s \<Rightarrow> ibs_StorageRef s
      | None \<Rightarrow> (case storages of [] \<Rightarrow> '''' | s # _ \<Rightarrow> ibs_StorageRef s))"

text \<open>The S3 descriptor of a storage; an unset \<^verbatim>\<open>verifyTLS\<close> reads as false.\<close>

definition s3SpecOf :: "s3Storage \<Rightarrow> string \<Rightarrow> s3Spec" where
  "s3SpecOf s3 pre =
     \<lparr>s3_Bucket = s3s_Bucket s3, s3_Prefix = pre, s3_Region = s3s_Region s3,
      s3_EndpointURL = s3s_EndpointURL s3, s3_CredentialsSecret = s3s_CredentialsSecretRef s3,
      s3_InsecureSkipTLSVerify = (case s3s_VerifyTLS s3 of None \<Rightarrow> True | Some v \<Rightarrow> \<not> v),
      s3_ForcePathStyle = s3s_ForcePathStyle s3\<rparr>"

fun buildStoragesLoop ::
  "env \<Rightarrow> string \<Rightarrow> instanceBackupStorage list \<Rightarrow> (string \<rightharpoonup> backupStorageSpec) \<Rightarrow> (string \<rightharpoonup> backupStorageSpec) act" where
  "buildStoragesLoop E mainName [] out = returnIO out"
| "buildStoragesLoop E mainName (entry # rest) out =
     handleIO (getBackupStorage E (ibs_StorageRef entry)) (\<lambda>r. case r of
       Inl e \<Rightarrow> if isNotFound e
                then failIO (WaitFor (''BackupStorage '' @ quote (ibs_StorageRef entry) @ '' not yet present''))
                else failIO e
     | Inr bs \<Rightarrow>
         (case bst_S3 bs of
            None \<Rightarrow> buildStoragesLoop E mainName rest out
          | Some s3 \<Rightarrow> buildStoragesLoop E mainName rest (out(ibs_StorageRef entry \<mapsto>
              \<lparr>bss_Type = ''s3'', bss_Main = (ibs_StorageRef entry = mainName), bss_S3 = s3SpecOf s3 ''''\<rparr>))))"

definition buildPSMDBStorages ::
  "env \<Rightarrow> instanceBackupStorage list \<Rightarrow> (string \<rightharpoonup> backupStorageSpec) act" where
  "buildPSMDBStorages E storages =
     buildStoragesLoop E (selectMainStorageName storages) storages Map.empty"

text \<open>
  An error becomes a \<^verbatim>\<open>BackupConfigError\<close> with its text; a panic stays one.
\<close>

definition orConfigError :: "lib \<Rightarrow> string \<Rightarrow> 'a act \<Rightarrow> 'a act" where
  "orConfigError L reason m =
     handleIO m (\<lambda>r. case r of
       Inl e \<Rightarrow> if isPanic e then failIO e else failIO (BackupConfigError reason (errText (lib_errText L) e))
     | Inr x \<Rightarrow> returnIO x)"

definition baseBackupSpec :: "lib \<Rightarrow> providerSpec \<Rightarrow> instance_t \<Rightarrow> backupSpec" where
  "baseBackupSpec L spec i =
     zeroBackupSpec\<lparr>bk_Image := backupAgentImage L spec i,
       bk_Options := Some \<lparr>bo_StartingTimeout = defaultBackupStartingTimeout, bo_Priority = Map.empty\<rparr>,
       bk_Resources := \<lparr>rr_Limits = Some [ResourceMemory \<mapsto> qG 1, ResourceCPU \<mapsto> qMilli 300],
                        rr_Requests = None\<rparr>\<rparr>"

definition buildBackupSpec :: "lib \<Rightarrow> env \<Rightarrow> ctx \<Rightarrow> backupSpec act" where
  "buildBackupSpec L E c =
     bindIO (wrapIO ''get provider spec'' (readProviderSpec E)) (\<lambda>spec.
       let bs = baseBackupSpec L spec (c_Instance c)
       in case in_Backup (c_Instance c) of
            None \<Rightarrow> returnIO bs
          | Some backupCfg \<Rightarrow>
              (if \<not> ib_Enabled backupCfg then returnIO bs
               else bindIO (orConfigError L ''StorageResolutionFailed'' (buildPSMDBStorages E (ib_Storages backupCfg))) (\<lambda>storages.
                    bindIO (orConfigError L ''PITRConfigInvalid'' (liftIO (buildPSMDBPITRSpec (ib_Storages backupCfg)))) (\<lambda>pitrSpec.
                    bindIO (orConfigError L ''RetentionTypeUnsupported'' (liftIO (buildPSMDBTasks (ib_Storages backupCfg)))) (\<lambda>tasks.
                    returnIO (bs\<lparr>bk_Enabled := True, bk_Storages := storages, bk_Tasks := tasks, bk_PITR := pitrSpec\<rparr>))))))"

section \<open>Mirroring scheduled backups\<close>

definition providerName :: string where
  "providerName = ''percona-server-mongodb''"

definition Mirror :: "env \<Rightarrow> watched \<Rightarrow> backup option act" where
  "Mirror E obj =
     (case obj of
        OOpBackup ub \<Rightarrow>
          (let taskName = (case map_of (ob_Labels ub) psmdbBackupAncestorLabel of None \<Rightarrow> '''' | Some t \<Rightarrow> t)
           in if taskName = '''' then returnIO None
              else handleIO (getInstanceIn E (ob_Namespace ub) (ob_ClusterName ub)) (\<lambda>r. case r of
                Inl e \<Rightarrow> if isNotFound e then returnIO None
                         else failIO (Wrap (''get parent Instance '' @ quote (ob_ClusterName ub)) e)
              | Inr inst \<Rightarrow>
                  (if in_ProviderRef inst \<noteq> providerName then returnIO None
                   else case in_Backup inst of
                     None \<Rightarrow> returnIO None
                   | Some cfg \<Rightarrow>
                       (if ib_ClassRef cfg = '''' then returnIO None
                        else returnIO (Some
                          \<lparr>bkp_Name = ob_Name ub, bkp_Namespace = ob_Namespace ub,
                           bkp_OriginType = OriginInstance, bkp_InstanceRef = Some (ob_ClusterName ub),
                           bkp_External = None, bkp_ClassRef = ib_ClassRef cfg,
                           bkp_StorageRef = ob_StorageName ub, bkp_ScheduleName = taskName,
                           bkp_DeletionPolicy = DeletionPolicyOther '''', bkp_State = BackupStateOther '''',
                           bkp_CompletedAt = None, bkp_OperatorBackupRef = None\<rparr>)))))
      | _ \<Rightarrow> returnIO None)"

section \<open>Recovery windows\<close>

datatype pitrState = PITRStateAvailable | PITRStateUnavailable

record pitrStatus =
  pw_Earliest :: "time option"
  pw_Latest :: "time option"
  pw_State :: pitrState
  pw_Reason :: string
  pw_Message :: string

definition pitrReasonWindowAvailable :: string where
  "pitrReasonWindowAvailable = ''WindowAvailable''"

definition pitrReasonNoBackups :: string where
  "pitrReasonNoBackups = ''NoRestorableBackup''"

text \<open>A ready backup of the cluster on the storage; \<^verbatim>\<open>status\<close> names the storage when \<^verbatim>\<open>spec\<close> does not.\<close>

definition onStorage :: "string \<Rightarrow> string \<Rightarrow> opBackup \<Rightarrow> bool" where
  "onStorage cluster st b \<longleftrightarrow>
     ob_ClusterName b = cluster \<and>
     (if ob_StorageName b = '''' then obs_StorageName (ob_Status b) else ob_StorageName b) = st \<and>
     obs_State (ob_Status b) = OpBackupReady \<and> obs_CompletedAt (ob_Status b) \<noteq> None"

definition completedAt :: "opBackup \<Rightarrow> time" where
  "completedAt b = (case obs_CompletedAt (ob_Status b) of None \<Rightarrow> 0 | Some t \<Rightarrow> t)"

definition collectStorageBackups :: "opBackup list \<Rightarrow> string \<Rightarrow> string \<Rightarrow> opBackup list" where
  "collectStorageBackups allBackups cluster st = sort_key completedAt (filter (onStorage cluster st) allBackups)"

text \<open>The loop for the newest \<^verbatim>\<open>latestRestorableTime\<close>.\<close>

definition latestStep :: "opBackup \<Rightarrow> time option \<Rightarrow> time option" where
  "latestStep b latest =
     (case obs_LatestRestorableTime (ob_Status b) of
        None \<Rightarrow> latest
      | Some t \<Rightarrow> (case latest of None \<Rightarrow> Some t | Some l \<Rightarrow> if l < t then Some t else latest))"

definition latestRestorable :: "opBackup list \<Rightarrow> time option" where
  "latestRestorable bs = fold latestStep bs None"

definition pitrWindow :: "opBackup list \<Rightarrow> pitrStatus" where
  "pitrWindow backups =
     (case backups of
        [] \<Rightarrow> \<lparr>pw_Earliest = None, pw_Latest = None, pw_State = PITRStateUnavailable,
               pw_Reason = pitrReasonNoBackups, pw_Message = ''No ready backup on this storage yet''\<rparr>
      | oldest # _ \<Rightarrow>
          (case latestRestorable backups of
             None \<Rightarrow> \<lparr>pw_Earliest = None, pw_Latest = None, pw_State = PITRStateUnavailable,
                      pw_Reason = pitrReasonNoBackups,
                      pw_Message = ''Waiting for PBM to report a restorable time''\<rparr>
           | Some latest \<Rightarrow> \<lparr>pw_Earliest = obs_CompletedAt (ob_Status oldest), pw_Latest = Some latest,
                             pw_State = PITRStateAvailable, pw_Reason = pitrReasonWindowAvailable,
                             pw_Message = ''''\<rparr>))"

definition BackupStorageStatuses :: "env \<Rightarrow> ctx \<Rightarrow> (string \<times> pitrStatus option) list act" where
  "BackupStorageStatuses E c =
     (case in_Backup (c_Instance c) of
        None \<Rightarrow> returnIO []
      | Some backupCfg \<Rightarrow>
          (if \<not> ib_Enabled backupCfg then returnIO []
           else bindIO (wrapIO ''list PSMDB backups'' (listOpBackups E)) (\<lambda>list.
             returnIO (map (\<lambda>s. (ibs_StorageRef s,
               if pitrEnabled s then Some (pitrWindow (collectStorageBackups list (c_Name c) (ibs_StorageRef s)))
               else None)) (ib_Storages backupCfg)))))"

section \<open>Lemmas\<close>

interpretation latest_time: newest_pick "\<lambda>b. obs_LatestRestorableTime (ob_Status b)" id latestRestorable
  by unfold_locales (auto simp: latestRestorable_def latestStep_def split: option.splits)

lemma readOnly_buildStoragesLoop [read_only_intros]: "readOnly (buildStoragesLoop E m ss out)"
  by (induction ss arbitrary: out)
    (auto intro!: emits_handle read_only_intros split: sum.splits option.splits)

lemma readOnly_orConfigError [read_only_intros]: "readOnly m \<Longrightarrow> readOnly (orConfigError L r m)"
  unfolding orConfigError_def by (intro emits_handle) (auto split: sum.splits)

lemma readOnly_buildBackupSpec [read_only_intros]: "readOnly (buildBackupSpec L E c)"
  unfolding buildBackupSpec_def buildPSMDBStorages_def Let_def
  by (auto intro!: emits_bind emits_wrap read_only_intros split: option.splits)

lemma readOnly_Mirror [read_only_intros]: "readOnly (Mirror E obj)"
  by (auto simp: Mirror_def Let_def intro!: emits_handle read_only_intros
      split: watched.splits sum.splits option.splits)

lemma readOnly_BackupStorageStatuses [read_only_intros]: "readOnly (BackupStorageStatuses E c)"
  by (auto simp: BackupStorageStatuses_def intro!: emits_bind emits_wrap read_only_intros split: option.splits)

lemma orConfigError_Inr [io_simps]: "orConfigError L r m h = (Inr x, h') \<longleftrightarrow> m h = (Inr x, h')"
  by (auto simp: orConfigError_def handleIO_def io_defs split: prod.splits sum.splits if_splits)

text \<open>Collecting the schedules keeps each of them, in order, or fails with the first failure.\<close>

lemma collectRight_Inr: "collectRight rs = Inr xs \<longleftrightarrow> rs = map Inr xs"
proof
  show "collectRight rs = Inr xs \<Longrightarrow> rs = map Inr xs"
    by (induction rs arbitrary: xs) (auto simp: mapRight_def split: sum.splits)
  have "collectRight (map Inr xs) = Inr xs"
    by (induction xs) (simp_all add: mapRight_def)
  then show "rs = map Inr xs \<Longrightarrow> collectRight rs = Inr xs" by simp
qed

lemma collectRight_Inl: "collectRight rs = Inl e \<Longrightarrow> Inl e \<in> set rs"
  by (induction rs) (auto simp: mapRight_def split: sum.splits)

definition schedulesOf :: "instanceBackupStorage list \<Rightarrow> (string \<times> schedule) list" where
  "schedulesOf storages = concat (map (\<lambda>st. map (Pair (ibs_StorageRef st)) (ibs_Schedules st)) storages)"

lemma buildPSMDBTasks_schedules:
  "buildPSMDBTasks storages = collectRight (map (\<lambda>(st, s). buildTask st s) (schedulesOf storages))"
  by (simp add: buildPSMDBTasks_def schedulesOf_def map_concat comp_def)

lemma buildTask_Inr:
  assumes "buildTask st s = Inr t"
  shows "bts_Name t = sch_Name s" "bts_Enabled t = sch_Enabled s" "bts_Schedule t = sch_Cron s"
    "bts_StorageName t = st"
    "bts_Retention t = map_option (\<lambda>r. \<lparr>tr_Count = (case ret_Count r of None \<Rightarrow> 0 | Some n \<Rightarrow> i32 n),
       tr_DeleteFromStorage = True\<rparr>) (sch_Retention s)"
  using assms by (auto simp: buildTask_def Let_def split: option.splits retentionType.splits)

lemma buildTask_Inl:
  "buildTask st s = Inl e \<Longrightarrow> \<exists>r. sch_Retention s = Some r \<and>
     ((\<exists>k. ret_Type r = RetentionOther k \<and> \<not> isPanic e) \<or>
      (ret_Type r = RetentionCount \<and> ret_Count r = None \<and> isPanic e))"
  by (auto simp: buildTask_def Let_def split: option.splits retentionType.splits)

lemma buildPSMDBTasks_ok:
  assumes "buildPSMDBTasks storages = Inr tasks"
  shows "list_all2 (\<lambda>(st, s) t. buildTask st s = Inr t) (schedulesOf storages) tasks"
  using assms by (auto simp: buildPSMDBTasks_schedules collectRight_Inr list_all2_conv_all_nth
      dest: map_eq_imp_length_eq) (metis (no_types, lifting) length_map nth_map split_conv)

text \<open>Which storages have recovery enabled.\<close>

lemma pitrStorage_Inr:
  "pitrStorage storages = Inr (Some s) \<Longrightarrow> filter pitrEnabled storages = [s]"
  by (auto simp: pitrStorage_def Let_def split: if_splits list.splits)

lemma find_pitrEnabled:
  "filter pitrEnabled storages = [s] \<Longrightarrow> List.find pitrEnabled storages = Some s"
  by (induction storages) (auto split: if_splits)

lemma buildStoragesLoop_main:
  assumes "buildStoragesLoop E m ss out h = (Inr out', h')"
    and "\<And>n s. out n = Some s \<Longrightarrow> bss_Main s = (n = m)"
  shows "out' n = Some s \<Longrightarrow> bss_Main s = (n = m)"
    and "dom out' \<subseteq> dom out \<union> ibs_StorageRef ` set ss"
proof -
  have "(out' n = Some s \<longrightarrow> bss_Main s = (n = m)) \<and> dom out' \<subseteq> dom out \<union> ibs_StorageRef ` set ss"
    using assms
  proof (induction ss arbitrary: out h)
    case Nil
    then show ?case by (auto simp: io_simps)
  next
    case (Cons e ss)
    obtain bs where bs: "env_backupStorage E h (ibs_StorageRef e) = Inr bs"
      using Cons.prems(1) by (auto simp: handleIO_def call_defs io_simps split: prod.splits sum.splits if_splits)
    show ?case
    proof (cases "bst_S3 bs")
      case None
      then have run: "buildStoragesLoop E m ss out (h @ [Get KBackupStorage (ibs_StorageRef e)]) = (Inr out', h')"
        using Cons.prems(1) bs by (simp add: handleIO_def call_defs callIO_def)
      show ?thesis
        using Cons.IH [OF run Cons.prems(2)] by auto
    next
      case (Some s3)
      define out1 where "out1 = out(ibs_StorageRef e \<mapsto>
        \<lparr>bss_Type = ''s3'', bss_Main = (ibs_StorageRef e = m), bss_S3 = s3SpecOf s3 ''''\<rparr>)"
      have main: "\<And>n s. out1 n = Some s \<Longrightarrow> bss_Main s = (n = m)"
        using Cons.prems(2) by (auto simp: out1_def split: if_splits)
      have run: "buildStoragesLoop E m ss out1 (h @ [Get KBackupStorage (ibs_StorageRef e)]) = (Inr out', h')"
        using Cons.prems(1) bs Some by (simp add: handleIO_def call_defs callIO_def out1_def)
      show ?thesis
        using Cons.IH [OF run main] by (auto simp: out1_def)
    qed
  qed
  then show "out' n = Some s \<Longrightarrow> bss_Main s = (n = m)" "dom out' \<subseteq> dom out \<union> ibs_StorageRef ` set ss"
    by blast+
qed

text \<open>The recovery window of a list in any order by completion.\<close>

lemma pitrWindow_sorted:
  assumes same: "set xs = set ys" and sorted: "sorted (map completedAt xs)" "sorted (map completedAt ys)"
    and completed: "\<forall>b \<in> set xs. obs_CompletedAt (ob_Status b) \<noteq> None"
  shows "pitrWindow xs = pitrWindow ys"
proof (cases xs)
  case Nil
  with same show ?thesis by simp
next
  case (Cons x xs')
  with same obtain y ys' where ys: "ys = y # ys'" by (cases ys) auto
  have "x \<in> set ys" "y \<in> set xs" using Cons ys same by auto
  then have "completedAt x = completedAt y"
    using sorted Cons ys by (auto intro!: antisym)
  then have "obs_CompletedAt (ob_Status x) = obs_CompletedAt (ob_Status y)"
    using completed \<open>y \<in> set xs\<close> Cons by (auto simp: completedAt_def)
  moreover have "latestRestorable xs = latestRestorable ys"
    using latest_time.pick_stamp_perm [OF same] by (simp add: option.map_id)
  ultimately show ?thesis
    using Cons ys by (simp add: pitrWindow_def split: option.split)
qed

definition restorableEnds :: "opBackup set \<Rightarrow> time set" where
  "restorableEnds ready = {t. \<exists>b \<in> ready. obs_LatestRestorableTime (ob_Status b) = Some t}"

lemma finite_restorableEnds: "finite ready \<Longrightarrow> finite (restorableEnds ready)"
proof -
  assume "finite ready"
  moreover have "Some ` restorableEnds ready \<subseteq> (\<lambda>b. obs_LatestRestorableTime (ob_Status b)) ` ready"
    by (auto simp: restorableEnds_def rev_image_eqI)
  ultimately show ?thesis by (meson finite_imageD finite_imageI finite_subset inj_Some)
qed

lemma latestRestorable_Max:
  "latestRestorable ys = (if restorableEnds (set ys) = {} then None else Some (Max (restorableEnds (set ys))))"
proof (cases "latestRestorable ys")
  case None
  then have "restorableEnds (set ys) = {}"
    using latest_time.pick_None [of ys] by (auto simp: restorableEnds_def)
  with None show ?thesis by simp
next
  case (Some t)
  then have "t \<in> restorableEnds (set ys)" "\<forall>u \<in> restorableEnds (set ys). u \<le> t"
    using latest_time.pick_seen [OF Some] latest_time.pick_newest [OF Some] by (auto simp: restorableEnds_def)
  then have "Max (restorableEnds (set ys)) = t" "restorableEnds (set ys) \<noteq> {}"
    by (auto intro!: Max_eqI finite_restorableEnds)
  with Some show ?thesis by simp
qed

lemma sorted_hd_Min:
  assumes "sorted (map f (y # ys))"
  shows "f y = Min (f ` set (y # ys))"
  using assms by (intro Min_eqI [symmetric]) auto

section \<open>Properties\<close>

text \<open>C35. The backup storages written into the CR are consistent: each is one the Instance configures, exactly
  the chosen storage is marked main, and when recovery to a point in time is on, the main storage
  is the one with recovery enabled, which is unique. Nothing is written while they are built.\<close>

theorem backup_main_storage:
  assumes run: "buildBackupSpec L E c h = (Inr bs, h')" and enabled: "bk_Enabled bs"
  shows "\<exists>cfg. in_Backup (c_Instance c) = Some cfg \<and>
    dom (bk_Storages bs) \<subseteq> ibs_StorageRef ` set (ib_Storages cfg) \<and>
    (\<forall>n s. bk_Storages bs n = Some s \<longrightarrow> (bss_Main s \<longleftrightarrow> n = selectMainStorageName (ib_Storages cfg))) \<and>
    (bk_PITR bs \<longrightarrow> (\<exists>s. filter pitrEnabled (ib_Storages cfg) = [s] \<and>
       selectMainStorageName (ib_Storages cfg) = ibs_StorageRef s)) \<and>
    (\<not> bk_PITR bs \<longrightarrow> filter pitrEnabled (ib_Storages cfg) = []) \<and> writes h' = writes h"
proof -
  obtain cfg spec h1 storages h2 pitr tasks where
    cfg: "in_Backup (c_Instance c) = Some cfg" and
    st: "buildPSMDBStorages E (ib_Storages cfg) h1 = (Inr storages, h2)" and
    pitr: "buildPSMDBPITRSpec (ib_Storages cfg) = Inr pitr" and
    bs: "bs = (baseBackupSpec L spec (c_Instance c))\<lparr>bk_Enabled := True, bk_Storages := storages,
           bk_Tasks := tasks, bk_PITR := pitr\<rparr>"
    using run enabled
    by (auto simp: buildBackupSpec_def Let_def io_simps baseBackupSpec_def zeroBackupSpec_def
        split: option.splits if_splits)
  have main: "storages n = Some s \<Longrightarrow> bss_Main s = (n = selectMainStorageName (ib_Storages cfg))" for n s
    using buildStoragesLoop_main(1) [OF st [unfolded buildPSMDBStorages_def]] by simp
  have "dom storages \<subseteq> ibs_StorageRef ` set (ib_Storages cfg)"
    using buildStoragesLoop_main(2) [OF st [unfolded buildPSMDBStorages_def]] by simp
  moreover have "pitr \<Longrightarrow> \<exists>s. filter pitrEnabled (ib_Storages cfg) = [s] \<and>
       selectMainStorageName (ib_Storages cfg) = ibs_StorageRef s"
    using pitr pitrStorage_Inr find_pitrEnabled
    by (fastforce simp: buildPSMDBPITRSpec_def mapRight_def selectMainStorageName_def split: sum.splits)
  moreover have "\<not> pitr \<Longrightarrow> filter pitrEnabled (ib_Storages cfg) = []"
    using pitr by (auto simp: buildPSMDBPITRSpec_def mapRight_def pitrStorage_def Let_def
        split: sum.splits if_splits list.splits)
  ultimately show ?thesis
    using cfg bs main readOnly_writes [OF readOnly_buildBackupSpec run] by simp
qed

text \<open>No schedule is lost and none is changed: the operator's tasks are the Instance's schedules in order,
  disabled ones included, each with its name, cron line, storage and count of kept backups; the only
  failures are a retention that is not by count, or one by count without its count (a panic).\<close>

theorem schedules_become_tasks:
  "(case buildPSMDBTasks storages of
      Inr tasks \<Rightarrow>
        map (\<lambda>t. (bts_StorageName t, bts_Name t, bts_Enabled t, bts_Schedule t)) tasks =
          map (\<lambda>(st, s). (st, sch_Name s, sch_Enabled s, sch_Cron s)) (schedulesOf storages) \<and>
        map (\<lambda>t. map_option tr_Count (bts_Retention t)) tasks =
          map (\<lambda>(st, s). map_option (\<lambda>r. case ret_Count r of None \<Rightarrow> 0 | Some n \<Rightarrow> i32 n) (sch_Retention s))
            (schedulesOf storages)
    | Inl e \<Rightarrow> \<exists>(st, s) \<in> set (schedulesOf storages). \<exists>r. sch_Retention s = Some r \<and>
        (if isPanic e then ret_Type r = RetentionCount \<and> ret_Count r = None else ret_Type r \<noteq> RetentionCount))"
proof (cases "buildPSMDBTasks storages")
  case (Inl e)
  then obtain st s where "(st, s) \<in> set (schedulesOf storages)" "buildTask st s = Inl e"
    by (auto simp: buildPSMDBTasks_schedules dest!: collectRight_Inl)
  with Inl show ?thesis by (fastforce dest: buildTask_Inl)
next
  case (Inr tasks)
  have "list_all2 (\<lambda>(st, s) t. (st, sch_Name s, sch_Enabled s, sch_Cron s) =
        (bts_StorageName t, bts_Name t, bts_Enabled t, bts_Schedule t) \<and>
      map_option (\<lambda>r. case ret_Count r of None \<Rightarrow> 0 | Some n \<Rightarrow> i32 n) (sch_Retention s) =
        map_option tr_Count (bts_Retention t)) (schedulesOf storages) tasks"
    using buildPSMDBTasks_ok [OF Inr]
    by (rule list_all2_mono) (auto simp: buildTask_Inr option.map_comp comp_def)
  then show ?thesis
    using Inr by (auto simp: list_all2_conv_all_nth intro!: nth_equalityI split: prod.splits)
qed

text \<open>Scheduled backups are mirrored faithfully: \<^verbatim>\<open>Mirror\<close> yields a Backup only for an operator backup that a
  schedule produced on an Instance of this provider with a backup class; it carries the operator
  backup's name, namespace, cluster, storage and schedule; and nothing is written.\<close>

theorem mirror_only_scheduled:
  assumes "Mirror E obj h = (Inr (Some b), h')"
  shows "\<exists>ub inst cfg. obj = OOpBackup ub \<and>
    env_instanceIn E h (ob_Namespace ub) (ob_ClusterName ub) = Inr inst \<and>
    in_ProviderRef inst = ''percona-server-mongodb'' \<and> in_Backup inst = Some cfg \<and> ib_ClassRef cfg \<noteq> '''' \<and>
    map_of (ob_Labels ub) ''percona.com/backup-ancestor'' = Some (bkp_ScheduleName b) \<and> bkp_ScheduleName b \<noteq> '''' \<and>
    bkp_Name b = ob_Name ub \<and> bkp_Namespace b = ob_Namespace ub \<and> bkp_OriginType b = OriginInstance \<and>
    bkp_InstanceRef b = Some (ob_ClusterName ub) \<and> bkp_StorageRef b = ob_StorageName ub \<and>
    bkp_ClassRef b = ib_ClassRef cfg \<and> writes h' = writes h"
proof -
  have "writes h' = writes h" using readOnly_writes [OF readOnly_Mirror assms] .
  then show ?thesis
    using assms
    by (auto simp: Mirror_def Let_def handleIO_def call_defs io_simps providerName_def
        psmdbBackupAncestorLabel_def split: watched.splits option.splits sum.splits if_splits prod.splits)
qed

text \<open>C31. The recovery window is exactly what the ready backups of the storage allow: it is available if and
  only if there is one and some backup of them has a restorable time; then it runs from the earliest
  completion to the latest restorable time. The order in which equal completion times are sorted
  does not matter: any sorting of the same backups gives the same window.\<close>

theorem recovery_window_exact:
  assumes ys: "mset ys = mset (filter (onStorage cluster st) bs)" "sorted (map completedAt ys)"
  shows "pitrWindow (collectStorageBackups bs cluster st) = pitrWindow ys \<and>
    (pw_State (pitrWindow ys) = PITRStateAvailable \<longleftrightarrow> restorableEnds (set (filter (onStorage cluster st) bs)) \<noteq> {}) \<and>
    (pw_State (pitrWindow ys) = PITRStateAvailable \<longrightarrow>
       pw_Earliest (pitrWindow ys) = Some (Min (completedAt ` set (filter (onStorage cluster st) bs))) \<and>
       pw_Latest (pitrWindow ys) = Some (Max (restorableEnds (set (filter (onStorage cluster st) bs)))))"
proof -
  let ?ready = "filter (onStorage cluster st) bs"
  have same: "set ?ready = set ys" using ys(1) by (metis set_mset_mset)
  have completed: "\<forall>b \<in> set ys. obs_CompletedAt (ob_Status b) \<noteq> None"
    unfolding same [symmetric] by (simp add: onStorage_def)
  have eq: "pitrWindow (collectStorageBackups bs cluster st) = pitrWindow ys"
    unfolding collectStorageBackups_def
    using same completed ys(2) by (intro pitrWindow_sorted) simp_all
  show ?thesis
  proof (cases ys)
    case Nil
    with same eq show ?thesis by (simp add: pitrWindow_def restorableEnds_def)
  next
    case (Cons y ys')
    have "completedAt y = Min (completedAt ` set ys)"
      using ys(2) unfolding Cons by (rule sorted_hd_Min)
    moreover have "obs_CompletedAt (ob_Status y) = Some (completedAt y)"
      using completed Cons by (auto simp: completedAt_def)
    ultimately show ?thesis
      unfolding same using eq Cons latestRestorable_Max [of ys] by (simp add: pitrWindow_def)
  qed
qed

section \<open>Two observations\<close>

text \<open>
  A storage that is not there yet makes \<^const>\<open>buildPSMDBStorages\<close> ask to wait, but the caller turns
  this into a configuration error, so the Sync fails instead of waiting.
\<close>

lemma missing_storage_fails_sync:
  assumes "in_Backup (c_Instance c) = Some cfg" "ib_Enabled cfg" "ib_Storages cfg = s # rest"
    and "env_providerSpec E h = Inr spec"
    and "env_backupStorage E (h @ [ReadProviderSpec]) (ibs_StorageRef s) = Inl (APINotFound n)"
  shows "\<exists>m. fst (buildBackupSpec L E c h) = Inl (BackupConfigError ''StorageResolutionFailed'' m)"
  using assms
  by (simp add: buildBackupSpec_def buildPSMDBStorages_def orConfigError_def call_defs io_defs Let_def)

text \<open>
  The storage chosen as main may be one that is skipped because it is not S3; then no storage of
  the CR is main, although recovery to a point in time is on.
\<close>

lemma skipped_main_storage:
  assumes "env_backupStorage E h ''fs'' = Inr \<lparr>bst_Name = ''fs'', bst_S3 = None\<rparr>"
  shows "fst (buildPSMDBStorages E [\<lparr>ibs_StorageRef = ''fs'', ibs_PITR = Some True, ibs_Schedules = []\<rparr>] h) =
      Inr Map.empty \<and>
    buildPSMDBPITRSpec [\<lparr>ibs_StorageRef = ''fs'', ibs_PITR = Some True, ibs_Schedules = []\<rparr>] = Inr True"
  using assms
  by (simp add: buildPSMDBStorages_def call_defs io_defs buildPSMDBPITRSpec_def pitrStorage_def
      pitrEnabled_def mapRight_def)

section \<open>Witnesses\<close>

definition pitrBackup :: instanceBackup where
  "pitrBackup = \<lparr>ib_Enabled = True, ib_ClassRef = ''pbm'',
     ib_Storages = [\<lparr>ibs_StorageRef = ''s3'', ibs_PITR = Some True, ibs_Schedules = []\<rparr>]\<rparr>"

definition pitrCtx :: ctx where
  "pitrCtx = bareCtx\<lparr>c_Instance := bareInstance\<lparr>in_Backup := Some pitrBackup\<rparr>\<rparr>"

definition sampleBucket :: s3Storage where
  "sampleBucket = \<lparr>s3s_Bucket = ''b'', s3s_Region = ''r'', s3s_EndpointURL = ''e'', s3s_CredentialsSecretRef = ''c'',
     s3s_VerifyTLS = Some True, s3s_ForcePathStyle = None\<rparr>"

definition bucketCluster :: env where
  "bucketCluster = emptyCluster\<lparr>env_backupStorage := \<lambda>h n. Inr \<lparr>bst_Name = n, bst_S3 = Some sampleBucket\<rparr>,
     env_instanceIn := \<lambda>h ns n. Inr (bareInstance\<lparr>in_Backup := Some pitrBackup\<rparr>)\<rparr>"

theorem backup_main_storage_witness:
  "\<exists>bs h' s. buildBackupSpec plainLib bucketCluster pitrCtx [] = (Inr bs, h') \<and>
     bk_PITR bs \<and> bk_Storages bs ''s3'' = Some s \<and> bss_Main s"
proof -
  obtain bs h' where run: "buildBackupSpec plainLib bucketCluster pitrCtx [] = (Inr bs, h')" and
    bs: "bk_Enabled bs" "bk_PITR bs" "''s3'' \<in> dom (bk_Storages bs)"
    by (simp add: buildBackupSpec_def buildPSMDBStorages_def buildPSMDBPITRSpec_def buildPSMDBTasks_def
        pitrStorage_def pitrEnabled_def orConfigError_def mapRight_def pitrCtx_def pitrBackup_def
        bucketCluster_def sample_defs call_defs io_defs Let_def)
  from backup_main_storage [OF run bs(1)] have
    "\<forall>n s. bk_Storages bs n = Some s \<longrightarrow> bss_Main s = (n = selectMainStorageName (ib_Storages pitrBackup))"
    by (auto simp: pitrCtx_def)
  moreover have "selectMainStorageName (ib_Storages pitrBackup) = ''s3''"
    by (simp add: selectMainStorageName_def pitrBackup_def pitrEnabled_def)
  moreover obtain s where "bk_Storages bs ''s3'' = Some s" using bs(3) by auto
  ultimately show ?thesis
    using run bs(2) by auto
qed

definition readyBackup :: opBackup where
  "readyBackup =
     \<lparr>ob_Name = ''b1'', ob_Namespace = ''db'', ob_Labels = [(''percona.com/backup-ancestor'', ''daily'')],
      ob_Finalizers = [], ob_Deleting = False, ob_Controller = None, ob_ClusterName = ''my-mongo'',
      ob_StorageName = ''s3'', ob_Status = \<lparr>obs_State = OpBackupReady, obs_Error = '''',
        obs_CompletedAt = Some 100, obs_LatestRestorableTime = Some 250, obs_StorageName = ''s3'',
        obs_Destination = ''s3://b/p'', obs_S3 = None, obs_Azure = None, obs_GCS = None, obs_Minio = None,
        obs_Filesystem = None, obs_Type = ''logical'', obs_PBMname = ''p''\<rparr>\<rparr>"

theorem mirror_only_scheduled_witness:
  "\<exists>b h'. Mirror bucketCluster (OOpBackup readyBackup) [] = (Inr (Some b), h') \<and>
     bkp_ScheduleName b = ''daily'' \<and> bkp_Name b = ''b1''"
proof -
  obtain b h' where run: "Mirror bucketCluster (OOpBackup readyBackup) [] = (Inr (Some b), h')"
    by (simp add: Mirror_def readyBackup_def psmdbBackupAncestorLabel_def bucketCluster_def sample_defs
        pitrBackup_def providerName_def call_defs io_defs Let_def)
  then show ?thesis
    using mirror_only_scheduled [OF run] by (auto simp: readyBackup_def)
qed

theorem recovery_window_exact_witness:
  "pw_State (pitrWindow [readyBackup]) = PITRStateAvailable \<and> pw_Latest (pitrWindow [readyBackup]) = Some 250"
proof -
  have on: "onStorage ''my-mongo'' ''s3'' readyBackup" by (simp add: onStorage_def readyBackup_def)
  have ends: "restorableEnds {readyBackup} = {250}" by (auto simp: restorableEnds_def readyBackup_def)
  have "mset [readyBackup] = mset (filter (onStorage ''my-mongo'' ''s3'') [readyBackup])"
    "sorted (map completedAt [readyBackup])"
    using on by simp_all
  from recovery_window_exact [OF this] show ?thesis
    using on ends by simp
qed

end
