(* ===== verification/Backup_Run.thy ===== *)
theory Backup_Run
  imports Backup_Spec
begin

text \<open>
  Running backups and restores (backup.go from \<^verbatim>\<open>SyncBackup\<close>): the operator resources that carry them
  out, the mapping of their states, the choice of a base backup, and their deletion.
  \<open>status_mapping\<close> and \<open>cleanup_contract\<close> state what backups and restores have in common.
  \<^verbatim>\<open>controllerutil.CreateOrUpdate\<close> reads the object, applies the mutation, and creates it or, only if it
  changed, updates it; the server rejects an update of an object that changed since it was read, so
  the status after the call is the status that was read.
\<close>

section \<open>Execution status\<close>

record 's execStatus =
  es_State :: 's
  es_Message :: string
  es_CompletedAt :: "time option"
  es_OperatorRef :: "string option"

text \<open>
  The contract: the operator's ready and error states are the only ones that end a run, the error text
  is passed on, and a completion time is set exactly on success.
\<close>

locale status_mapping =
  fixes toExec :: "env \<Rightarrow> string \<Rightarrow> 'op \<Rightarrow> string \<Rightarrow> 's execStatus act"
    and ready error :: 'op and active :: "'op set"
    and succeeded failed running pending :: 's
  assumes states_distinct: "distinct [succeeded, failed, running, pending]"
    and op_distinct: "ready \<noteq> error" "ready \<notin> active" "error \<notin> active"
    and exec_ready: "toExec E n ready m h =
      (Inr \<lparr>es_State = succeeded, es_Message = '''', es_CompletedAt = Some (env_now E h), es_OperatorRef = Some n\<rparr>,
       h @ [ReadClock])"
    and exec_other: "op \<noteq> ready \<Longrightarrow> toExec E n op m h =
      (Inr \<lparr>es_State = (if op = error then failed else if op \<in> active then running else pending),
            es_Message = (if op = error then m else ''''), es_CompletedAt = None, es_OperatorRef = Some n\<rparr>, h)"
begin

lemma exec_state:
  assumes "toExec E n op m h = (Inr st, h')"
  shows "es_State st = succeeded \<longleftrightarrow> op = ready" "es_State st = failed \<longleftrightarrow> op = error"
    "es_State st = running \<longleftrightarrow> op \<in> active"
  using assms states_distinct op_distinct
  by (cases "op = ready"; auto simp: exec_ready exec_other split: if_splits)+

lemma exec_completed:
  "toExec E n op m h = (Inr st, h') \<Longrightarrow> es_CompletedAt st \<noteq> None \<longleftrightarrow> es_State st = succeeded"
  using states_distinct by (cases "op = ready") (auto simp: exec_ready exec_other split: if_splits)

lemma exec_message:
  assumes "toExec E n op m h = (Inr st, h')" "es_State st = failed"
  shows "es_Message st = m"
proof -
  have "op = error" using exec_state(2) [OF assms(1)] assms(2) by simp
  with assms(1) op_distinct(1) show ?thesis by (auto simp: exec_other)
qed

lemma exec_ref: "toExec E n op m h = (Inr st, h') \<Longrightarrow> es_OperatorRef st = Some n"
  by (cases "op = ready") (auto simp: exec_ready exec_other)

lemma exec_total: "\<exists>st h'. toExec E n op m h = (Inr st, h') \<and> writes h' = writes h"
  by (cases "op = ready") (auto simp: exec_ready exec_other writes_def)

lemma exec_readOnly: "readOnly (toExec E n op m)"
  unfolding emits_def by (cases "op = ready") (auto simp: exec_ready exec_other)

end

definition noExec :: "'s \<Rightarrow> string \<Rightarrow> 's execStatus" where
  "noExec s m = \<lparr>es_State = s, es_Message = m, es_CompletedAt = None, es_OperatorRef = None\<rparr>"

section \<open>Backups\<close>

definition zeroOpStatus :: opBackupStatus where
  "zeroOpStatus = \<lparr>obs_State = OpBackupOther '''', obs_Error = '''', obs_CompletedAt = None,
     obs_LatestRestorableTime = None, obs_StorageName = '''', obs_Destination = '''', obs_S3 = None,
     obs_Azure = None, obs_GCS = None, obs_Minio = None, obs_Filesystem = None, obs_Type = '''', obs_PBMname = ''''\<rparr>"

definition newOpBackup :: "backup \<Rightarrow> opBackup" where
  "newOpBackup b = \<lparr>ob_Name = bkp_Name b, ob_Namespace = bkp_Namespace b, ob_Labels = [], ob_Finalizers = [],
     ob_Deleting = False, ob_Controller = None, ob_ClusterName = '''', ob_StorageName = '''',
     ob_Status = zeroOpStatus\<rparr>"

definition addFinalizer :: "string \<Rightarrow> string list \<Rightarrow> string list" where
  "addFinalizer f fs = (if f \<in> set fs then fs else fs @ [f])"

text \<open>The mutation \<^verbatim>\<open>SyncBackup\<close> passes to \<^verbatim>\<open>CreateOrUpdate\<close>.\<close>

definition mutateOpBackup :: "lib \<Rightarrow> ctx \<Rightarrow> backup \<Rightarrow> opBackup \<Rightarrow> go_error + opBackup" where
  "mutateOpBackup L c b ob =
     (let ob1 = ob\<lparr>ob_ClusterName := c_Name c, ob_StorageName := bkp_StorageRef b,
                   ob_Finalizers := addFinalizer psmdbDeleteBackupFinalizer (ob_Finalizers ob)\<rparr>
      in mapRight (\<lambda>ctl. ob1\<lparr>ob_Controller := ctl\<rparr>)
           (lib_setControllerReference L (bkp_Name b) (ob_Controller ob)))"

text \<open>\<^verbatim>\<open>controllerutil.CreateOrUpdate\<close>, for any kind of object.\<close>

definition createOrUpdate ::
  "'o act \<Rightarrow> 'o \<Rightarrow> ('o \<Rightarrow> go_error + 'o) \<Rightarrow> ('o \<Rightarrow> unit act) \<Rightarrow> ('o \<Rightarrow> unit act) \<Rightarrow> 'o act" where
  "createOrUpdate getIt fresh mutate create update =
     handleIO getIt (\<lambda>r. case r of
       Inl e \<Rightarrow> if \<not> isNotFound e then failIO e
                else bindIO (liftIO (mutate fresh)) (\<lambda>ob. bindIO (create ob) (\<lambda>_. returnIO ob))
     | Inr existing \<Rightarrow>
         bindIO (liftIO (mutate existing)) (\<lambda>ob.
           if ob = existing then returnIO ob else bindIO (update ob) (\<lambda>_. returnIO ob)))"

definition backupExec :: "env \<Rightarrow> string \<Rightarrow> opBackupState \<Rightarrow> string \<Rightarrow> backupState execStatus act" where
  "backupExec E n op err =
     (let exec = \<lparr>es_State = BackupPending, es_Message = '''', es_CompletedAt = None, es_OperatorRef = Some n\<rparr>
      in case op of
           OpBackupReady \<Rightarrow> bindIO (readClock E) (\<lambda>now.
             returnIO (exec\<lparr>es_State := BackupSucceeded, es_CompletedAt := Some now\<rparr>))
         | OpBackupError \<Rightarrow> returnIO (exec\<lparr>es_State := BackupFailed, es_Message := err\<rparr>)
         | OpBackupRequested \<Rightarrow> returnIO (exec\<lparr>es_State := BackupRunning\<rparr>)
         | OpBackupRunning \<Rightarrow> returnIO (exec\<lparr>es_State := BackupRunning\<rparr>)
         | OpBackupWaiting \<Rightarrow> returnIO (exec\<lparr>es_State := BackupRunning\<rparr>)
         | OpBackupOther _ \<Rightarrow> returnIO exec)"

definition SyncBackup :: "lib \<Rightarrow> env \<Rightarrow> ctx \<Rightarrow> backup \<Rightarrow> backupState execStatus act" where
  "SyncBackup L E c b =
     handleIO (getPSMDB E (c_Name c)) (\<lambda>r. case r of
       Inl e \<Rightarrow> if isNotFound e
                then returnIO (noExec BackupPending ''Waiting for PerconaServerMongoDB cluster to exist'')
                else failIO (Wrap ''get PSMDB'' e)
     | Inr cr \<Rightarrow>
         (if bk_Storages (ps_Backup (cr_Spec cr)) (bkp_StorageRef b) = None
          then returnIO (noExec BackupPending
                 (''Waiting for storage '' @ quote (bkp_StorageRef b) @ '' to be registered on PSMDB cluster''))
          else bindIO (wrapIO ''create or update PSMDB backup''
                 (createOrUpdate (getOpBackup E (bkp_Name b)) (newOpBackup b) (mutateOpBackup L c b)
                    (\<lambda>ob. writeCall E (CreateOpBackup ob)) (\<lambda>ob. writeCall E (UpdateOpBackup ob)))) (\<lambda>ob.
               backupExec E (ob_Name ob) (obs_State (ob_Status ob)) (obs_Error (ob_Status ob)))))"

section \<open>Where a restore reads from\<close>

definition RecoveryTargetDate :: string where
  "RecoveryTargetDate = ''date''"

definition resolveBackupSource :: "env \<Rightarrow> restore \<Rightarrow> (restoreState execStatus + backup) act" where
  "resolveBackupSource E r =
     (case ds_Backup (res_DataSource r) of
        None \<Rightarrow> returnIO (Inl (noExec RestoreFailed ''Restore dataSource.backup.backupRef.name is required''))
      | Some name \<Rightarrow>
          (if name = ''''
           then returnIO (Inl (noExec RestoreFailed ''Restore dataSource.backup.backupRef.name is required''))
           else handleIO (getBackup E name) (\<lambda>a. case a of
                  Inl e \<Rightarrow> if isNotFound e
                           then returnIO (Inl (noExec RestorePending ''Waiting for source Backup''))
                           else failIO (Wrap ''get source Backup'' e)
                | Inr b \<Rightarrow>
                    (if bkp_State b = BackupFailed
                     then returnIO (Inl (noExec RestoreFailed ''Source Backup failed; cannot restore''))
                     else returnIO (Inr b)))))"

text \<open>A backup of the stream that a recovery to \<open>date\<close> may start from, with its completion time.\<close>

definition pitrCandidate :: "string \<Rightarrow> time option \<Rightarrow> backup \<Rightarrow> backup option" where
  "pitrCandidate storageName date b =
     (if bkp_StorageRef b \<noteq> storageName \<or> bkp_State b \<noteq> BackupSucceeded then None
      else case bkp_CompletedAt b of
             None \<Rightarrow> None
           | Some t \<Rightarrow> (case date of Some d \<Rightarrow> if d < t then None else Some b | None \<Rightarrow> Some b))"

definition backupStamp :: "backup \<Rightarrow> time" where
  "backupStamp b = (case bkp_CompletedAt b of None \<Rightarrow> 0 | Some t \<Rightarrow> t)"

definition baseStep :: "string \<Rightarrow> time option \<Rightarrow> backup \<Rightarrow> backup option \<Rightarrow> backup option" where
  "baseStep storageName date b best =
     (case pitrCandidate storageName date b of
        None \<Rightarrow> best
      | Some _ \<Rightarrow> (case best of
          None \<Rightarrow> Some b
        | Some old \<Rightarrow> if backupStamp old < backupStamp b then Some b else best))"

definition bestBase :: "string \<Rightarrow> time option \<Rightarrow> backup list \<Rightarrow> backup option" where
  "bestBase storageName date bs = fold (baseStep storageName date) bs None"

definition selectPITRBaseBackup ::
  "lib \<Rightarrow> env \<Rightarrow> string \<Rightarrow> string \<Rightarrow> string \<Rightarrow> time option \<Rightarrow> (restoreState execStatus + backup) act" where
  "selectPITRBaseBackup L E ns instanceName storageName date =
     handleIO (listBackupsOf E ns instanceName) (\<lambda>r. case r of
       Inl e \<Rightarrow> returnIO (Inl (noExec RestorePending
         (''Listing backups for instance '' @ quote instanceName @ '': '' @ errText (lib_errText L) e)))
     | Inr bs \<Rightarrow>
         (case bestBase storageName date bs of
            Some best \<Rightarrow> returnIO (Inr best)
          | None \<Rightarrow>
              (let msg = ''No Succeeded backup of instance '' @ quote instanceName @ '' on storage '' @
                     quote storageName @ '' to recover from''
               in returnIO (Inl (noExec RestorePending (case date of
                    None \<Rightarrow> msg
                  | Some d \<Rightarrow> msg @ '' at or before '' @ lib_formatTime L d))))))"

definition resolvePointInTimeSource ::
  "lib \<Rightarrow> env \<Rightarrow> restore \<Rightarrow> (restoreState execStatus + backup \<times> pitRestoreSpec) act" where
  "resolvePointInTimeSource L E r =
     (case ds_PointInTime (res_DataSource r) of
        None \<Rightarrow> returnIO (Inl (noExec RestoreFailed
          (''Restore dataSource.pointInTime is required when type is '' @ quote ''PointInTime'')))
      | Some pitr \<Rightarrow>
          (if pit_RecoveryTarget pitr = RecoveryTargetDate \<and> pit_Date pitr = None
           then returnIO (Inl (noExec RestoreFailed
             (''Restore dataSource.pointInTime.date is required when recoveryTarget is '' @ quote ''date'')))
           else let sourceInstance = (case pit_InstanceRef pitr of None \<Rightarrow> res_InstanceRef r | Some n \<Rightarrow> n)
                in bindIO (selectPITRBaseBackup L E (res_Namespace r) sourceInstance (pit_StorageRef pitr) (pit_Date pitr)) (\<lambda>a.
                  returnIO (map_sum id (\<lambda>base.
                    (base, \<lparr>prs_Type = pit_RecoveryTarget pitr, prs_Date = pit_Date pitr\<rparr>)) a))))"

definition resolveRestoreSource ::
  "lib \<Rightarrow> env \<Rightarrow> restore \<Rightarrow> (restoreState execStatus + backup \<times> pitRestoreSpec option) act" where
  "resolveRestoreSource L E r =
     (case ds_Type (res_DataSource r) of
        DataSourceTypeBackup \<Rightarrow>
          bindIO (resolveBackupSource E r) (\<lambda>a. returnIO (map_sum id (\<lambda>b. (b, None)) a))
      | DataSourceTypePointInTime \<Rightarrow>
          bindIO (resolvePointInTimeSource L E r) (\<lambda>a. returnIO (map_sum id (\<lambda>(b, p). (b, Some p)) a))
      | DataSourceTypeOther t \<Rightarrow>
          returnIO (Inl (noExec RestoreFailed (''Unsupported dataSource type '' @ quote t))))"

definition buildExternalBackupSource :: "env \<Rightarrow> backup \<Rightarrow> (restoreState execStatus + opBackupStatus) act" where
  "buildExternalBackupSource E b =
     (case bkp_External b of
        None \<Rightarrow> returnIO (Inl (noExec RestoreFailed ''External source Backup is missing origin.external.path''))
      | Some external \<Rightarrow>
          (if oe_Path external = ''''
           then returnIO (Inl (noExec RestoreFailed ''External source Backup is missing origin.external.path''))
           else handleIO (getBackupStorage E (bkp_StorageRef b)) (\<lambda>a. case a of
             Inl e \<Rightarrow> if isNotFound e
                      then returnIO (Inl (noExec RestorePending
                        (''Waiting for BackupStorage '' @ quote (bkp_StorageRef b))))
                      else failIO (Wrap ''get BackupStorage'' e)
           | Inr bs \<Rightarrow>
               (case bst_S3 bs of
                  None \<Rightarrow> returnIO (Inl (noExec RestoreFailed
                    (''Only S3 storage is supported: '' @ quote (bst_Name bs))))
                | Some s3 \<Rightarrow>
                    (let trimmedPath = trimByte (oe_Path external) CHR ''/'';
                         pre = (case lastIndex trimmedPath CHR ''/'' of
                                  None \<Rightarrow> '''' | Some i \<Rightarrow> take i trimmedPath)
                     in returnIO (Inr (zeroOpStatus\<lparr>
                          obs_Destination := ''s3://'' @ s3s_Bucket s3 @ ''/'' @ trimmedPath,
                          obs_StorageName := bkp_StorageRef b,
                          obs_S3 := Some (s3SpecOf s3 pre)\<rparr>)))))))"

section \<open>Restores\<close>

definition newOpRestore :: "restore \<Rightarrow> opRestore" where
  "newOpRestore r = \<lparr>or_Name = res_Name r, or_Namespace = res_Namespace r, or_Deleting = False,
     or_Controller = None, or_ClusterName = '''', or_BackupName = '''', or_BackupSource = None,
     or_StorageName = '''', or_PITR = None, or_State = OpRestoreOther '''', or_Error = ''''\<rparr>"

text \<open>How the restore reaches its data: an external path, another cluster's backup, or this cluster's own.\<close>

datatype restoreMode =
    FromExternal opBackupStatus
  | FromOtherCluster opBackupStatus string
  | FromOwnBackup string

definition restoreModeOf :: "env \<Rightarrow> ctx \<Rightarrow> backup \<Rightarrow> (restoreState execStatus + restoreMode) act" where
  "restoreModeOf E c src =
     (let operatorBackupName = (case bkp_OperatorBackupRef src of
            None \<Rightarrow> bkp_Name src | Some n \<Rightarrow> if n \<noteq> '''' then n else bkp_Name src)
      in case bkp_OriginType src of
           OriginExternal \<Rightarrow>
             bindIO (buildExternalBackupSource E src) (\<lambda>a. returnIO (map_sum id FromExternal a))
         | OriginInstance \<Rightarrow>
             (if bkp_InstanceRef src = None \<or> bkp_InstanceRef src = Some (c_Name c)
              then returnIO (Inr (FromOwnBackup operatorBackupName))
              else handleIO (getOpBackup E operatorBackupName) (\<lambda>a. case a of
                Inl e \<Rightarrow> if isNotFound e
                         then returnIO (Inl (noExec RestorePending
                           (''waiting for source PerconaServerMongoDBBackup '' @ quote operatorBackupName)))
                         else failIO (Wrap (''get source PSMDB backup '' @ quote operatorBackupName) e)
              | Inr ob \<Rightarrow>
                  (if obs_Destination (ob_Status ob) = ''''
                   then returnIO (Inl (noExec RestorePending (''source PerconaServerMongoDBBackup '' @
                          quote operatorBackupName @ '' has no destination yet'')))
                   else returnIO (Inr (FromOtherCluster (ob_Status ob) (bkp_StorageRef src))))))
         | OriginOther t \<Rightarrow> failIO (Errorf (''unsupported restore source type '' @ quote t)))"

text \<open>The mutation of \<^verbatim>\<open>SyncRestore\<close>; a restore from the cluster's own backup keeps the storage name as it is.\<close>

definition mutateOpRestore ::
  "lib \<Rightarrow> ctx \<Rightarrow> restore \<Rightarrow> restoreMode \<Rightarrow> pitRestoreSpec option \<Rightarrow> opRestore \<Rightarrow> go_error + opRestore" where
  "mutateOpRestore L c r mode pitr ob =
     (let ob1 = ob\<lparr>or_ClusterName := c_Name c\<rparr>;
          ob2 = (case mode of
             FromExternal s \<Rightarrow> ob1\<lparr>or_BackupSource := Some s, or_StorageName := '''', or_BackupName := ''''\<rparr>
           | FromOtherCluster src st \<Rightarrow>
               ob1\<lparr>or_BackupSource := Some (zeroOpStatus\<lparr>
                     obs_Destination := obs_Destination src, obs_StorageName := st, obs_S3 := obs_S3 src,
                     obs_Azure := obs_Azure src, obs_GCS := obs_GCS src, obs_Minio := obs_Minio src,
                     obs_Filesystem := obs_Filesystem src, obs_Type := obs_Type src,
                     obs_PBMname := obs_PBMname src\<rparr>),
                   or_StorageName := st, or_BackupName := ''''\<rparr>
           | FromOwnBackup n \<Rightarrow> ob1\<lparr>or_BackupName := n, or_BackupSource := None\<rparr>);
          ob3 = ob2\<lparr>or_PITR := pitr\<rparr>
      in mapRight (\<lambda>ctl. ob3\<lparr>or_Controller := ctl\<rparr>)
           (lib_setControllerReference L (res_Name r) (or_Controller ob)))"

definition restoreExec :: "env \<Rightarrow> string \<Rightarrow> opRestoreState \<Rightarrow> string \<Rightarrow> restoreState execStatus act" where
  "restoreExec E n op err =
     (let exec = \<lparr>es_State = RestorePending, es_Message = '''', es_CompletedAt = None, es_OperatorRef = Some n\<rparr>
      in case op of
           OpRestoreReady \<Rightarrow> bindIO (readClock E) (\<lambda>now.
             returnIO (exec\<lparr>es_State := RestoreSucceeded, es_CompletedAt := Some now\<rparr>))
         | OpRestoreError \<Rightarrow> returnIO (exec\<lparr>es_State := RestoreFailed, es_Message := err\<rparr>)
         | OpRestoreRequested \<Rightarrow> returnIO (exec\<lparr>es_State := RestoreRunning\<rparr>)
         | OpRestoreRunning \<Rightarrow> returnIO (exec\<lparr>es_State := RestoreRunning\<rparr>)
         | OpRestoreWaiting \<Rightarrow> returnIO (exec\<lparr>es_State := RestoreRunning\<rparr>)
         | OpRestoreOther _ \<Rightarrow> returnIO exec)"

definition SyncRestore :: "lib \<Rightarrow> env \<Rightarrow> ctx \<Rightarrow> restore \<Rightarrow> restoreState execStatus act" where
  "SyncRestore L E c r =
     bindIO (resolveRestoreSource L E r) (\<lambda>a. case a of
       Inl exec \<Rightarrow> returnIO exec
     | Inr (src, pitr) \<Rightarrow>
         bindIO (restoreModeOf E c src) (\<lambda>m. case m of
           Inl exec \<Rightarrow> returnIO exec
         | Inr mode \<Rightarrow>
             bindIO (wrapIO ''create or update PSMDB restore''
               (createOrUpdate (getOpRestore E (res_Name r)) (newOpRestore r) (mutateOpRestore L c r mode pitr)
                  (\<lambda>ob. writeCall E (CreateOpRestore ob)) (\<lambda>ob. writeCall E (UpdateOpRestore ob)))) (\<lambda>ob.
             restoreExec E (or_Name ob) (or_State ob) (or_Error ob))))"

section \<open>Deletion\<close>

definition CleanupBackup :: "env \<Rightarrow> backup \<Rightarrow> bool act" where
  "CleanupBackup E b =
     handleIO (getOpBackup E (bkp_Name b)) (\<lambda>r. case r of
       Inl e \<Rightarrow> if isNotFound e then returnIO True else failIO (Wrap ''get PSMDB backup for cleanup'' e)
     | Inr ob \<Rightarrow>
         bindIO (if bkp_DeletionPolicy b = PolicyRetain \<and> psmdbDeleteBackupFinalizer \<in> set (ob_Finalizers ob)
                 then wrapIO ''remove finalizer from PSMDB backup''
                        (writeCall E (UpdateOpBackup (ob\<lparr>ob_Finalizers :=
                           filter (\<lambda>f. f \<noteq> psmdbDeleteBackupFinalizer) (ob_Finalizers ob)\<rparr>)))
                 else returnIO ()) (\<lambda>_.
         bindIO (if ob_Deleting ob then returnIO ()
                 else wrapIO ''delete PSMDB backup'' (writeCall E (DeleteObject KOpBackup (ob_Name ob)))) (\<lambda>_.
         returnIO False)))"

definition CleanupRestore :: "env \<Rightarrow> restore \<Rightarrow> bool act" where
  "CleanupRestore E r =
     handleIO (getOpRestore E (res_Name r)) (\<lambda>a. case a of
       Inl e \<Rightarrow> if isNotFound e then returnIO True else failIO (Wrap ''get PSMDB restore for cleanup'' e)
     | Inr ob \<Rightarrow>
         bindIO (if or_Deleting ob then returnIO ()
                 else wrapIO ''delete PSMDB restore'' (writeCall E (DeleteObject KOpRestore (or_Name ob)))) (\<lambda>_.
         returnIO False))"

definition restoreActive :: "restore \<Rightarrow> bool" where
  "restoreActive r \<longleftrightarrow> \<not> res_Deleting r \<and> res_State r \<noteq> RestoreSucceeded \<and> res_State r \<noteq> RestoreFailed"

definition hasActiveRestoreForInstance :: "env \<Rightarrow> string \<Rightarrow> string \<Rightarrow> bool act" where
  "hasActiveRestoreForInstance E ns instanceName =
     bindIO (wrapIO (''list Restore resources for instance '' @ quote instanceName)
       (listRestoresOf E ns instanceName)) (\<lambda>rs.
     returnIO (list_ex restoreActive rs))"

section \<open>Contracts\<close>

interpretation backup_status: status_mapping backupExec OpBackupReady OpBackupError
  "{OpBackupRequested, OpBackupRunning, OpBackupWaiting}" BackupSucceeded BackupFailed BackupRunning BackupPending
  by unfold_locales (auto simp: backupExec_def Let_def call_defs io_defs split: opBackupState.splits)

interpretation restore_status: status_mapping restoreExec OpRestoreReady OpRestoreError
  "{OpRestoreRequested, OpRestoreRunning, OpRestoreWaiting}" RestoreSucceeded RestoreFailed RestoreRunning RestorePending
  by unfold_locales (auto simp: restoreExec_def Let_def call_defs io_defs split: opRestoreState.splits)

text \<open>
  Deleting an operator object: done means it was seen to be gone and nothing was written; not done means it
  is there and its deletion is under way.
\<close>

locale cleanup_contract =
  fixes cleanup :: "'o \<Rightarrow> bool act"
    and gone :: "history \<Rightarrow> 'o \<Rightarrow> bool"
    and deleting :: "history \<Rightarrow> 'o \<Rightarrow> bool"
    and deleteCall :: "history \<Rightarrow> 'o \<Rightarrow> call"
  assumes done_gone: "cleanup x h = (Inr True, h') \<Longrightarrow> gone h x \<and> writes h' = writes h"
    and not_done: "cleanup x h = (Inr False, h') \<Longrightarrow> \<not> gone h x \<and> (deleting h x \<or> deleteCall h x \<in> set (drop (length h) h'))"
begin

lemma done_iff_gone: "cleanup x h = (Inr d, h') \<Longrightarrow> d = gone h x"
  using done_gone not_done by (cases d) auto

lemma deletion_requested: "cleanup x h = (Inr d, h') \<Longrightarrow> d \<or> deleting h x \<or> deleteCall h x \<in> set (drop (length h) h')"
  using not_done by (cases d) auto

end

text \<open>
  The runtime repeats a clean-up until it is done. When every round returns and an object is gone \<open>N\<close> calls after its deletion was
  requested, the round after the next \<open>N\<close> is done.
\<close>

locale cleanup_loop = cleanup_contract +
  assumes extends: "\<exists>cs. snd (cleanup x h) = h @ cs \<and> cs \<noteq> []"
begin

lemma rounds_extend: "\<exists>cs. rounds (cleanup x) k h = h @ cs \<and> k \<le> length cs"
proof (induction k)
  case (Suc k)
  then obtain cs where cs: "rounds (cleanup x) k h = h @ cs" "k \<le> length cs" by blast
  obtain ds where ds: "snd (cleanup x (h @ cs)) = (h @ cs) @ ds" "ds \<noteq> []" using extends by blast
  with cs show ?case by (intro exI [of _ "cs @ ds"]) (cases ds, simp_all)
qed simp

lemma rounds_Suc: "rounds (cleanup x) (Suc k) h = rounds (cleanup x) k (snd (cleanup x h))"
  by (induction k) simp_all

lemma finishes:
  assumes total: "\<And>h. \<exists>d h'. cleanup x h = (Inr d, h')"
    and removed: "\<And>h cs cs'. \<not> gone h x \<Longrightarrow> deleting h x \<or> deleteCall h x \<in> set cs \<Longrightarrow> N \<le> length cs' \<Longrightarrow>
      gone (h @ cs @ cs') x"
  shows "\<exists>k \<le> Suc N. \<exists>h'. cleanup x (rounds (cleanup x) k h) = (Inr True, h') \<and> gone (rounds (cleanup x) k h) x"
proof -
  obtain d h1 where first: "cleanup x h = (Inr d, h1)" using total by blast
  show ?thesis
  proof (cases d)
    case True
    with first show ?thesis using done_gone [of x h h1] by (intro exI [of _ 0]) simp
  next
    case False
    obtain cs where cs: "h1 = h @ cs" using extends [of x h] first by auto
    obtain cs' where cs': "rounds (cleanup x) (Suc N) h = h @ cs @ cs'" "N \<le> length cs'"
      using rounds_extend [of x N h1] first cs by (auto simp: rounds_Suc simp del: rounds.simps)
    have gone: "gone (h @ cs @ cs') x"
      using not_done [of x h h1] first False cs cs'(2) by (intro removed) simp_all
    moreover obtain d' h2 where last: "cleanup x (h @ cs @ cs') = (Inr d', h2)" using total by blast
    ultimately have "d' = True" using done_iff_gone [OF last] by simp
    with last cs'(1) gone show ?thesis by (intro exI [of _ "Suc N"]) (simp del: rounds.simps)
  qed
qed

end

definition answeredGone :: "go_error + 'a \<Rightarrow> bool" where
  "answeredGone r = (case r of Inl e \<Rightarrow> isNotFound e | Inr _ \<Rightarrow> False)"

lemma CleanupBackup_extends: "\<exists>cs. snd (CleanupBackup E b h) = h @ cs \<and> cs \<noteq> []"
  by (auto simp: CleanupBackup_def handleIO_def call_defs io_defs split: sum.splits if_splits prod.splits option.splits)

lemma CleanupRestore_extends: "\<exists>cs. snd (CleanupRestore E r h) = h @ cs \<and> cs \<noteq> []"
  by (auto simp: CleanupRestore_def handleIO_def call_defs io_defs split: sum.splits if_splits prod.splits option.splits)

interpretation backup_cleanup: cleanup_loop "CleanupBackup E"
  "\<lambda>h b. answeredGone (env_opBackup E h (bkp_Name b))"
  "\<lambda>h b. case env_opBackup E h (bkp_Name b) of Inr ob \<Rightarrow> ob_Deleting ob | Inl _ \<Rightarrow> False"
  "\<lambda>h b. DeleteObject KOpBackup (case env_opBackup E h (bkp_Name b) of Inr ob \<Rightarrow> ob_Name ob | Inl _ \<Rightarrow> '''')" for E
  by (unfold_locales; (rule CleanupBackup_extends)?)
    (auto simp: CleanupBackup_def answeredGone_def handleIO_def call_defs io_simps writes_def
      split: sum.splits if_splits prod.splits option.splits)

interpretation restore_cleanup: cleanup_loop "CleanupRestore E"
  "\<lambda>h r. answeredGone (env_opRestore E h (res_Name r))"
  "\<lambda>h r. case env_opRestore E h (res_Name r) of Inr ob \<Rightarrow> or_Deleting ob | Inl _ \<Rightarrow> False"
  "\<lambda>h r. DeleteObject KOpRestore (case env_opRestore E h (res_Name r) of Inr ob \<Rightarrow> or_Name ob | Inl _ \<Rightarrow> '''')" for E
  by (unfold_locales; (rule CleanupRestore_extends)?)
    (auto simp: CleanupRestore_def answeredGone_def handleIO_def call_defs io_simps writes_def
      split: sum.splits if_splits prod.splits option.splits)

interpretation base_backup: newest_pick "pitrCandidate st date" backupStamp "bestBase st date" for st date
proof unfold_locales
  show "bestBase st date [] = None" by (simp add: bestBase_def)
  fix xs x
  have same: "pitrCandidate st date x = Some a \<Longrightarrow> a = x" for a
    by (auto simp: pitrCandidate_def split: if_splits option.splits)
  show "bestBase st date (xs @ [x]) =
      (case pitrCandidate st date x of None \<Rightarrow> bestBase st date xs
       | Some a \<Rightarrow> (case bestBase st date xs of None \<Rightarrow> Some a
           | Some b \<Rightarrow> if backupStamp b < backupStamp a then Some a else Some b))"
    using same by (auto simp: bestBase_def baseStep_def split: option.splits)
qed

section \<open>Lemmas\<close>

lemma createOrUpdate_result:
  assumes "createOrUpdate getIt fresh mutate create update h = (Inr ob, h')"
  shows "(\<exists>old h1. getIt h = (Inr old, h1) \<and> mutate old = Inr ob \<and>
            (if ob = old then h' = h1 else update ob h1 = (Inr (), h'))) \<or>
         (\<exists>e h1. getIt h = (Inl e, h1) \<and> isNotFound e \<and> mutate fresh = Inr ob \<and> create ob h1 = (Inr (), h'))"
  using assms
  by (auto simp: createOrUpdate_def handleIO_def io_simps split: prod.splits sum.splits if_splits)

lemma mutateOpBackup_fields:
  assumes "mutateOpBackup L c b ob = Inr ob'"
  shows "ob_ClusterName ob' = c_Name c" "ob_StorageName ob' = bkp_StorageRef b"
    "psmdbDeleteBackupFinalizer \<in> set (ob_Finalizers ob')" "ob_Status ob' = ob_Status ob" "ob_Name ob' = ob_Name ob"
  using assms by (auto simp: mutateOpBackup_def mapRight_def addFinalizer_def Let_def split: sum.splits)

lemma mutateOpBackup_again:
  assumes "mutateOpBackup L c b ob = Inr ob'"
    and "\<And>ctl. lib_setControllerReference L (bkp_Name b) (ob_Controller ob) = Inr ctl \<Longrightarrow>
           lib_setControllerReference L (bkp_Name b) ctl = Inr ctl"
  shows "mutateOpBackup L c b ob' = Inr ob'"
  using assms by (auto simp: mutateOpBackup_def mapRight_def addFinalizer_def Let_def split: sum.splits)

lemma readOnly_resolveBackupSource [read_only_intros]: "readOnly (resolveBackupSource E r)"
  by (auto simp: resolveBackupSource_def intro!: emits_handle read_only_intros split: option.splits sum.splits)

lemma readOnly_selectPITRBaseBackup [read_only_intros]: "readOnly (selectPITRBaseBackup L E ns i st d)"
  by (auto simp: selectPITRBaseBackup_def Let_def intro!: emits_handle read_only_intros
      split: option.splits sum.splits)

lemma readOnly_resolvePointInTimeSource [read_only_intros]: "readOnly (resolvePointInTimeSource L E r)"
  by (auto simp: resolvePointInTimeSource_def Let_def intro!: emits_bind read_only_intros
      split: option.splits sum.splits)

lemma readOnly_resolveRestoreSource [read_only_intros]: "readOnly (resolveRestoreSource L E r)"
  by (auto simp: resolveRestoreSource_def intro!: emits_bind read_only_intros split: dataSourceType.splits)

lemma readOnly_buildExternalBackupSource [read_only_intros]: "readOnly (buildExternalBackupSource E b)"
  by (auto simp: buildExternalBackupSource_def Let_def intro!: emits_handle read_only_intros
      split: option.splits sum.splits)

lemma readOnly_restoreModeOf [read_only_intros]: "readOnly (restoreModeOf E c b)"
  by (auto simp: restoreModeOf_def Let_def intro!: emits_handle emits_bind read_only_intros
      split: originType.splits sum.splits)

lemma readOnly_hasActiveRestore [read_only_intros]: "readOnly (hasActiveRestoreForInstance E ns i)"
  unfolding hasActiveRestoreForInstance_def by (intro emits_bind emits_wrap read_only_intros emits_return)

lemma pitrCandidate_Some:
  "pitrCandidate st date b = Some a \<longleftrightarrow> a = b \<and> bkp_StorageRef b = st \<and> bkp_State b = BackupSucceeded \<and>
     (\<exists>t. bkp_CompletedAt b = Some t \<and> (\<forall>d. date = Some d \<longrightarrow> t \<le> d))"
  by (auto simp: pitrCandidate_def split: option.splits if_splits)

text \<open>The source of a restore is never a failed backup.\<close>

lemma map_source_Inr [simp]: "map_sum id f a = Inr y \<longleftrightarrow> (\<exists>b. a = Inr b \<and> y = f b)"
  by (cases a) auto

lemma resolveBackupSource_not_failed:
  "resolveBackupSource E r h = (Inr (Inr b), h') \<Longrightarrow> bkp_State b \<noteq> BackupFailed"
  by (auto simp: resolveBackupSource_def handleIO_def io_simps call_defs
      split: sum.splits option.splits if_splits prod.splits)

lemma selectPITRBaseBackup_best:
  "selectPITRBaseBackup L E ns i st date h = (Inr (Inr b), h') \<Longrightarrow>
     \<exists>bs. env_backupsOf E h ns i = Inr bs \<and> bestBase st date bs = Some b"
  by (auto simp: selectPITRBaseBackup_def Let_def handleIO_def io_simps call_defs
      split: sum.splits option.splits prod.splits)

lemma resolvePointInTimeSource_ok:
  assumes "resolvePointInTimeSource L E r h = (Inr (Inr (b, p)), h')"
  shows "\<exists>ns i st date bs. env_backupsOf E h ns i = Inr bs \<and> bestBase st date bs = Some b"
proof -
  obtain ns i st date h1 where "selectPITRBaseBackup L E ns i st date h = (Inr (Inr b), h1)"
    using assms
    by (auto simp: resolvePointInTimeSource_def Let_def io_simps split: option.splits if_splits)
  then show ?thesis using selectPITRBaseBackup_best by blast
qed

lemma resolveRestoreSource_not_failed:
  assumes "resolveRestoreSource L E r h = (Inr (Inr (src, pitr)), h')"
  shows "bkp_State src \<noteq> BackupFailed"
proof (cases "ds_Type (res_DataSource r)")
  case DataSourceTypeBackup
  with assms obtain h1 where "resolveBackupSource E r h = (Inr (Inr src), h1)"
    by (auto simp: resolveRestoreSource_def io_simps)
  then show ?thesis by (rule resolveBackupSource_not_failed)
next
  case DataSourceTypePointInTime
  with assms obtain p h1 where "resolvePointInTimeSource L E r h = (Inr (Inr (src, p)), h1)"
    by (auto simp: resolveRestoreSource_def io_simps split: prod.splits)
  then obtain st date bs where "bestBase st date bs = Some src" using resolvePointInTimeSource_ok by blast
  then obtain b where "pitrCandidate st date b = Some src" using base_backup.pick_seen by blast
  then show ?thesis by (auto simp: pitrCandidate_Some)
next
  case (DataSourceTypeOther t)
  with assms show ?thesis by (simp add: resolveRestoreSource_def io_simps)
qed

text \<open>An external backup is looked for where it is: the destination is the storage's bucket with the path
  trimmed of slashes, and the prefix is that path without its last segment (empty for a single
  segment), so that prefix and segment together give the path back. The storage's credentials and
  endpoint are kept.\<close>

theorem external_backup_location:
  assumes run: "buildExternalBackupSource E b h = (Inr (Inr s), h')"
  shows "\<exists>ext s3 pre. bkp_External b = Some ext \<and> oe_Path ext \<noteq> '''' \<and> obs_S3 s = Some (s3SpecOf s3 pre) \<and>
    obs_StorageName s = bkp_StorageRef b \<and>
    (\<exists>bs. env_backupStorage E h (bkp_StorageRef b) = Inr bs \<and> bst_S3 bs = Some s3) \<and>
    obs_Destination s = ''s3://'' @ s3s_Bucket s3 @ ''/'' @ trimByte (oe_Path ext) CHR ''/'' \<and>
    ((pre = '''' \<and> CHR ''/'' \<notin> set (trimByte (oe_Path ext) CHR ''/'')) \<or>
     (\<exists>segment. trimByte (oe_Path ext) CHR ''/'' = pre @ ''/'' @ segment \<and> CHR ''/'' \<notin> set segment)) \<and>
    writes h' = writes h"
proof -
  obtain ext bs s3 where parts: "bkp_External b = Some ext" "oe_Path ext \<noteq> ''''"
    "env_backupStorage E h (bkp_StorageRef b) = Inr bs" "bst_S3 bs = Some s3"
    using run
    by (auto simp: buildExternalBackupSource_def handleIO_def io_simps call_defs Let_def
        split: option.splits sum.splits if_splits prod.splits)
  let ?p = "trimByte (oe_Path ext) CHR ''/''"
  let ?pre = "case lastIndex ?p CHR ''/'' of None \<Rightarrow> '''' | Some i \<Rightarrow> take i ?p"
  have s: "obs_S3 s = Some (s3SpecOf s3 ?pre)" "obs_Destination s = ''s3://'' @ s3s_Bucket s3 @ ''/'' @ ?p"
    "obs_StorageName s = bkp_StorageRef b"
    using run parts by (auto simp: buildExternalBackupSource_def call_defs io_defs Let_def)
  have "(?pre = '''' \<and> CHR ''/'' \<notin> set ?p) \<or> (\<exists>segment. ?p = ?pre @ ''/'' @ segment \<and> CHR ''/'' \<notin> set segment)"
  proof (cases "lastIndex ?p CHR ''/''")
    case None
    then have "CHR ''/'' \<notin> set ?p" using lastIndex_None by blast
    with None show ?thesis by simp
  next
    case (Some i)
    then obtain u v where "?p = u @ CHR ''/'' # v" "CHR ''/'' \<notin> set v" "i = length u"
      unfolding lastIndex_Some by blast
    with Some show ?thesis by (intro disjI2 exI [of _ v]) simp
  qed
  then show ?thesis
    using parts s readOnly_writes [OF readOnly_buildExternalBackupSource run] by blast
qed

text \<open>What each mode of a restore comes from.\<close>

definition operatorName :: "backup \<Rightarrow> string" where
  "operatorName src = (case bkp_OperatorBackupRef src of
     None \<Rightarrow> bkp_Name src | Some n \<Rightarrow> if n \<noteq> '''' then n else bkp_Name src)"

text \<open>Where the data of a backup from outside lies: in the bucket of the storage that is read, under the backup's path without
  its outer slashes, and with the path up to its last segment as the prefix.\<close>

definition externalSource :: "env \<Rightarrow> history \<Rightarrow> backup \<Rightarrow> opBackupStatus \<Rightarrow> bool" where
  "externalSource E h src s \<longleftrightarrow> (\<exists>ext bs s3 pre path.
     bkp_External src = Some ext \<and> oe_Path ext \<noteq> '''' \<and> path = trimByte (oe_Path ext) CHR ''/'' \<and>
     env_backupStorage E h (bkp_StorageRef src) = Inr bs \<and> bst_S3 bs = Some s3 \<and>
     obs_StorageName s = bkp_StorageRef src \<and> obs_Destination s = ''s3://'' @ s3s_Bucket s3 @ ''/'' @ path \<and>
     (pre = '''' \<and> CHR ''/'' \<notin> set path \<or> (\<exists>segment. path = pre @ ''/'' @ segment \<and> CHR ''/'' \<notin> set segment)) \<and>
     obs_S3 s = Some \<lparr>s3_Bucket = s3s_Bucket s3, s3_Prefix = pre, s3_Region = s3s_Region s3,
       s3_EndpointURL = s3s_EndpointURL s3, s3_CredentialsSecret = s3s_CredentialsSecretRef s3,
       s3_InsecureSkipTLSVerify = (s3s_VerifyTLS s3 \<noteq> Some True), s3_ForcePathStyle = s3s_ForcePathStyle s3\<rparr>)"

text \<open>Where the data of another cluster's backup lies: where its operator backup, read now, says.\<close>

definition copiedSource :: "env \<Rightarrow> history \<Rightarrow> backup \<Rightarrow> opBackupStatus \<Rightarrow> bool" where
  "copiedSource E h src s \<longleftrightarrow> (\<exists>ob. env_opBackup E h (operatorName src) = Inr ob \<and>
     obs_Destination s \<noteq> '''' \<and> obs_Destination s = obs_Destination (ob_Status ob) \<and>
     obs_S3 s = obs_S3 (ob_Status ob) \<and> obs_Azure s = obs_Azure (ob_Status ob) \<and> obs_GCS s = obs_GCS (ob_Status ob) \<and>
     obs_Minio s = obs_Minio (ob_Status ob) \<and> obs_Filesystem s = obs_Filesystem (ob_Status ob) \<and>
     obs_Type s = obs_Type (ob_Status ob) \<and> obs_PBMname s = obs_PBMname (ob_Status ob))"

lemma s3SpecOf_fields:
  "s3SpecOf s3 pre = \<lparr>s3_Bucket = s3s_Bucket s3, s3_Prefix = pre, s3_Region = s3s_Region s3,
     s3_EndpointURL = s3s_EndpointURL s3, s3_CredentialsSecret = s3s_CredentialsSecretRef s3,
     s3_InsecureSkipTLSVerify = (s3s_VerifyTLS s3 \<noteq> Some True), s3_ForcePathStyle = s3s_ForcePathStyle s3\<rparr>"
  by (simp add: s3SpecOf_def split: option.splits)

lemma buildExternalBackupSource_external:
  assumes "buildExternalBackupSource E b h = (Inr (Inr s), h')"
  shows "externalSource E h b s"
  using external_backup_location [OF assms] unfolding externalSource_def s3SpecOf_fields by blast

lemma restoreModeOf_ok:
  assumes run: "restoreModeOf E c src h = (Inr (Inr mode), h')"
  shows "case bkp_OriginType src of
      OriginExternal \<Rightarrow> (\<exists>s. mode = FromExternal s \<and> externalSource E h src s)
    | OriginInstance \<Rightarrow>
        (if bkp_InstanceRef src \<in> {None, Some (c_Name c)} then mode = FromOwnBackup (operatorName src)
         else \<exists>s. mode = FromOtherCluster s (bkp_StorageRef src) \<and> copiedSource E h src s)
    | OriginOther _ \<Rightarrow> False"
proof (cases "bkp_OriginType src")
  case OriginExternal
  then obtain s h1 where "mode = FromExternal s" "buildExternalBackupSource E src h = (Inr (Inr s), h1)"
    using run by (auto simp: restoreModeOf_def Let_def io_simps)
  with OriginExternal buildExternalBackupSource_external show ?thesis by auto
next
  case OriginInstance
  with run show ?thesis
    by (auto simp: restoreModeOf_def copiedSource_def operatorName_def [symmetric] handleIO_def io_simps
        call_defs Let_def split: sum.splits if_splits prod.splits)
next
  case (OriginOther t)
  with run show ?thesis by (simp add: restoreModeOf_def Let_def io_simps)
qed

text \<open>What a restore resource must say, by where its source comes from, with the cluster as it is read at \<open>h\<close>.\<close>

definition restoreFits :: "env \<Rightarrow> history \<Rightarrow> ctx \<Rightarrow> backup \<Rightarrow> opRestore \<Rightarrow> bool" where
  "restoreFits E h c src ob =
     (or_ClusterName ob = c_Name c \<and>
      (case bkp_OriginType src of
         OriginExternal \<Rightarrow> or_BackupName ob = '''' \<and> or_StorageName ob = '''' \<and>
           (\<exists>s. or_BackupSource ob = Some s \<and> externalSource E h src s)
       | OriginInstance \<Rightarrow>
           (if bkp_InstanceRef src \<in> {None, Some (c_Name c)}
            then or_BackupSource ob = None \<and> or_BackupName ob = operatorName src
            else or_BackupName ob = '''' \<and> or_StorageName ob = bkp_StorageRef src \<and>
              (\<exists>s. or_BackupSource ob = Some s \<and> obs_StorageName s = bkp_StorageRef src \<and> copiedSource E h src s))
       | OriginOther _ \<Rightarrow> False))"

lemma mutateOpRestore_fits:
  assumes "restoreModeOf E c src h = (Inr (Inr mode), h')" "mutateOpRestore L c r mode pitr ob = Inr ob'"
  shows "restoreFits E h c src ob' \<and> or_PITR ob' = pitr \<and> or_State ob' = or_State ob \<and> or_Name ob' = or_Name ob \<and>
    or_Namespace ob' = or_Namespace ob \<and>
    lib_setControllerReference L (res_Name r) (or_Controller ob) = Inr (or_Controller ob')"
  using restoreModeOf_ok [OF assms(1)] assms(2)
  by (auto simp: restoreFits_def copiedSource_def mutateOpRestore_def mapRight_def Let_def zeroOpStatus_def
      split: sum.splits originType.splits if_splits)

text \<open>The source a restore asks for: the Backup it names, or a Backup of the stream it recovers from, with the target to recover to.\<close>

definition sourceAsked :: "env \<Rightarrow> history \<Rightarrow> restore \<Rightarrow> backup \<Rightarrow> pitRestoreSpec option \<Rightarrow> bool" where
  "sourceAsked E h r src target =
     (case ds_Type (res_DataSource r) of
        DataSourceTypeBackup \<Rightarrow> target = None \<and>
          (\<exists>n. ds_Backup (res_DataSource r) = Some n \<and> n \<noteq> '''' \<and> env_backup E h n = Inr src)
      | DataSourceTypePointInTime \<Rightarrow>
          (\<exists>p bs. ds_PointInTime (res_DataSource r) = Some p \<and>
             target = Some \<lparr>prs_Type = pit_RecoveryTarget p, prs_Date = pit_Date p\<rparr> \<and>
             env_backupsOf E h (res_Namespace r) (case pit_InstanceRef p of None \<Rightarrow> res_InstanceRef r | Some i \<Rightarrow> i) = Inr bs \<and>
             src \<in> set bs \<and> bkp_StorageRef src = pit_StorageRef p \<and> bkp_State src = BackupSucceeded)
      | DataSourceTypeOther _ \<Rightarrow> False)"

lemma resolveRestoreSource_asked:
  assumes "resolveRestoreSource L E r h = (Inr (Inr (src, target)), h')"
  shows "sourceAsked E h r src target"
proof (cases "ds_Type (res_DataSource r)")
  case DataSourceTypeBackup
  with assms show ?thesis
    by (auto simp: resolveRestoreSource_def resolveBackupSource_def sourceAsked_def handleIO_def io_simps call_defs
        split: sum.splits option.splits if_splits prod.splits)
next
  case DataSourceTypePointInTime
  with assms obtain p h1 where p: "ds_PointInTime (res_DataSource r) = Some p"
    "target = Some \<lparr>prs_Type = pit_RecoveryTarget p, prs_Date = pit_Date p\<rparr>"
    "selectPITRBaseBackup L E (res_Namespace r) (case pit_InstanceRef p of None \<Rightarrow> res_InstanceRef r | Some i \<Rightarrow> i)
       (pit_StorageRef p) (pit_Date p) h = (Inr (Inr src), h1)"
    by (auto simp: resolveRestoreSource_def resolvePointInTimeSource_def io_simps Let_def split: option.splits if_splits)
  obtain bs where bs: "env_backupsOf E h (res_Namespace r) (case pit_InstanceRef p of None \<Rightarrow> res_InstanceRef r | Some i \<Rightarrow> i) = Inr bs"
    "bestBase (pit_StorageRef p) (pit_Date p) bs = Some src"
    using selectPITRBaseBackup_best [OF p(3)] by blast
  obtain b where "b \<in> set bs" "pitrCandidate (pit_StorageRef p) (pit_Date p) b = Some src"
    using base_backup.pick_seen [OF bs(2)] by blast
  with DataSourceTypePointInTime p bs(1) show ?thesis by (auto simp: sourceAsked_def pitrCandidate_Some)
next
  case (DataSourceTypeOther t)
  with assms show ?thesis by (simp add: resolveRestoreSource_def io_simps)
qed

text \<open>However \<^verbatim>\<open>CreateOrUpdate\<close> ends, it writes nothing, or the mutation of the object that was read, or of a fresh one when there is none.\<close>

lemma createOrUpdate_writes:
  assumes "createOrUpdate getIt fresh mutate create update h = (r, h')" "getIt h = (a, h1)"
  shows "h' = h1 \<or> (\<exists>old ob q. a = Inr old \<and> mutate old = Inr ob \<and> update ob h1 = (q, h')) \<or>
    (\<exists>e ob q. a = Inl e \<and> isNotFound e \<and> mutate fresh = Inr ob \<and> create ob h1 = (q, h'))"
  using assms
  by (cases a) (auto simp: createOrUpdate_def handleIO_def bindIO_def liftIO_def failIO_def returnIO_def
      split: prod.splits sum.splits if_splits)

text \<open>An operator backup as the Backup asks for it, owned by the Backup after \<open>owner\<close>.\<close>

definition backupFits :: "lib \<Rightarrow> ctx \<Rightarrow> backup \<Rightarrow> string option \<Rightarrow> opBackup \<Rightarrow> bool" where
  "backupFits L c b owner ob \<longleftrightarrow>
     ob_ClusterName ob = c_Name c \<and> ob_StorageName ob = bkp_StorageRef b \<and>
     ''percona.com/delete-backup'' \<in> set (ob_Finalizers ob) \<and>
     lib_setControllerReference L (bkp_Name b) owner = Inr (ob_Controller ob)"

lemma mutateOpBackup_fits:
  "mutateOpBackup L c b ob = Inr ob' \<Longrightarrow> backupFits L c b (ob_Controller ob) ob' \<and> ob_Name ob' = ob_Name ob \<and>
     ob_Namespace ob' = ob_Namespace ob \<and> ob_Status ob' = ob_Status ob"
  by (auto simp: backupFits_def mutateOpBackup_def mapRight_def addFinalizer_def psmdbDeleteBackupFinalizer_def Let_def
      split: sum.splits)

lemma writtenOpBackup:
  assumes "createOrUpdate (getOpBackup E (bkp_Name b)) (newOpBackup b) (mutateOpBackup L c b)
    (\<lambda>ob. writeCall E (CreateOpBackup ob)) (\<lambda>ob. writeCall E (UpdateOpBackup ob)) h = (r, h')"
  shows "writes h' = writes h \<or>
    (\<exists>ob. case env_opBackup E h (bkp_Name b) of
       Inl e \<Rightarrow> isNotFound e \<and> writes h' = writes h @ [CreateOpBackup ob] \<and>
         ob_Name ob = bkp_Name b \<and> ob_Namespace ob = bkp_Namespace b \<and> backupFits L c b None ob
     | Inr old \<Rightarrow> writes h' = writes h @ [UpdateOpBackup ob] \<and>
         ob_Name ob = ob_Name old \<and> ob_Namespace ob = ob_Namespace old \<and> backupFits L c b (ob_Controller old) ob)"
proof -
  have "getOpBackup E (bkp_Name b) h = (env_opBackup E h (bkp_Name b), h @ [Get KOpBackup (bkp_Name b)])"
    by (simp add: call_defs io_defs)
  from createOrUpdate_writes [OF assms this] show ?thesis
    by (auto simp: writeCall_def callIO_def writes_def newOpBackup_def dest!: mutateOpBackup_fits)
qed

text \<open>What \<^verbatim>\<open>CreateOrUpdate\<close> leaves behind for a backup.\<close>

lemma syncedOpBackup:
  assumes "createOrUpdate (getOpBackup E (bkp_Name b)) (newOpBackup b) (mutateOpBackup L c b)
    (\<lambda>ob. writeCall E (CreateOpBackup ob)) (\<lambda>ob. writeCall E (UpdateOpBackup ob)) h = (Inr ob, h')"
  shows "writes h' = writes h \<or> writes h' = writes h @ [CreateOpBackup ob] \<or> writes h' = writes h @ [UpdateOpBackup ob]"
    and "ob_ClusterName ob = c_Name c" "ob_StorageName ob = bkp_StorageRef b"
      "psmdbDeleteBackupFinalizer \<in> set (ob_Finalizers ob)"
    and "obs_State (ob_Status ob) \<in> {OpBackupReady, OpBackupError} \<Longrightarrow>
      \<exists>old. env_opBackup E h (bkp_Name b) = Inr old \<and> ob_Status old = ob_Status ob"
proof -
  obtain src where src: "mutateOpBackup L c b src = Inr ob"
    "src = newOpBackup b \<or> env_opBackup E h (bkp_Name b) = Inr src"
    using createOrUpdate_result [OF assms] by (auto simp: call_defs io_simps)
  show "ob_ClusterName ob = c_Name c" "ob_StorageName ob = bkp_StorageRef b"
    "psmdbDeleteBackupFinalizer \<in> set (ob_Finalizers ob)"
    using mutateOpBackup_fields [OF src(1)] by blast+
  show "obs_State (ob_Status ob) \<in> {OpBackupReady, OpBackupError} \<Longrightarrow>
      \<exists>old. env_opBackup E h (bkp_Name b) = Inr old \<and> ob_Status old = ob_Status ob"
    using src mutateOpBackup_fields(4) [OF src(1)] by (auto simp: newOpBackup_def zeroOpStatus_def)
  show "writes h' = writes h \<or> writes h' = writes h @ [CreateOpBackup ob] \<or> writes h' = writes h @ [UpdateOpBackup ob]"
    using createOrUpdate_result [OF assms]
    by (auto simp: call_defs io_simps writes_def split: if_splits option.splits)
qed

text \<open>A restore whose source is not usable is pending or failed, never done.\<close>

lemma map_source_Inl [simp]: "map_sum id f a = Inl x \<longleftrightarrow> a = Inl x"
  by (cases a) auto

lemma noExec_state [simp]: "es_State (noExec s m) = s"
  by (simp add: noExec_def)

lemma resolveBackupSource_waits:
  "resolveBackupSource E r h = (Inr (Inl x), h') \<Longrightarrow> es_State x \<noteq> RestoreSucceeded"
  by (auto simp: resolveBackupSource_def handleIO_def io_simps call_defs
      split: sum.splits option.splits if_splits prod.splits)

lemma resolvePointInTimeSource_waits:
  "resolvePointInTimeSource L E r h = (Inr (Inl x), h') \<Longrightarrow> es_State x \<noteq> RestoreSucceeded"
  by (auto simp: resolvePointInTimeSource_def selectPITRBaseBackup_def handleIO_def io_simps call_defs Let_def
      split: sum.splits option.splits if_splits prod.splits)

lemma resolveRestoreSource_waits:
  "resolveRestoreSource L E r h = (Inr (Inl x), h') \<Longrightarrow> es_State x \<noteq> RestoreSucceeded"
  by (auto simp: resolveRestoreSource_def io_simps
      dest: resolveBackupSource_waits resolvePointInTimeSource_waits split: dataSourceType.splits)

lemma restoreModeOf_waits:
  "restoreModeOf E c src h = (Inr (Inl x), h') \<Longrightarrow> es_State x \<noteq> RestoreSucceeded"
  by (auto simp: restoreModeOf_def buildExternalBackupSource_def handleIO_def io_simps call_defs Let_def
      split: originType.splits sum.splits option.splits if_splits prod.splits)

text \<open>The writes of a backup's cleanup.\<close>

definition withoutStorageFinalizer :: "opBackup \<Rightarrow> opBackup" where
  "withoutStorageFinalizer ob = ob\<lparr>ob_Finalizers :=
     filter (\<lambda>f. f \<noteq> psmdbDeleteBackupFinalizer) (ob_Finalizers ob)\<rparr>"

lemma CleanupBackup_writes:
  assumes run: "CleanupBackup E b h = (r, h')" and there: "env_opBackup E h (bkp_Name b) = Inr ob"
  defines "strip \<equiv> bkp_DeletionPolicy b = PolicyRetain \<and> psmdbDeleteBackupFinalizer \<in> set (ob_Finalizers ob)"
    and "update \<equiv> UpdateOpBackup (withoutStorageFinalizer ob)"
  shows "writes h' = writes h @ (if strip then [update] else []) @
    (if ob_Deleting ob \<or> (strip \<and> env_write E (h @ [Get KOpBackup (bkp_Name b)]) update \<noteq> None) then []
     else [DeleteObject KOpBackup (ob_Name ob)])"
proof (cases strip)
  case False
  then have "\<not> (bkp_DeletionPolicy b = PolicyRetain \<and> psmdbDeleteBackupFinalizer \<in> set (ob_Finalizers ob))"
    by (simp add: strip_def)
  with run there False show ?thesis
    by (auto simp: CleanupBackup_def call_defs io_defs writes_def split: if_splits option.splits)
next
  case True
  then have "bkp_DeletionPolicy b = PolicyRetain" "psmdbDeleteBackupFinalizer \<in> set (ob_Finalizers ob)"
    by (simp_all add: strip_def)
  with run there True show ?thesis
    unfolding update_def withoutStorageFinalizer_def
    by (auto simp: CleanupBackup_def call_defs io_defs writes_def split: if_splits option.splits)
qed

text \<open>What \<^verbatim>\<open>CreateOrUpdate\<close> leaves behind for a restore.\<close>

lemma syncedOpRestore:
  assumes mode: "restoreModeOf E c src h0 = (Inr (Inr mode), h1)"
    and put: "createOrUpdate (getOpRestore E (res_Name r)) (newOpRestore r) (mutateOpRestore L c r mode pitr)
      (\<lambda>ob. writeCall E (CreateOpRestore ob)) (\<lambda>ob. writeCall E (UpdateOpRestore ob)) h = (Inr ob, h')"
  shows "writes h' = writes h \<or> writes h' = writes h @ [CreateOpRestore ob] \<or> writes h' = writes h @ [UpdateOpRestore ob]"
    and "or_State ob = OpRestoreReady \<Longrightarrow>
      \<exists>old. env_opRestore E h (res_Name r) = Inr old \<and> or_State old = OpRestoreReady"
proof -
  obtain old where old: "mutateOpRestore L c r mode pitr old = Inr ob"
    "old = newOpRestore r \<or> env_opRestore E h (res_Name r) = Inr old"
    using createOrUpdate_result [OF put] by (auto simp: call_defs io_simps)
  show "or_State ob = OpRestoreReady \<Longrightarrow>
      \<exists>old. env_opRestore E h (res_Name r) = Inr old \<and> or_State old = OpRestoreReady"
    using old mutateOpRestore_fits [OF mode old(1)] by (auto simp: newOpRestore_def)
  show "writes h' = writes h \<or> writes h' = writes h @ [CreateOpRestore ob] \<or> writes h' = writes h @ [UpdateOpRestore ob]"
    using createOrUpdate_result [OF put]
    by (auto simp: call_defs io_simps writes_def split: if_splits option.splits)
qed

lemma writtenOpRestore:
  assumes mode: "restoreModeOf E c src h0 = (Inr (Inr mode), h1)"
    and put: "createOrUpdate (getOpRestore E (res_Name r)) (newOpRestore r) (mutateOpRestore L c r mode pitr)
      (\<lambda>ob. writeCall E (CreateOpRestore ob)) (\<lambda>ob. writeCall E (UpdateOpRestore ob)) h = (q, h')"
  shows "writes h' = writes h \<or>
    (\<exists>ob. restoreFits E h0 c src ob \<and> or_PITR ob = pitr \<and>
       (case env_opRestore E h (res_Name r) of
          Inl e \<Rightarrow> isNotFound e \<and> writes h' = writes h @ [CreateOpRestore ob] \<and>
            or_Name ob = res_Name r \<and> or_Namespace ob = res_Namespace r \<and>
            lib_setControllerReference L (res_Name r) None = Inr (or_Controller ob)
        | Inr old \<Rightarrow> writes h' = writes h @ [UpdateOpRestore ob] \<and>
            or_Name ob = or_Name old \<and> or_Namespace ob = or_Namespace old \<and>
            lib_setControllerReference L (res_Name r) (or_Controller old) = Inr (or_Controller ob)))"
proof -
  have "getOpRestore E (res_Name r) h = (env_opRestore E h (res_Name r), h @ [Get KOpRestore (res_Name r)])"
    by (simp add: call_defs io_defs)
  from createOrUpdate_writes [OF put this] show ?thesis
    by (auto simp: writeCall_def callIO_def writes_def newOpRestore_def dest!: mutateOpRestore_fits [OF mode])
qed

section \<open>Properties\<close>

text \<open>C21. The base of a point-in-time recovery is the right one: \<^verbatim>\<open>selectPITRBaseBackup\<close> picks a succeeded backup
  of the stream that completed at or before the target, and none of those completed later; it stays
  pending only when there is none.\<close>

theorem pitr_base_backup_newest:
  assumes "selectPITRBaseBackup L E ns i st date h = (Inr r, h')" and bs: "env_backupsOf E h ns i = Inr bs"
  defines "eligible \<equiv> \<lambda>b t. b \<in> set bs \<and> bkp_StorageRef b = st \<and> bkp_State b = BackupSucceeded \<and>
    bkp_CompletedAt b = Some t \<and> (\<forall>d. date = Some d \<longrightarrow> t \<le> d)"
  shows "case r of
      Inr b \<Rightarrow> \<exists>t. eligible b t \<and> (\<forall>b' t'. eligible b' t' \<longrightarrow> t' \<le> t)
    | Inl exec \<Rightarrow> es_State exec = RestorePending \<and> (\<forall>b t. \<not> eligible b t)"
proof (cases "bestBase st date bs")
  case None
  then have none: "\<forall>b \<in> set bs. pitrCandidate st date b = None" using base_backup.pick_None by blast
  have "\<not> eligible b t" for b t
    using none pitrCandidate_Some [of st date b b] by (auto simp: eligible_def)
  moreover obtain exec where "r = Inl exec" "es_State exec = RestorePending"
    using assms(1,2) None
    by (auto simp: selectPITRBaseBackup_def handleIO_def callIO_def returnIO_def call_defs Let_def noExec_def)
  ultimately show ?thesis by simp
next
  case (Some b)
  then have r: "r = Inr b"
    using assms(1,2)
    by (auto simp: selectPITRBaseBackup_def handleIO_def callIO_def returnIO_def call_defs Let_def)
  obtain x where x: "x \<in> set bs" "pitrCandidate st date x = Some b" using base_backup.pick_seen [OF Some] by blast
  then obtain t where t: "eligible b t" by (auto simp: pitrCandidate_Some eligible_def)
  have "t' \<le> t" if "eligible b' t'" for b' t'
  proof -
    have "pitrCandidate st date b' = Some b'" "b' \<in> set bs" "backupStamp b' = t'"
      using that by (auto simp: pitrCandidate_Some eligible_def backupStamp_def)
    then have "t' \<le> backupStamp b" using base_backup.pick_newest [OF Some] by blast
    with t show ?thesis by (simp add: eligible_def backupStamp_def)
  qed
  with r t show ?thesis by auto
qed

lemma SyncBackup_cases:
  assumes run: "SyncBackup L E c b h = (r, h')"
  obtains (idle) "writes h' = writes h" "\<And>st. r = Inr st \<Longrightarrow> \<exists>m. st = noExec BackupPending m"
    | (put) cr q h2 where "env_psmdb E h (c_Name c) = Inr cr" "bk_Storages (ps_Backup (cr_Spec cr)) (bkp_StorageRef b) \<noteq> None"
        "createOrUpdate (getOpBackup E (bkp_Name b)) (newOpBackup b) (mutateOpBackup L c b)
           (\<lambda>ob. writeCall E (CreateOpBackup ob)) (\<lambda>ob. writeCall E (UpdateOpBackup ob))
           (h @ [Get KPSMDB (c_Name c)]) = (q, h2)"
        "writes h' = writes h2"
        "\<And>st. r = Inr st \<Longrightarrow> \<exists>ob. q = Inr ob \<and>
           backupExec E (ob_Name ob) (obs_State (ob_Status ob)) (obs_Error (ob_Status ob)) h2 = (Inr st, h')"
proof (cases "\<exists>cr. env_psmdb E h (c_Name c) = Inr cr \<and> bk_Storages (ps_Backup (cr_Spec cr)) (bkp_StorageRef b) \<noteq> None")
  case False
  with run have "writes h' = writes h \<and> (\<forall>st. r = Inr st \<longrightarrow> (\<exists>m. st = noExec BackupPending m))"
    by (cases "env_psmdb E h (c_Name c)")
      (auto simp: SyncBackup_def handleIO_def getPSMDB_def callIO_def returnIO_def failIO_def writes_def split: if_splits)
  with idle show thesis by blast
next
  case True
  then obtain cr where cr: "env_psmdb E h (c_Name c) = Inr cr" "bk_Storages (ps_Backup (cr_Spec cr)) (bkp_StorageRef b) \<noteq> None"
    by blast
  let ?put = "createOrUpdate (getOpBackup E (bkp_Name b)) (newOpBackup b) (mutateOpBackup L c b)
    (\<lambda>ob. writeCall E (CreateOpBackup ob)) (\<lambda>ob. writeCall E (UpdateOpBackup ob)) (h @ [Get KPSMDB (c_Name c)])"
  obtain q h2 where q: "?put = (q, h2)" by (cases ?put)
  have ends: "(case q of Inl e \<Rightarrow> (Inl (Wrap ''create or update PSMDB backup'' e), h2)
      | Inr ob \<Rightarrow> backupExec E (ob_Name ob) (obs_State (ob_Status ob)) (obs_Error (ob_Status ob)) h2) = (r, h')"
    using run cr q
    by (auto simp: SyncBackup_def handleIO_def getPSMDB_def callIO_def bindIO_def wrapIO_def split: sum.splits)
  show thesis
  proof (rule put [OF cr q])
    show "writes h' = writes h2"
      using ends readOnly_writes [OF backup_status.exec_readOnly] by (cases q) auto
    show "\<exists>ob. q = Inr ob \<and> backupExec E (ob_Name ob) (obs_State (ob_Status ob)) (obs_Error (ob_Status ob)) h2 = (Inr st, h')"
      if "r = Inr st" for st
      using ends that by (cases q) auto
  qed
qed

text \<open>C19. A backup is written only where it can run, protected and owned: however it ends, \<^verbatim>\<open>SyncBackup\<close> makes at most one
  write, of an operator backup of this cluster on the storage asked for, with the finalizer that guards the stored data and the
  controller that \<^verbatim>\<open>SetControllerReference\<close> sets for the Backup, and only if the cluster's CR registers that storage: a new
  one under the Backup's name when there is none, else the one that was read, changed. It reports success only for an operator
  backup that is ready, and failure only with the operator's error.\<close>

theorem backup_sync_sound:
  assumes run: "SyncBackup L E c b h = (r, h')"
  shows "(writes h' = writes h \<or>
      (\<exists>ob owner cr. env_psmdb E h (c_Name c) = Inr cr \<and> bk_Storages (ps_Backup (cr_Spec cr)) (bkp_StorageRef b) \<noteq> None \<and>
         ob_ClusterName ob = c_Name c \<and> ob_StorageName ob = bkp_StorageRef b \<and>
         ''percona.com/delete-backup'' \<in> set (ob_Finalizers ob) \<and>
         lib_setControllerReference L (bkp_Name b) owner = Inr (ob_Controller ob) \<and>
         (case env_opBackup E (h @ [Get KPSMDB (c_Name c)]) (bkp_Name b) of
            Inl e \<Rightarrow> isNotFound e \<and> writes h' = writes h @ [CreateOpBackup ob] \<and>
              ob_Name ob = bkp_Name b \<and> ob_Namespace ob = bkp_Namespace b \<and> owner = None
          | Inr old \<Rightarrow> writes h' = writes h @ [UpdateOpBackup ob] \<and>
              ob_Name ob = ob_Name old \<and> ob_Namespace ob = ob_Namespace old \<and> owner = ob_Controller old))) \<and>
    (\<forall>st. r = Inr st \<longrightarrow>
      (es_State st = BackupSucceeded \<longrightarrow>
        (\<exists>old. env_opBackup E (h @ [Get KPSMDB (c_Name c)]) (bkp_Name b) = Inr old \<and> obs_State (ob_Status old) = OpBackupReady)) \<and>
      (es_State st = BackupFailed \<longrightarrow>
        (\<exists>old. env_opBackup E (h @ [Get KPSMDB (c_Name c)]) (bkp_Name b) = Inr old \<and> obs_State (ob_Status old) = OpBackupError \<and>
           es_Message st = obs_Error (ob_Status old))))"
  using run
proof (cases rule: SyncBackup_cases)
  case idle
  then show ?thesis by (auto simp: noExec_def)
next
  case (put cr q h2)
  let ?h = "h @ [Get KPSMDB (c_Name c)]"
  have same: "writes ?h = writes h" by (simp add: writes_def)
  have "writes h' = writes h \<or>
      (\<exists>ob. case env_opBackup E ?h (bkp_Name b) of
         Inl e \<Rightarrow> isNotFound e \<and> writes h' = writes h @ [CreateOpBackup ob] \<and>
           ob_Name ob = bkp_Name b \<and> ob_Namespace ob = bkp_Namespace b \<and> backupFits L c b None ob
       | Inr old \<Rightarrow> writes h' = writes h @ [UpdateOpBackup ob] \<and>
           ob_Name ob = ob_Name old \<and> ob_Namespace ob = ob_Namespace old \<and> backupFits L c b (ob_Controller old) ob)"
    using writtenOpBackup [OF put(3)] unfolding put(4) same .
  then have written: "writes h' = writes h \<or>
      (\<exists>ob owner cr. env_psmdb E h (c_Name c) = Inr cr \<and> bk_Storages (ps_Backup (cr_Spec cr)) (bkp_StorageRef b) \<noteq> None \<and>
         ob_ClusterName ob = c_Name c \<and> ob_StorageName ob = bkp_StorageRef b \<and>
         ''percona.com/delete-backup'' \<in> set (ob_Finalizers ob) \<and>
         lib_setControllerReference L (bkp_Name b) owner = Inr (ob_Controller ob) \<and>
         (case env_opBackup E ?h (bkp_Name b) of
            Inl e \<Rightarrow> isNotFound e \<and> writes h' = writes h @ [CreateOpBackup ob] \<and>
              ob_Name ob = bkp_Name b \<and> ob_Namespace ob = bkp_Namespace b \<and> owner = None
          | Inr old \<Rightarrow> writes h' = writes h @ [UpdateOpBackup ob] \<and>
              ob_Name ob = ob_Name old \<and> ob_Namespace ob = ob_Namespace old \<and> owner = ob_Controller old))"
    using put(1,2) unfolding backupFits_def by (cases "env_opBackup E ?h (bkp_Name b)") auto
  have reported: "(es_State st = BackupSucceeded \<longrightarrow>
        (\<exists>old. env_opBackup E ?h (bkp_Name b) = Inr old \<and> obs_State (ob_Status old) = OpBackupReady)) \<and>
      (es_State st = BackupFailed \<longrightarrow>
        (\<exists>old. env_opBackup E ?h (bkp_Name b) = Inr old \<and> obs_State (ob_Status old) = OpBackupError \<and>
           es_Message st = obs_Error (ob_Status old)))" if st: "r = Inr st" for st
  proof -
    obtain ob where ob: "q = Inr ob"
      "backupExec E (ob_Name ob) (obs_State (ob_Status ob)) (obs_Error (ob_Status ob)) h2 = (Inr st, h')"
      using put(5) [OF st] by blast
    show ?thesis
      using syncedOpBackup(5) [OF put(3) [unfolded ob(1)]] backup_status.exec_state(1,2) [OF ob(2)]
        backup_status.exec_message [OF ob(2)] by auto
  qed
  show ?thesis using written reported by blast
qed

text \<open>C38. Backups settle: when the operator backup is as an earlier sync left it, \<^verbatim>\<open>SyncBackup\<close> writes nothing. The
  hypothesis on \<^verbatim>\<open>SetControllerReference\<close> is its documented behaviour on an object it already owns.\<close>

theorem backup_sync_settles:
  assumes owned: "\<And>ctl. lib_setControllerReference L (bkp_Name b) (ob_Controller ob0) = Inr ctl \<Longrightarrow>
      lib_setControllerReference L (bkp_Name b) ctl = Inr ctl"
    and synced: "mutateOpBackup L c b ob0 = Inr ob" "env_opBackup E (h @ [Get KPSMDB (c_Name c)]) (bkp_Name b) = Inr ob"
    and run: "SyncBackup L E c b h = (r, h')"
  shows "writes h' = writes h"
proof -
  have again: "mutateOpBackup L c b ob = Inr ob" using mutateOpBackup_again [OF synced(1) owned] .
  let ?put = "createOrUpdate (getOpBackup E (bkp_Name b)) (newOpBackup b) (mutateOpBackup L c b)
    (\<lambda>ob. writeCall E (CreateOpBackup ob)) (\<lambda>ob. writeCall E (UpdateOpBackup ob))"
  have put: "wrapIO p ?put (h @ [Get KPSMDB (c_Name c)]) =
      (Inr ob, h @ [Get KPSMDB (c_Name c)] @ [Get KOpBackup (bkp_Name b)])" for p
    using again synced(2) by (simp add: createOrUpdate_def call_defs io_defs)
  obtain st h2 where exec: "backupExec E (ob_Name ob) (obs_State (ob_Status ob)) (obs_Error (ob_Status ob))
      (h @ [Get KPSMDB (c_Name c)] @ [Get KOpBackup (bkp_Name b)]) = (Inr st, h2)"
    "writes h2 = writes (h @ [Get KPSMDB (c_Name c)] @ [Get KOpBackup (bkp_Name b)])"
    using backup_status.exec_total by blast
  show ?thesis
    using run put exec
    by (auto simp: SyncBackup_def handleIO_def getPSMDB_def callIO_def returnIO_def failIO_def bindIO_def writes_def
        split: sum.splits if_splits)
qed

lemma SyncRestore_cases:
  assumes run: "SyncRestore L E c r h = (q, h')"
  obtains (idle) "writes h' = writes h" "\<And>st. q = Inr st \<Longrightarrow> es_State st \<noteq> RestoreSucceeded"
    | (put) src target h1 mode h2 p h3 where "resolveRestoreSource L E r h = (Inr (Inr (src, target)), h1)"
        "restoreModeOf E c src h1 = (Inr (Inr mode), h2)" "writes h2 = writes h"
        "createOrUpdate (getOpRestore E (res_Name r)) (newOpRestore r) (mutateOpRestore L c r mode target)
           (\<lambda>ob. writeCall E (CreateOpRestore ob)) (\<lambda>ob. writeCall E (UpdateOpRestore ob)) h2 = (p, h3)"
        "writes h' = writes h3"
        "\<And>st. q = Inr st \<Longrightarrow> \<exists>ob. p = Inr ob \<and> restoreExec E (or_Name ob) (or_State ob) (or_Error ob) h3 = (Inr st, h')"
proof -
  obtain a h1 where res: "resolveRestoreSource L E r h = (a, h1)" by (cases "resolveRestoreSource L E r h")
  have w1: "writes h1 = writes h" using readOnly_writes [OF readOnly_resolveRestoreSource res] .
  show thesis
  proof (cases "\<exists>src target. a = Inr (Inr (src, target))")
    case False
    with run res have "h' = h1 \<and> (\<forall>st. q = Inr st \<longrightarrow> a = Inr (Inl st))"
      by (cases a) (auto simp: SyncRestore_def bindIO_def returnIO_def split: sum.splits)
    with w1 res show thesis by (intro idle) (auto dest: resolveRestoreSource_waits)
  next
    case True
    then obtain src target where a: "a = Inr (Inr (src, target))" by blast
    obtain m h2 where mode: "restoreModeOf E c src h1 = (m, h2)" by (cases "restoreModeOf E c src h1")
    have w2: "writes h2 = writes h" using readOnly_writes [OF readOnly_restoreModeOf mode] w1 by simp
    show thesis
    proof (cases "\<exists>md. m = Inr (Inr md)")
      case False
      with run res a mode have "h' = h2 \<and> (\<forall>st. q = Inr st \<longrightarrow> m = Inr (Inl st))"
        by (cases m) (auto simp: SyncRestore_def bindIO_def returnIO_def split: sum.splits)
      with w2 mode show thesis by (intro idle) (auto dest: restoreModeOf_waits)
    next
      case True
      then obtain md where m: "m = Inr (Inr md)" by blast
      let ?put = "createOrUpdate (getOpRestore E (res_Name r)) (newOpRestore r) (mutateOpRestore L c r md target)
        (\<lambda>ob. writeCall E (CreateOpRestore ob)) (\<lambda>ob. writeCall E (UpdateOpRestore ob)) h2"
      obtain p h3 where p: "?put = (p, h3)" by (cases ?put)
      have ends: "(case p of Inl e \<Rightarrow> (Inl (Wrap ''create or update PSMDB restore'' e), h3)
          | Inr ob \<Rightarrow> restoreExec E (or_Name ob) (or_State ob) (or_Error ob) h3) = (q, h')"
        using run res a mode m p by (auto simp: SyncRestore_def bindIO_def wrapIO_def split: sum.splits)
      show thesis
      proof (rule put [OF res [unfolded a] mode [unfolded m] w2 p])
        show "writes h' = writes h3" using ends readOnly_writes [OF restore_status.exec_readOnly] by (cases p) auto
        show "\<exists>ob. p = Inr ob \<and> restoreExec E (or_Name ob) (or_State ob) (or_Error ob) h3 = (Inr st, h')" if "q = Inr st" for st
          using ends that by (cases p) auto
      qed
    qed
  qed
qed

text \<open>C20. A restore reads from the right place: however it ends, \<^verbatim>\<open>SyncRestore\<close> makes at most one write, of an operator restore
  of this cluster, owned by the Restore, for a source that did not fail: the Backup the Restore names, or a succeeded one of the
  stream it recovers from, with the recovery target it gives. For a backup from outside it names exactly the path in the bucket of
  the storage that was read, with that storage's settings; for another cluster's backup it copies the destination, the storage
  settings, the type and the PBM name from the operator backup that was read; for this cluster's own backup it names just the
  operator backup. It reports success only for an operator restore that is ready.\<close>

theorem restore_sync_sound:
  assumes run: "SyncRestore L E c r h = (q, h')"
  shows "(writes h' = writes h \<or>
      (\<exists>ob owner src h1 h2. resolveRestoreSource L E r h = (Inr (Inr (src, or_PITR ob)), h1) \<and>
         sourceAsked E h r src (or_PITR ob) \<and> bkp_State src \<noteq> BackupFailed \<and> restoreFits E h1 c src ob \<and>
         lib_setControllerReference L (res_Name r) owner = Inr (or_Controller ob) \<and>
         (case env_opRestore E h2 (res_Name r) of
            Inl e \<Rightarrow> isNotFound e \<and> writes h' = writes h @ [CreateOpRestore ob] \<and>
              or_Name ob = res_Name r \<and> or_Namespace ob = res_Namespace r \<and> owner = None
          | Inr old \<Rightarrow> writes h' = writes h @ [UpdateOpRestore ob] \<and>
              or_Name ob = or_Name old \<and> or_Namespace ob = or_Namespace old \<and> owner = or_Controller old))) \<and>
    (\<forall>st. q = Inr st \<longrightarrow> es_State st = RestoreSucceeded \<longrightarrow>
      (\<exists>h2 old. env_opRestore E h2 (res_Name r) = Inr old \<and> or_State old = OpRestoreReady))"
  using run
proof (cases rule: SyncRestore_cases)
  case idle
  then show ?thesis by blast
next
  case (put src target h1 mode h2 p h3)
  have source: "sourceAsked E h r src target" "bkp_State src \<noteq> BackupFailed"
    using resolveRestoreSource_asked [OF put(1)] resolveRestoreSource_not_failed [OF put(1)] .
  have reported: "\<exists>h2 old. env_opRestore E h2 (res_Name r) = Inr old \<and> or_State old = OpRestoreReady"
    if st: "q = Inr st" "es_State st = RestoreSucceeded" for st
  proof -
    obtain ob where ob: "p = Inr ob" "restoreExec E (or_Name ob) (or_State ob) (or_Error ob) h3 = (Inr st, h')"
      using put(6) st(1) by blast
    with syncedOpRestore(2) [OF put(2) put(4) [unfolded ob(1)]] restore_status.exec_state(1) [OF ob(2)] st(2)
    show ?thesis by blast
  qed
  let ?known = "env_opRestore E h2 (res_Name r)"
  consider "writes h' = writes h" | ob where "restoreFits E h1 c src ob" "or_PITR ob = target"
      "case ?known of
         Inl e \<Rightarrow> isNotFound e \<and> writes h' = writes h @ [CreateOpRestore ob] \<and>
           or_Name ob = res_Name r \<and> or_Namespace ob = res_Namespace r \<and>
           lib_setControllerReference L (res_Name r) None = Inr (or_Controller ob)
       | Inr old \<Rightarrow> writes h' = writes h @ [UpdateOpRestore ob] \<and>
           or_Name ob = or_Name old \<and> or_Namespace ob = or_Namespace old \<and>
           lib_setControllerReference L (res_Name r) (or_Controller old) = Inr (or_Controller ob)"
    using writtenOpRestore [OF put(2,4)] unfolding put(3,5) by blast
  then show ?thesis
  proof cases
    case 1
    with reported show ?thesis by blast
  next
    case (2 ob)
    show ?thesis
    proof (rule conjI, rule disjI2, rule exI [of _ ob], rule exI [of _ "case ?known of Inl e \<Rightarrow> None | Inr old \<Rightarrow> or_Controller old"],
        rule exI [of _ src], rule exI [of _ h1], rule exI [of _ h2], intro conjI)
      show "resolveRestoreSource L E r h = (Inr (Inr (src, or_PITR ob)), h1)" "sourceAsked E h r src (or_PITR ob)"
        using put(1) source 2(2) by simp_all
      show "\<forall>st. q = Inr st \<longrightarrow> es_State st = RestoreSucceeded \<longrightarrow>
          (\<exists>h2 old. env_opRestore E h2 (res_Name r) = Inr old \<and> or_State old = OpRestoreReady)"
        using reported by blast
      show "bkp_State src \<noteq> BackupFailed" "restoreFits E h1 c src ob" by (rule source 2)+
      show "lib_setControllerReference L (res_Name r) (case ?known of Inl e \<Rightarrow> None | Inr old \<Rightarrow> or_Controller old) = Inr (or_Controller ob)"
        using 2(3) by (cases ?known) simp_all
      show "case ?known of
          Inl e \<Rightarrow> isNotFound e \<and> writes h' = writes h @ [CreateOpRestore ob] \<and> or_Name ob = res_Name r \<and>
            or_Namespace ob = res_Namespace r \<and> (case ?known of Inl e \<Rightarrow> None | Inr old \<Rightarrow> or_Controller old) = None
        | Inr old \<Rightarrow> writes h' = writes h @ [UpdateOpRestore ob] \<and> or_Name ob = or_Name old \<and>
            or_Namespace ob = or_Namespace old \<and> (case ?known of Inl e \<Rightarrow> None | Inr old \<Rightarrow> or_Controller old) = or_Controller old"
        using 2(3) by (cases ?known) simp_all
    qed
  qed
qed

text \<open>C25. A retained backup keeps its data: when a Backup with the \<^verbatim>\<open>Retain\<close> policy is cleaned up, the operator
  backup is deleted only if it carries no storage finalizer, or after an update that removed it has
  succeeded, so the operator never purges the stored data. Without that policy the finalizer is
  left alone.\<close>

theorem retained_backup_keeps_data:
  assumes run: "CleanupBackup E b h = (r, h')" and there: "env_opBackup E h (bkp_Name b) = Inr ob"
  shows "\<exists>ws. writes h' = writes h @ ws \<and>
    (bkp_DeletionPolicy b = PolicyRetain \<longrightarrow> DeleteObject KOpBackup (ob_Name ob) \<in> set ws \<longrightarrow>
       psmdbDeleteBackupFinalizer \<notin> set (ob_Finalizers ob) \<or>
       (\<exists>ob'. ws = [UpdateOpBackup ob', DeleteObject KOpBackup (ob_Name ob)] \<and> ob_Name ob' = ob_Name ob \<and>
          psmdbDeleteBackupFinalizer \<notin> set (ob_Finalizers ob') \<and>
          env_write E (h @ [Get KOpBackup (bkp_Name b)]) (UpdateOpBackup ob') = None)) \<and>
    (bkp_DeletionPolicy b \<noteq> PolicyRetain \<longrightarrow> set ws \<subseteq> {DeleteObject KOpBackup (ob_Name ob)})"
proof -
  let ?ob' = "withoutStorageFinalizer ob"
  have clean: "psmdbDeleteBackupFinalizer \<notin> set (ob_Finalizers ?ob')" "ob_Name ?ob' = ob_Name ob"
    by (simp_all add: withoutStorageFinalizer_def)
  show ?thesis
    using CleanupBackup_writes [OF run there] clean by (auto split: if_splits)
qed

text \<open>The operator removes an object: \<open>N\<close> calls after its deletion was requested, or it was seen being deleted, it is gone.\<close>

definition removedWithin :: "nat \<Rightarrow> (history \<Rightarrow> go_error + 'o) \<Rightarrow> ('o \<Rightarrow> bool) \<Rightarrow> call \<Rightarrow> bool" where
  "removedWithin N answer deleting request \<longleftrightarrow>
     (\<forall>h cs cs'. (\<exists>ob. answer h = Inr ob \<and> deleting ob) \<or> request \<in> set cs \<longrightarrow> N \<le> length cs' \<longrightarrow>
        answeredGone (answer (h @ cs @ cs')))"

lemma cleanups_return:
  assumes "\<And>h w. env_write E h w = None"
  shows "readable (env_opBackup E h (bkp_Name b)) \<Longrightarrow> \<exists>d h'. CleanupBackup E b h = (Inr d, h')"
    and "readable (env_opRestore E h (res_Name r)) \<Longrightarrow> \<exists>d h'. CleanupRestore E r h = (Inr d, h')"
  using assms
  by (auto simp: CleanupBackup_def CleanupRestore_def readable_def call_defs io_defs split: sum.splits prod.splits)

text \<open>C10. Clean-up ends. The runtime repeats \<^verbatim>\<open>CleanupBackup\<close> and \<^verbatim>\<open>CleanupRestore\<close> until they report that they are done. On a server
  that answers and accepts writes, with an operator that removes an object within \<open>N\<close> calls of its deletion, some round of the
  first \<open>N + 2\<close> reports done, with the object gone, whatever the history before; no round waits for a deletion that nobody requested.\<close>

theorem cleanup_finishes:
  assumes writes: "\<And>h w. env_write E h w = None"
    and backups: "\<And>h. readable (env_opBackup E h (bkp_Name b))"
      "\<And>h ob. env_opBackup E h (bkp_Name b) = Inr ob \<Longrightarrow> ob_Name ob = bkp_Name b"
      "removedWithin N (\<lambda>h. env_opBackup E h (bkp_Name b)) ob_Deleting (DeleteObject KOpBackup (bkp_Name b))"
    and restores: "\<And>h. readable (env_opRestore E h (res_Name r))"
      "\<And>h ob. env_opRestore E h (res_Name r) = Inr ob \<Longrightarrow> or_Name ob = res_Name r"
      "removedWithin N (\<lambda>h. env_opRestore E h (res_Name r)) or_Deleting (DeleteObject KOpRestore (res_Name r))"
  shows "(\<exists>k \<le> Suc N. \<exists>h'. CleanupBackup E b (rounds (CleanupBackup E b) k h) = (Inr True, h') \<and>
       answeredGone (env_opBackup E (rounds (CleanupBackup E b) k h) (bkp_Name b))) \<and>
    (\<exists>k \<le> Suc N. \<exists>h'. CleanupRestore E r (rounds (CleanupRestore E r) k h) = (Inr True, h') \<and>
       answeredGone (env_opRestore E (rounds (CleanupRestore E r) k h) (res_Name r)))"
proof
  show "\<exists>k \<le> Suc N. \<exists>h'. CleanupBackup E b (rounds (CleanupBackup E b) k h) = (Inr True, h') \<and>
       answeredGone (env_opBackup E (rounds (CleanupBackup E b) k h) (bkp_Name b))"
  proof (rule backup_cleanup.finishes)
    show "\<exists>d h'. CleanupBackup E b h = (Inr d, h')" for h using writes backups(1) by (rule cleanups_return)
    fix h cs and cs' :: history
    assume "\<not> answeredGone (env_opBackup E h (bkp_Name b))" "(case env_opBackup E h (bkp_Name b) of Inl _ \<Rightarrow> False | Inr ob \<Rightarrow> ob_Deleting ob) \<or>
        DeleteObject KOpBackup (case env_opBackup E h (bkp_Name b) of Inl _ \<Rightarrow> '''' | Inr ob \<Rightarrow> ob_Name ob) \<in> set cs"
      and "N \<le> length cs'"
    then show "answeredGone (env_opBackup E (h @ cs @ cs') (bkp_Name b))"
      using backups(1) [of h] backups(2) [of h] backups(3) unfolding removedWithin_def
      by (auto simp: answeredGone_def [of "env_opBackup E h _"] readable_def split: sum.splits)
  qed
  show "\<exists>k \<le> Suc N. \<exists>h'. CleanupRestore E r (rounds (CleanupRestore E r) k h) = (Inr True, h') \<and>
       answeredGone (env_opRestore E (rounds (CleanupRestore E r) k h) (res_Name r))"
  proof (rule restore_cleanup.finishes)
    show "\<exists>d h'. CleanupRestore E r h = (Inr d, h')" for h using writes restores(1) by (rule cleanups_return)
    fix h cs and cs' :: history
    assume "\<not> answeredGone (env_opRestore E h (res_Name r))" "(case env_opRestore E h (res_Name r) of Inl _ \<Rightarrow> False | Inr ob \<Rightarrow> or_Deleting ob) \<or>
        DeleteObject KOpRestore (case env_opRestore E h (res_Name r) of Inl _ \<Rightarrow> '''' | Inr ob \<Rightarrow> or_Name ob) \<in> set cs"
      and "N \<le> length cs'"
    then show "answeredGone (env_opRestore E (h @ cs @ cs') (res_Name r))"
      using restores(1) [of h] restores(2) [of h] restores(3) unfolding removedWithin_def
      by (auto simp: answeredGone_def [of "env_opRestore E h _"] readable_def split: sum.splits)
  qed
qed

text \<open>Cleanup is done exactly when the operator's object is gone: both cleanups return true if and only if the
  object was not found (and then wrote nothing), and otherwise its deletion is under way or was
  just requested.\<close>

theorem cleanup_done_iff_gone:
  assumes "CleanupBackup E b h = (Inr d, h1)" "CleanupRestore E r h = (Inr e, h2)"
  shows "d = answeredGone (env_opBackup E h (bkp_Name b)) \<and> e = answeredGone (env_opRestore E h (res_Name r)) \<and>
    (\<not> d \<longrightarrow> (\<exists>ob. env_opBackup E h (bkp_Name b) = Inr ob \<and>
       (ob_Deleting ob \<or> DeleteObject KOpBackup (ob_Name ob) \<in> set (drop (length h) h1)))) \<and>
    (\<not> e \<longrightarrow> (\<exists>ob. env_opRestore E h (res_Name r) = Inr ob \<and>
       (or_Deleting ob \<or> DeleteObject KOpRestore (or_Name ob) \<in> set (drop (length h) h2))))"
proof -
  have "\<exists>ob. env_opBackup E h (bkp_Name b) = Inr ob" if "\<not> d"
    using assms(1) that
    by (auto simp: CleanupBackup_def handleIO_def call_defs io_simps split: sum.splits if_splits prod.splits)
  moreover have "\<exists>ob. env_opRestore E h (res_Name r) = Inr ob" if "\<not> e"
    using assms(2) that
    by (auto simp: CleanupRestore_def handleIO_def call_defs io_simps split: sum.splits if_splits prod.splits)
  ultimately show ?thesis
    using backup_cleanup.done_iff_gone [OF assms(1)] restore_cleanup.done_iff_gone [OF assms(2)]
      backup_cleanup.deletion_requested [OF assms(1)] restore_cleanup.deletion_requested [OF assms(2)]
    by fastforce
qed

section \<open>Witnesses\<close>

definition doneBackup :: backup where
  "doneBackup = externalBackup\<lparr>bkp_OriginType := OriginInstance, bkp_InstanceRef := Some ''my-mongo'',
     bkp_CompletedAt := Some 100\<rparr>"

definition onceBackedUp :: env where
  "onceBackedUp = emptyCluster\<lparr>env_backupsOf := \<lambda>h ns n. Inr [doneBackup], env_backup := \<lambda>h n. Inr doneBackup,
     env_backupStorage := \<lambda>h n. Inr \<lparr>bst_Name = n, bst_S3 = Some sampleBucket\<rparr>\<rparr>"

theorem pitr_base_backup_newest_witness:
  "\<exists>h'. selectPITRBaseBackup plainLib onceBackedUp ''db'' ''my-mongo'' ''s3'' (Some 150) [] = (Inr (Inr doneBackup), h') \<and>
     bkp_CompletedAt doneBackup = Some 100"
proof -
  have bs: "env_backupsOf onceBackedUp [] ''db'' ''my-mongo'' = Inr [doneBackup]" by (simp add: onceBackedUp_def)
  obtain h' where run: "selectPITRBaseBackup plainLib onceBackedUp ''db'' ''my-mongo'' ''s3'' (Some 150) [] =
      (Inr (Inr doneBackup), h')"
    by (simp add: selectPITRBaseBackup_def onceBackedUp_def bestBase_def baseStep_def pitrCandidate_def
        doneBackup_def externalBackup_def call_defs io_defs)
  from pitr_base_backup_newest [OF run bs] have "\<exists>t. bkp_CompletedAt doneBackup = Some t" by auto
  then show ?thesis using run by (auto simp: doneBackup_def)
qed

definition storageCR :: psmdb where
  "storageCR = zeroPSMDB\<lparr>cr_Spec := zeroPSMDBSpec\<lparr>ps_Backup := zeroBackupSpec\<lparr>bk_Storages :=
     [''s3'' \<mapsto> \<lparr>bss_Type = ''s3'', bss_Main = True, bss_S3 = s3SpecOf sampleBucket ''''\<rparr>]\<rparr>\<rparr>\<rparr>"

definition syncedBackup :: opBackup where
  "syncedBackup = readyBackup\<lparr>ob_Finalizers := [psmdbDeleteBackupFinalizer], ob_Controller := Some ''b1''\<rparr>"

definition backupCluster :: env where
  "backupCluster = onceBackedUp\<lparr>env_psmdb := \<lambda>h n. Inr storageCR, env_opBackup := \<lambda>h n. Inr syncedBackup\<rparr>"

lemma syncedBackup_synced: "mutateOpBackup plainLib bareCtx doneBackup readyBackup = Inr syncedBackup"
  by (simp add: mutateOpBackup_def mapRight_def Let_def addFinalizer_def syncedBackup_def readyBackup_def
      doneBackup_def externalBackup_def plainLib_def bareCtx_def)

lemma backupCluster_sync:
  "\<exists>st h'. SyncBackup plainLib backupCluster bareCtx doneBackup [] = (Inr st, h') \<and> es_State st = BackupSucceeded"
  by (simp add: SyncBackup_def createOrUpdate_def backupExec_def mutateOpBackup_def mapRight_def addFinalizer_def
      syncedBackup_def readyBackup_def doneBackup_def externalBackup_def plainLib_def bareCtx_def
      backupCluster_def onceBackedUp_def emptyCluster_def storageCR_def call_defs io_defs Let_def)

text \<open>A cluster that registers the storage and has no operator backup yet.\<close>

definition freshBackupCluster :: env where
  "freshBackupCluster = onceBackedUp\<lparr>env_psmdb := \<lambda>h n. Inr storageCR\<rparr>"

lemma freshBackupCluster_sync:
  "\<exists>r h'. SyncBackup plainLib freshBackupCluster bareCtx doneBackup [] = (r, h') \<and> writes h' \<noteq> []"
  by (simp add: SyncBackup_def createOrUpdate_def backupExec_def mutateOpBackup_def mapRight_def addFinalizer_def
      newOpBackup_def zeroOpStatus_def doneBackup_def externalBackup_def plainLib_def bareCtx_def
      freshBackupCluster_def onceBackedUp_def emptyCluster_def storageCR_def call_defs io_defs Let_def writes_def)

theorem backup_sync_sound_witness:
  "(\<exists>st h' old. SyncBackup plainLib backupCluster bareCtx doneBackup [] = (Inr st, h') \<and> es_State st = BackupSucceeded \<and>
      env_opBackup backupCluster [Get KPSMDB ''my-mongo''] ''b1'' = Inr old \<and> obs_State (ob_Status old) = OpBackupReady) \<and>
   (\<exists>r h' ob. SyncBackup plainLib freshBackupCluster bareCtx doneBackup [] = (r, h') \<and> writes h' = [CreateOpBackup ob] \<and>
      ob_ClusterName ob = ''my-mongo'' \<and> ob_Controller ob = Some ''b1'' \<and> ''percona.com/delete-backup'' \<in> set (ob_Finalizers ob))"
proof
  obtain st h' where run: "SyncBackup plainLib backupCluster bareCtx doneBackup [] = (Inr st, h')"
    and ok: "es_State st = BackupSucceeded" using backupCluster_sync by blast
  from backup_sync_sound [OF run] run ok
  show "\<exists>st h' old. SyncBackup plainLib backupCluster bareCtx doneBackup [] = (Inr st, h') \<and> es_State st = BackupSucceeded \<and>
      env_opBackup backupCluster [Get KPSMDB ''my-mongo''] ''b1'' = Inr old \<and> obs_State (ob_Status old) = OpBackupReady"
    by (auto simp: bareCtx_def doneBackup_def externalBackup_def)
next
  obtain r h' where run: "SyncBackup plainLib freshBackupCluster bareCtx doneBackup [] = (r, h')" and w: "writes h' \<noteq> []"
    using freshBackupCluster_sync by blast
  have "env_opBackup freshBackupCluster h n = Inl (APINotFound n)" for h n
    by (simp add: freshBackupCluster_def onceBackedUp_def emptyCluster_def)
  moreover have "writes [] = []" by (simp add: writes_def)
  ultimately obtain ob where ob: "writes h' = [CreateOpBackup ob]" "ob_ClusterName ob = c_Name bareCtx"
    "''percona.com/delete-backup'' \<in> set (ob_Finalizers ob)"
    "lib_setControllerReference plainLib (bkp_Name doneBackup) None = Inr (ob_Controller ob)"
    using backup_sync_sound [OF run] w by auto
  moreover have "ob_Controller ob = Some ''b1''" "c_Name bareCtx = ''my-mongo''"
    using ob(4) by (simp_all add: plainLib_def doneBackup_def externalBackup_def bareCtx_def)
  ultimately show "\<exists>r h' ob. SyncBackup plainLib freshBackupCluster bareCtx doneBackup [] = (r, h') \<and>
      writes h' = [CreateOpBackup ob] \<and> ob_ClusterName ob = ''my-mongo'' \<and> ob_Controller ob = Some ''b1'' \<and>
      ''percona.com/delete-backup'' \<in> set (ob_Finalizers ob)"
    using run by auto
qed

theorem backup_sync_settles_witness:
  "\<exists>st h'. SyncBackup plainLib backupCluster bareCtx doneBackup [] = (Inr st, h') \<and> writes h' = []"
proof -
  obtain st h' where run: "SyncBackup plainLib backupCluster bareCtx doneBackup [] = (Inr st, h')"
    using backupCluster_sync by blast
  have "writes h' = writes []"
    by (rule backup_sync_settles [OF _ syncedBackup_synced _ run]) (auto simp: plainLib_def backupCluster_def)
  with run show ?thesis by (auto simp: writes_def)
qed

definition sampleRestore :: restore where
  "sampleRestore = \<lparr>res_Name = ''r1'', res_Namespace = ''db'', res_Deleting = False, res_InstanceRef = ''my-mongo'',
     res_DataSource = \<lparr>ds_Type = DataSourceTypeBackup, ds_Backup = Some ''b1'', ds_PointInTime = None\<rparr>,
     res_State = RestoreStateOther ''''\<rparr>"

theorem restore_sync_sound_witness:
  "\<exists>st h' ob. SyncRestore plainLib onceBackedUp bareCtx sampleRestore [] = (Inr st, h') \<and> writes h' = [CreateOpRestore ob] \<and>
     or_ClusterName ob = ''my-mongo'' \<and> or_BackupName ob = ''b1'' \<and> or_BackupSource ob = None \<and>
     es_State st \<noteq> RestoreSucceeded"
proof -
  obtain st h' where run: "SyncRestore plainLib onceBackedUp bareCtx sampleRestore [] = (Inr st, h')"
    and w: "writes h' \<noteq> []"
    by (simp add: SyncRestore_def resolveRestoreSource_def resolveBackupSource_def restoreModeOf_def
        createOrUpdate_def mutateOpRestore_def mapRight_def newOpRestore_def restoreExec_def sampleRestore_def
        onceBackedUp_def doneBackup_def externalBackup_def plainLib_def bareCtx_def emptyCluster_def
        call_defs io_defs Let_def writes_def)
  have none: "env_opRestore onceBackedUp h2 n = Inl (APINotFound n)" for h2 n
    by (simp add: onceBackedUp_def emptyCluster_def)
  have asked: "src = doneBackup" if "sourceAsked onceBackedUp [] sampleRestore src t" for src t
    using that by (auto simp: sourceAsked_def sampleRestore_def onceBackedUp_def)
  have fits: "or_ClusterName ob = ''my-mongo'' \<and> or_BackupName ob = ''b1'' \<and> or_BackupSource ob = None"
    if "restoreFits E h bareCtx doneBackup ob" for E h ob
    using that by (simp add: restoreFits_def operatorName_def doneBackup_def externalBackup_def bareCtx_def)
  have "writes [] = []" by (simp add: writes_def)
  with w none asked fits restore_sync_sound [OF run] obtain ob where "writes h' = [CreateOpRestore ob]"
    "or_ClusterName ob = ''my-mongo''" "or_BackupName ob = ''b1''" "or_BackupSource ob = None" "es_State st \<noteq> RestoreSucceeded"
    by fastforce
  with run show ?thesis by blast
qed

theorem retained_backup_keeps_data_witness:
  "\<exists>h' ws. CleanupBackup backupCluster doneBackup [] = (Inr False, h') \<and> writes h' = ws \<and>
     (DeleteObject KOpBackup ''b1'' \<in> set ws \<longrightarrow> (\<exists>ob'. UpdateOpBackup ob' \<in> set ws))"
proof -
  have there: "env_opBackup backupCluster [] (bkp_Name doneBackup) = Inr syncedBackup" by (simp add: backupCluster_def)
  obtain h' where run: "CleanupBackup backupCluster doneBackup [] = (Inr False, h')"
    by (simp add: CleanupBackup_def backupCluster_def onceBackedUp_def emptyCluster_def syncedBackup_def
        readyBackup_def doneBackup_def externalBackup_def call_defs io_defs)
  have "bkp_DeletionPolicy doneBackup = PolicyRetain" "ob_Name syncedBackup = ''b1''"
    "psmdbDeleteBackupFinalizer \<in> set (ob_Finalizers syncedBackup)"
    by (simp_all add: doneBackup_def externalBackup_def syncedBackup_def readyBackup_def)
  moreover have "writes [] = []" by (simp add: writes_def)
  ultimately show ?thesis
    using run retained_backup_keeps_data [OF run there] by auto
qed

definition cleanedCluster :: env where
  "cleanedCluster = backupCluster\<lparr>env_opBackup := \<lambda>h n. if DeleteObject KOpBackup n \<in> set h then Inl (APINotFound n)
     else Inr (syncedBackup\<lparr>ob_Name := n\<rparr>)\<rparr>"

theorem cleanup_finishes_witness:
  "\<exists>k \<le> 1. \<exists>h'. CleanupBackup cleanedCluster doneBackup (rounds (CleanupBackup cleanedCluster doneBackup) k []) = (Inr True, h')"
proof -
  have "removedWithin 0 (\<lambda>h. env_opBackup cleanedCluster h n) ob_Deleting (DeleteObject KOpBackup n)" for n
    by (auto simp: removedWithin_def cleanedCluster_def answeredGone_def syncedBackup_def readyBackup_def)
  moreover have "removedWithin 0 (\<lambda>h. env_opRestore cleanedCluster h n) or_Deleting (DeleteObject KOpRestore n)" for n
    by (simp add: removedWithin_def cleanedCluster_def backupCluster_def onceBackedUp_def emptyCluster_def answeredGone_def)
  moreover have "env_write cleanedCluster h w = None" "readable (env_opBackup cleanedCluster h n)"
    "env_opBackup cleanedCluster h n = Inr ob \<Longrightarrow> ob_Name ob = n" "env_opRestore cleanedCluster h n = Inl (APINotFound n)" for h w n ob
    by (auto simp: cleanedCluster_def backupCluster_def onceBackedUp_def emptyCluster_def readable_def split: if_splits)
  ultimately show ?thesis
    using cleanup_finishes [of cleanedCluster doneBackup 0 sampleRestore "[]"] by (auto simp: readable_def)
qed

theorem cleanup_done_iff_gone_witness:
  "\<exists>h1 h2. CleanupBackup backupCluster doneBackup [] = (Inr False, h1) \<and>
     DeleteObject KOpBackup ''b1'' \<in> set h1 \<and> CleanupRestore backupCluster sampleRestore [] = (Inr True, h2)"
proof -
  obtain h1 where h1: "CleanupBackup backupCluster doneBackup [] = (Inr False, h1)"
    by (simp add: CleanupBackup_def backupCluster_def onceBackedUp_def emptyCluster_def syncedBackup_def
        readyBackup_def doneBackup_def externalBackup_def call_defs io_defs)
  obtain h2 where h2: "CleanupRestore backupCluster sampleRestore [] = (Inr True, h2)"
    by (simp add: CleanupRestore_def backupCluster_def onceBackedUp_def emptyCluster_def call_defs io_defs)
  from cleanup_done_iff_gone [OF h1 h2] show ?thesis
    using h1 h2 by (auto simp: backupCluster_def syncedBackup_def readyBackup_def)
qed

definition dumpBackup :: backup where
  "dumpBackup = externalBackup\<lparr>bkp_External := Some \<lparr>oe_Path = ''/psmdb/2026/'', oe_StartedAt = 0, oe_CompletedAt = 0,
     oe_SourceMetadata = None\<rparr>\<rparr>"

theorem external_backup_location_witness:
  "\<exists>s h'. buildExternalBackupSource onceBackedUp dumpBackup [] = (Inr (Inr s), h') \<and>
     obs_Destination s = ''s3://b/psmdb/2026''"
proof -
  have trim: "trimByte ''/psmdb/2026/'' CHR ''/'' = ''psmdb/2026''" by code_simp
  obtain s h' where run: "buildExternalBackupSource onceBackedUp dumpBackup [] = (Inr (Inr s), h')"
    by (simp add: buildExternalBackupSource_def dumpBackup_def externalBackup_def onceBackedUp_def sampleBucket_def
        call_defs io_defs Let_def)
  from external_backup_location [OF run] show ?thesis
    using run trim by (auto simp: dumpBackup_def onceBackedUp_def sampleBucket_def)
qed

end
