(* ===== verification/Backup_Import.thy ===== *)
theory Backup_Import
  imports Backup_Run
begin

text \<open>
  Importing backups that Percona Backup for MongoDB left in a bucket (backup\_import.go): every metadata
  document of a finished backup becomes a Backup whose name is a 64-bit FNV-1a hash of storage and
  path. The S3 service is the record \<open>s3api\<close>: the client it builds or refuses, the pages of a
  bucket's listing, and the objects.
\<close>

unbundle bit_operations_syntax

section \<open>Names\<close>

type_synonym u64 = "64 word"

text \<open>\<^verbatim>\<open>hash/fnv.New64a\<close>.\<close>

definition fnvOffset :: u64 where
  "fnvOffset = 14695981039346656037"

definition fnvPrime :: u64 where
  "fnvPrime = 1099511628211"

definition fnvByte :: "char \<Rightarrow> u64 \<Rightarrow> u64" where
  "fnvByte b h = (h XOR word_of_nat (of_char b)) * fnvPrime"

definition fnvWrite :: "string \<Rightarrow> u64 \<Rightarrow> u64" where
  "fnvWrite bs h = fold fnvByte bs h"

definition hexDigit :: "nat \<Rightarrow> char" where
  "hexDigit n = (if n < 10 then digit n else char_of (87 + n))"

text \<open>\<^verbatim>\<open>%016x\<close>.\<close>

definition hex16 :: "u64 \<Rightarrow> string" where
  "hex16 w = map (\<lambda>i. hexDigit (unat (drop_bit (4 * i) w) mod 16)) (rev [0..<16])"

definition importBackupName :: "string \<Rightarrow> string \<Rightarrow> string" where
  "importBackupName storageName p =
     ''import-'' @ hex16 (fnvWrite p (fnvWrite [CHR 0x00] (fnvWrite storageName fnvOffset)))"

section \<open>Metadata documents\<close>

definition pbmMetadataSuffix :: string where
  "pbmMetadataSuffix = ''.pbm.json''"

definition pbmStatusDone :: string where
  "pbmStatusDone = ''done''"

definition maxPBMMetaSize :: nat where
  "maxPBMMetaSize = 1048576"

record pbmReplset =
  pr_IsConfigServer :: bool

record pbmBackupMeta =
  pm_Status :: string
  pm_StartTS :: int
  pm_LastTransitionTS :: int
  pm_MongoDBVersion :: string
  pm_Type :: string
  pm_Replsets :: "pbmReplset list"

definition zeroMeta :: pbmBackupMeta where
  "zeroMeta = \<lparr>pm_Status = '''', pm_StartTS = 0, pm_LastTransitionTS = 0, pm_MongoDBVersion = '''',
     pm_Type = '''', pm_Replsets = []\<rparr>"

text \<open>Decoding an \<^verbatim>\<open>int64\<close>, a \<^verbatim>\<open>bool\<close> and a slice of structs.\<close>

definition decodeInt64 :: "json \<Rightarrow> int \<Rightarrow> go_error + int" where
  "decodeInt64 j old =
     (case j of
        JNull \<Rightarrow> Inr old
      | JInt i \<Rightarrow> if - (2 ^ 63) \<le> i \<and> i < 2 ^ 63 then Inr i else Inl typeError
      | _ \<Rightarrow> Inl typeError)"

definition decodeBool :: "json \<Rightarrow> bool \<Rightarrow> go_error + bool" where
  "decodeBool j old = (case j of JNull \<Rightarrow> Inr old | JBool b \<Rightarrow> Inr b | _ \<Rightarrow> Inl typeError)"

definition decodeSlice :: "'s field list \<Rightarrow> 's \<Rightarrow> json \<Rightarrow> go_error + 's list" where
  "decodeSlice fs zero j =
     (case j of
        JNull \<Rightarrow> Inr []
      | JArray js \<Rightarrow> collectRight (map (\<lambda>e. decodeStruct fs e zero) js)
      | _ \<Rightarrow> Inl typeError)"

definition replsetFields :: "pbmReplset field list" where
  "replsetFields =
     [(''iscs'', \<lambda>j s. mapRight (\<lambda>v. s\<lparr>pr_IsConfigServer := v\<rparr>) (decodeBool j (pr_IsConfigServer s)))]"

definition metaFields :: "pbmBackupMeta field list" where
  "metaFields =
     [(''status'', \<lambda>j s. mapRight (\<lambda>v. s\<lparr>pm_Status := v\<rparr>) (decodeString j (pm_Status s))),
      (''start_ts'', \<lambda>j s. mapRight (\<lambda>v. s\<lparr>pm_StartTS := v\<rparr>) (decodeInt64 j (pm_StartTS s))),
      (''last_transition_ts'', \<lambda>j s. mapRight (\<lambda>v. s\<lparr>pm_LastTransitionTS := v\<rparr>) (decodeInt64 j (pm_LastTransitionTS s))),
      (''mongodb_version'', \<lambda>j s. mapRight (\<lambda>v. s\<lparr>pm_MongoDBVersion := v\<rparr>) (decodeString j (pm_MongoDBVersion s))),
      (''type'', \<lambda>j s. mapRight (\<lambda>v. s\<lparr>pm_Type := v\<rparr>) (decodeString j (pm_Type s))),
      (''replsets'', \<lambda>j s. mapRight (\<lambda>v. s\<lparr>pm_Replsets := v\<rparr>)
         (decodeSlice replsetFields \<lparr>pr_IsConfigServer = False\<rparr> j))]"

definition topologyFromReplsets :: "pbmReplset list \<Rightarrow> string" where
  "topologyFromReplsets rss =
     (if list_ex pr_IsConfigServer rss then TopologyTypeSharded else TopologyTypeReplicaSet)"

record backupImport =
  imp_Namespace :: string
  imp_ClassRef :: string
  imp_StorageRef :: string

definition unmarshalMeta :: "lib \<Rightarrow> raw \<Rightarrow> go_error + pbmBackupMeta" where
  "unmarshalMeta L data =
     (case lib_jsonParse L data of
        Inl e \<Rightarrow> Inl (Wrap ''unmarshal PBM metadata'' e)
      | Inr j \<Rightarrow> (case decodeStruct metaFields j zeroMeta of
          Inl e \<Rightarrow> Inl (Wrap ''unmarshal PBM metadata'' e)
        | Inr m \<Rightarrow> Inr m))"

definition importedBackup :: "backupImport \<Rightarrow> string \<Rightarrow> pbmBackupMeta \<Rightarrow> backup" where
  "importedBackup imp p m =
     \<lparr>bkp_Name = importBackupName (imp_StorageRef imp) p, bkp_Namespace = imp_Namespace imp,
      bkp_OriginType = OriginExternal, bkp_InstanceRef = None,
      bkp_External = Some \<lparr>oe_Path = p, oe_StartedAt = pm_StartTS m, oe_CompletedAt = pm_LastTransitionTS m,
        oe_SourceMetadata = Some \<lparr>sm_EngineVersion = pm_MongoDBVersion m, sm_BackupType = pm_Type m,
          sm_Topology = topologyFromReplsets (pm_Replsets m)\<rparr>\<rparr>,
      bkp_ClassRef = imp_ClassRef imp, bkp_StorageRef = imp_StorageRef imp, bkp_ScheduleName = '''',
      bkp_DeletionPolicy = PolicyRetain, bkp_State = BackupStateOther '''', bkp_CompletedAt = None,
      bkp_OperatorBackupRef = None\<rparr>"

definition parsePBM :: "lib \<Rightarrow> backupImport \<Rightarrow> string \<Rightarrow> raw \<Rightarrow> go_error + backup option" where
  "parsePBM L imp key data =
     (case unmarshalMeta L data of
        Inl e \<Rightarrow> Inl e
      | Inr m \<Rightarrow>
          (if pm_Status m \<noteq> pbmStatusDone then Inr None
           else Inr (Some (importedBackup imp (trimSuffix key pbmMetadataSuffix) m))))"

section \<open>Listing a bucket\<close>

record s3api =
  s3_NewClient :: "backupStorage \<Rightarrow> go_error option"
  s3_Pages :: "string \<Rightarrow> (go_error + string list) list"
  s3_Object :: "string \<Rightarrow> string \<Rightarrow> go_error + raw"

definition getObject :: "s3api \<Rightarrow> string \<Rightarrow> string \<Rightarrow> go_error + raw" where
  "getObject S bucket key = mapRight (take maxPBMMetaSize) (s3_Object S bucket key)"

text \<open>The objects of one page.\<close>

fun importPage :: "lib \<Rightarrow> s3api \<Rightarrow> backupImport \<Rightarrow> string \<Rightarrow> string list \<Rightarrow> go_error + backup list" where
  "importPage L S imp bucket [] = Inr []"
| "importPage L S imp bucket (key # keys) =
     (if \<not> hasSuffix key pbmMetadataSuffix then importPage L S imp bucket keys
      else case getObject S bucket key of
             Inl e \<Rightarrow> Inl (Wrap (''read '' @ quote key) e)
           | Inr data \<Rightarrow>
               (case parsePBM L imp key data of
                  Inr (Some b) \<Rightarrow> mapRight ((#) b) (importPage L S imp bucket keys)
                | _ \<Rightarrow> importPage L S imp bucket keys))"

fun importPages :: "lib \<Rightarrow> s3api \<Rightarrow> backupImport \<Rightarrow> string \<Rightarrow> (go_error + string list) list \<Rightarrow> go_error + backup list" where
  "importPages L S imp bucket [] = Inr []"
| "importPages L S imp bucket (page # pages) =
     (case page of
        Inl e \<Rightarrow> Inl (Wrap (''list objects in bucket '' @ quote bucket) e)
      | Inr keys \<Rightarrow>
          (case importPage L S imp bucket keys of
             Inl e \<Rightarrow> Inl e
           | Inr bs \<Rightarrow> mapRight ((@) bs) (importPages L S imp bucket pages)))"

text \<open>The backups of an import that succeeded, or the error.\<close>

definition ImportBackups :: "lib \<Rightarrow> s3api \<Rightarrow> backupImport \<Rightarrow> backupStorage \<Rightarrow> go_error + backup list" where
  "ImportBackups L S imp storage =
     (case s3_NewClient S storage of
        Some e \<Rightarrow> Inl (Wrap ''build S3 client'' e)
      | None \<Rightarrow>
          (case bst_S3 storage of
             None \<Rightarrow> Inl (Panic ''nil pointer dereference'')
           | Some s3 \<Rightarrow> importPages L S imp (s3s_Bucket s3) (s3_Pages S (s3s_Bucket s3))))"

section \<open>Lemmas on names\<close>

lemma fnvPrime_inverse: "fnvPrime * 14886173955864302971 = 1"
  by (simp add: fnvPrime_def)

lemma times_fnvPrime_inject: "a * fnvPrime = b * fnvPrime \<Longrightarrow> a = b"
proof -
  assume "a * fnvPrime = b * fnvPrime"
  then have "a * (fnvPrime * 14886173955864302971) = b * (fnvPrime * 14886173955864302971)"
    by (simp add: mult.assoc [symmetric])
  then show ?thesis by (simp add: fnvPrime_inverse)
qed

lemma xor_left_inject: "a XOR b = a XOR c \<longleftrightarrow> b = (c :: u64)"
  by (metis xor.left_commute xor_self_eq xor.right_neutral xor.commute)

lemma fnvByte_inject_hash: "fnvByte b h = fnvByte b h' \<Longrightarrow> h = h'"
  unfolding fnvByte_def by (drule times_fnvPrime_inject) (simp add: xor_left_inject xor.commute [of _ "word_of_nat (of_char b)"])

lemma word_of_char_inject: "(word_of_nat (of_char a) :: u64) = word_of_nat (of_char b) \<longleftrightarrow> a = b"
proof
  assume "(word_of_nat (of_char a) :: u64) = word_of_nat (of_char b)"
  then have "unat (word_of_nat (of_char a) :: u64) = unat (word_of_nat (of_char b) :: u64)" by simp
  moreover have "unat (word_of_nat (of_char ch) :: u64) = of_char ch" for ch
  proof -
    have "(of_char ch :: nat) < 18446744073709551616"
      by (rule less_le_trans [OF nat_of_char_less_256]) simp
    then show ?thesis by (simp add: unsigned_of_nat take_bit_eq_mod)
  qed
  ultimately show "a = b" by (metis char_of_char)
qed simp

lemma fnvByte_inject_byte: "fnvByte a h = fnvByte b h \<Longrightarrow> a = b"
  unfolding fnvByte_def by (drule times_fnvPrime_inject) (simp add: xor_left_inject word_of_char_inject)

lemma fnvWrite_inject_hash: "fnvWrite bs h = fnvWrite bs h' \<Longrightarrow> h = h'"
  unfolding fnvWrite_def by (induction bs arbitrary: h h') (auto dest: fnvByte_inject_hash)

text \<open>The hash tells apart any two texts that differ in one byte.\<close>

lemma fnvWrite_one_byte:
  "fnvWrite (u @ a # v) h = fnvWrite (u @ b # v) h \<longleftrightarrow> a = b"
proof
  assume "fnvWrite (u @ a # v) h = fnvWrite (u @ b # v) h"
  then have "fnvWrite v (fnvByte a (fnvWrite u h)) = fnvWrite v (fnvByte b (fnvWrite u h))"
    by (simp add: fnvWrite_def)
  then show "a = b" using fnvWrite_inject_hash fnvByte_inject_byte by blast
qed simp

lemma of_char_hexDigit: "n < 16 \<Longrightarrow> (of_char (hexDigit n) :: nat) = (if n < 10 then 48 + n else 87 + n)"
  by (auto simp: hexDigit_def of_char_digit of_char_of take_bit_eq_mod)

lemma hexDigit_inject: "m < 16 \<Longrightarrow> n < 16 \<Longrightarrow> hexDigit m = hexDigit n \<Longrightarrow> m = n"
  by (drule arg_cong [where f = "of_char :: char \<Rightarrow> nat"]) (auto simp: of_char_hexDigit split: if_splits)

lemma hexDigit_alnum: "n < 16 \<Longrightarrow> isLowerAlnum (hexDigit n)"
  by (auto simp: isLowerAlnum_def isLower_def isDigit_def of_char_hexDigit)

lemma nibble_bit: "bit (unat (drop_bit (4 * i) w) mod 16) k \<longleftrightarrow> k < 4 \<and> bit (w :: u64) (4 * i + k)"
proof -
  have "unat (drop_bit (4 * i) w) mod 16 = take_bit 4 (unat (drop_bit (4 * i) w))"
    by (simp add: take_bit_eq_mod)
  then show ?thesis
    by (simp add: bit_take_bit_iff bit_unsigned_iff bit_drop_bit_eq)
qed

lemma hex16_inject: "hex16 v = hex16 w \<Longrightarrow> v = w"
proof -
  assume eq: "hex16 v = hex16 w"
  have nibble: "unat (drop_bit (4 * i) v) mod 16 = unat (drop_bit (4 * i) w) mod 16" if "i < 16" for i
    using eq that by (intro hexDigit_inject) (auto simp: hex16_def simp del: upt_rec_numeral)
  show ?thesis
  proof (rule bit_word_eqI)
    fix n assume "n < LENGTH(64)"
    then have "n div 4 < 16" by simp
    from nibble [OF this] have "bit v (4 * (n div 4) + n mod 4) = bit w (4 * (n div 4) + n mod 4)"
      using nibble_bit [of "n div 4" v "n mod 4"] nibble_bit [of "n div 4" w "n mod 4"] by simp
    then show "bit v n = bit w n" by simp
  qed
qed

lemma length_hex16: "length (hex16 w) = 16"
  by (simp add: hex16_def)

lemma hex16_alnum: "list_all isLowerAlnum (hex16 w)"
  by (auto simp: hex16_def list_all_iff hexDigit_alnum)

lemma importBackupName_eq:
  "importBackupName s p = importBackupName s' p' \<longleftrightarrow>
     fnvWrite (s @ [CHR 0x00] @ p) fnvOffset = fnvWrite (s' @ [CHR 0x00] @ p') fnvOffset"
  by (auto simp: importBackupName_def fnvWrite_def dest: hex16_inject)

lemma importBackupName_rfc1035: "rfc1035Match (importBackupName s p)"
proof -
  define h where "h = hex16 (fnvWrite p (fnvWrite [CHR 0x00] (fnvWrite s fnvOffset)))"
  have h: "h \<noteq> []" "length h = 16" "list_all isLowerAlnum h"
    using length_hex16 hex16_alnum by (auto simp: h_def) (metis length_hex16 list.size(3) zero_neq_numeral)
  have "list_all isLabelChar (''mport-'' @ butlast h)"
    using h(3) by (auto simp: list_all_iff isLabelChar_def isLowerAlnum_def isLower_def dest: in_set_butlastD)
  moreover have "isLowerAlnum (last h)" using h by (auto simp: list_all_iff)
  moreover have "importBackupName s p = CHR ''i'' # ''mport-'' @ h"
    by (simp add: importBackupName_def h_def)
  moreover have "isLower CHR ''i''" by (simp add: isLower_def)
  ultimately show ?thesis
    using h(1,2) by (simp add: butlast_append)
qed

section \<open>Lemmas on imports\<close>

lemma map_filter_member: "b \<in> set (List.map_filter f xs) \<Longrightarrow> \<exists>x \<in> set xs. f x = Some b"
  by (induction xs) (auto simp: map_filter_simps split: option.splits)

text \<open>What one object of the bucket contributes: nothing, or the backup its metadata describes.\<close>

definition importOf :: "lib \<Rightarrow> s3api \<Rightarrow> backupImport \<Rightarrow> string \<Rightarrow> string \<Rightarrow> backup option" where
  "importOf L S imp bucket key =
     (if hasSuffix key pbmMetadataSuffix
      then (case getObject S bucket key of
              Inl _ \<Rightarrow> None
            | Inr data \<Rightarrow> (case parsePBM L imp key data of Inr (Some b) \<Rightarrow> Some b | _ \<Rightarrow> None))
      else None)"

lemma importPage_ok: "importPage L S imp bucket keys = Inr bs \<Longrightarrow> bs = List.map_filter (importOf L S imp bucket) keys"
proof (induction keys arbitrary: bs)
  case Nil
  then show ?case by simp
next
  case (Cons key keys)
  show ?case
  proof (cases "importOf L S imp bucket key")
    case None
    then have "importPage L S imp bucket keys = Inr bs"
      using Cons.prems by (auto simp: importOf_def split: if_splits sum.splits option.splits)
    with Cons.IH None show ?thesis by (simp add: map_filter_simps)
  next
    case (Some b)
    then obtain bs' where "importPage L S imp bucket keys = Inr bs'" "bs = b # bs'"
      using Cons.prems by (auto simp: importOf_def mapRight_def split: if_splits sum.splits option.splits)
    with Cons.IH Some show ?thesis by (simp add: map_filter_simps)
  qed
qed

lemma importPages_ok:
  "importPages L S imp bucket pages = Inr bs \<Longrightarrow>
     \<exists>keys. pages = map Inr keys \<and> bs = List.map_filter (importOf L S imp bucket) (concat keys)"
proof (induction pages arbitrary: bs)
  case Nil
  then show ?case by simp
next
  case (Cons page pages)
  then obtain ks bs1 bs2 where ks: "page = Inr ks" "importPage L S imp bucket ks = Inr bs1"
    "importPages L S imp bucket pages = Inr bs2" "bs = bs1 @ bs2"
    by (auto simp: mapRight_def split: sum.splits)
  obtain keys where keys: "pages = map Inr keys" "bs2 = List.map_filter (importOf L S imp bucket) (concat keys)"
    using Cons.IH [OF ks(3)] by blast
  have "List.map_filter f (xs @ ys) = List.map_filter f xs @ List.map_filter f ys" for f :: "string \<Rightarrow> backup option" and xs ys
    by (induction xs) (auto simp: map_filter_simps split: option.splits)
  then show ?case
    using ks keys importPage_ok [OF ks(2)] by (intro exI [of _ "ks # keys"]) simp
qed

section \<open>Properties\<close>

text \<open>C39. Imported backups get valid names, and the name tells paths apart: it is always an RFC 1035 label
  of 23 characters, two names are equal exactly when the 64-bit hashes are, and two paths of the same
  storage that differ in one byte never share a name.\<close>

theorem import_names:
  "length (importBackupName s p) = 23 \<and> rfc1035Match (importBackupName s p) \<and>
   (importBackupName s p = importBackupName s' p' \<longleftrightarrow>
      fnvWrite (s @ [CHR 0x00] @ p) fnvOffset = fnvWrite (s' @ [CHR 0x00] @ p') fnvOffset) \<and>
   (importBackupName s (u @ a # v) = importBackupName s (u @ b # v) \<longleftrightarrow> a = b)"
proof -
  have "importBackupName s (u @ a # v) = importBackupName s (u @ b # v) \<longleftrightarrow> a = b"
    using fnvWrite_one_byte [of "s @ CHR 0x00 # u" a v fnvOffset b] by (simp add: importBackupName_eq)
  then show ?thesis
    using importBackupName_rfc1035 importBackupName_eq length_hex16 by (simp add: importBackupName_def)
qed

text \<open>A finished backup under a key: the key ends in \<^verbatim>\<open>.pbm.json\<close>, the first MiB of the object is a JSON document that
  decodes, and its status is \<^verbatim>\<open>done\<close>. \<open>p\<close> is the key without the suffix.\<close>

definition finishedAt :: "lib \<Rightarrow> s3api \<Rightarrow> string \<Rightarrow> string \<Rightarrow> string \<Rightarrow> pbmBackupMeta \<Rightarrow> bool" where
  "finishedAt L S bucket key p m \<longleftrightarrow> key = p @ ''.pbm.json'' \<and>
     (\<exists>data j. s3_Object S bucket key = Inr data \<and> lib_jsonParse L (take (1024 * 1024) data) = Inr j \<and>
        decodeStruct metaFields j zeroMeta = Inr m \<and> pm_Status m = ''done'')"

text \<open>The Backup for it: external, kept when deleted, on the storage of the import, with what the document says of the backup.\<close>

definition describes :: "backupImport \<Rightarrow> string \<Rightarrow> pbmBackupMeta \<Rightarrow> backup \<Rightarrow> bool" where
  "describes imp p m b \<longleftrightarrow>
     bkp_Name b = importBackupName (imp_StorageRef imp) p \<and> bkp_Namespace b = imp_Namespace imp \<and>
     bkp_OriginType b = OriginExternal \<and> bkp_InstanceRef b = None \<and> bkp_DeletionPolicy b = PolicyRetain \<and>
     bkp_ClassRef b = imp_ClassRef imp \<and> bkp_StorageRef b = imp_StorageRef imp \<and>
     bkp_ScheduleName b = '''' \<and> bkp_State b = BackupStateOther '''' \<and> bkp_CompletedAt b = None \<and> bkp_OperatorBackupRef b = None \<and>
     (\<exists>ext sm. bkp_External b = Some ext \<and> oe_Path ext = p \<and> oe_StartedAt ext = pm_StartTS m \<and>
        oe_CompletedAt ext = pm_LastTransitionTS m \<and> oe_SourceMetadata ext = Some sm \<and>
        sm_EngineVersion sm = pm_MongoDBVersion m \<and> sm_BackupType sm = pm_Type m \<and>
        sm_Topology sm = (if \<exists>rs \<in> set (pm_Replsets m). pr_IsConfigServer rs then ''sharded'' else ''replicaSet''))"

lemma describes_importedBackup: "describes imp p m b \<longleftrightarrow> b = importedBackup imp p m"
proof -
  have kind: "(if \<exists>rs \<in> set (pm_Replsets m). pr_IsConfigServer rs then ''sharded'' else ''replicaSet'') = topologyFromReplsets (pm_Replsets m)"
    by (simp add: topologyFromReplsets_def list_ex_iff TopologyTypeSharded_def TopologyTypeReplicaSet_def)
  show ?thesis
    unfolding describes_def importedBackup_def kind
    by (cases b) (auto intro!: originExternal.equality sourceMetadata.equality)
qed

lemma importOf_Some: "importOf L S imp bucket key = Some b \<longleftrightarrow> (\<exists>p m. finishedAt L S bucket key p m \<and> describes imp p m b)"
proof (cases "hasSuffix key pbmMetadataSuffix")
  case False
  then show ?thesis by (auto simp: importOf_def finishedAt_def hasSuffix_iff pbmMetadataSuffix_def)
next
  case True
  then obtain p where p: "key = p @ pbmMetadataSuffix" unfolding hasSuffix_iff by blast
  then have "trimSuffix key pbmMetadataSuffix = p" by simp
  with True p show ?thesis
    unfolding importOf_def getObject_def parsePBM_def unmarshalMeta_def finishedAt_def describes_importedBackup
    by (auto simp: pbmMetadataSuffix_def pbmStatusDone_def maxPBMMetaSize_def mapRight_def split: sum.splits)
qed

lemma list_all2_map_filter:
  assumes "list_all2 P (filter (\<lambda>x. f x \<noteq> None) xs) ys" "\<And>x y z. f x = Some z \<Longrightarrow> P x y \<Longrightarrow> y = z"
  shows "ys = List.map_filter f xs"
  using assms(1)
  by (induction xs arbitrary: ys) (auto simp: map_filter_simps list_all2_Cons1 dest: assms(2) split: option.splits if_splits)

lemma map_filter_list_all2:
  "(\<And>x y. f x = Some y \<Longrightarrow> P x y) \<Longrightarrow> list_all2 P (filter (\<lambda>x. f x \<noteq> None) xs) (List.map_filter f xs)"
  by (induction xs) (auto simp: map_filter_simps split: option.splits)

text \<open>The import fails on the first page or metadata object that cannot be read, and only then.\<close>

abbreviation readableKeys :: "s3api \<Rightarrow> string \<Rightarrow> string list \<Rightarrow> bool" where
  "readableKeys S bucket keys \<equiv> \<forall>key \<in> set keys. hasSuffix key pbmMetadataSuffix \<longrightarrow> (\<exists>data. s3_Object S bucket key = Inr data)"

lemma importPage_total: "(\<exists>bs. importPage L S imp bucket keys = Inr bs) \<longleftrightarrow> readableKeys S bucket keys"
proof (induction keys)
  case (Cons key keys)
  have "(\<exists>bs. mapRight f r = Inr bs) \<longleftrightarrow> (\<exists>bs. r = Inr bs)" for f :: "backup list \<Rightarrow> backup list" and r :: "go_error + backup list"
    by (auto simp: mapRight_def split: sum.splits)
  with Cons show ?case
    by (cases "s3_Object S bucket key") (auto simp: getObject_def mapRight_def split: sum.splits option.splits)
qed simp

lemma map_Inr_inject: "map Inr xs = (map Inr ys :: ('e + 'a) list) \<longleftrightarrow> xs = ys"
  by (rule inj_map_eq_map) (simp add: inj_def)

lemma importPages_total:
  "(\<exists>bs. importPages L S imp bucket pages = Inr bs) \<longleftrightarrow> (\<exists>keys. pages = map Inr keys \<and> readableKeys S bucket (concat keys))"
proof (induction pages)
  case (Cons page pages)
  show ?case
  proof (cases page)
    case (Inl e)
    then show ?thesis by (auto simp: Cons_eq_map_conv)
  next
    case (Inr ks)
    have "(\<exists>bs. importPages L S imp bucket (page # pages) = Inr bs) \<longleftrightarrow>
        readableKeys S bucket ks \<and> (\<exists>bs. importPages L S imp bucket pages = Inr bs)"
      unfolding importPage_total [symmetric, where L = L and imp = imp]
      using Inr by (auto simp: mapRight_def split: sum.splits)
    also have "\<dots> \<longleftrightarrow> (\<exists>keys. page # pages = map Inr keys \<and> readableKeys S bucket (concat keys))"
      unfolding Cons.IH using Inr by (auto simp: Cons_eq_map_conv)
    finally show ?thesis .
  qed
qed simp

text \<open>C33. An import finds every finished backup and nothing else: it succeeds exactly when the client is built, the storage is
  an S3 one, every page is listed and every object whose key ends in \<^verbatim>\<open>.pbm.json\<close> can be read; its backups then correspond one
  to one, in the order of the listing, to the keys with a finished backup, whose document parses with status \<^verbatim>\<open>done\<close>. Each is external,
  keeps its data when deleted, carries the storage of the import, the path of its key and what the document says; all other
  objects, metadata that does not parse included, give none.\<close>

theorem import_finds_finished_backups:
  "ImportBackups L S imp storage = Inr bs \<longleftrightarrow>
    (\<exists>s3 keys. s3_NewClient S storage = None \<and> bst_S3 storage = Some s3 \<and> s3_Pages S (s3s_Bucket s3) = map Inr keys \<and>
       (\<forall>key \<in> set (concat keys). (\<exists>p. key = p @ ''.pbm.json'') \<longrightarrow> (\<exists>data. s3_Object S (s3s_Bucket s3) key = Inr data)) \<and>
       list_all2 (\<lambda>key b. \<exists>p m. finishedAt L S (s3s_Bucket s3) key p m \<and> describes imp p m b)
         (filter (\<lambda>key. \<exists>p m. finishedAt L S (s3s_Bucket s3) key p m) (concat keys)) bs)"
proof (cases "s3_NewClient S storage = None \<and> bst_S3 storage \<noteq> None")
  case False
  then show ?thesis by (auto simp: ImportBackups_def split: option.splits)
next
  case True
  then obtain s3 where s3: "s3_NewClient S storage = None" "bst_S3 storage = Some s3" by auto
  let ?b = "s3s_Bucket s3"
  let ?of = "importOf L S imp ?b"
  have key: "(\<exists>p m. finishedAt L S ?b key p m) \<longleftrightarrow> ?of key \<noteq> None" for key
    using importOf_Some [of L S imp ?b key] unfolding describes_importedBackup by blast
  have list: "list_all2 (\<lambda>key b. \<exists>p m. finishedAt L S ?b key p m \<and> describes imp p m b) (filter (\<lambda>key. \<exists>p m. finishedAt L S ?b key p m) ks) xs
      \<longleftrightarrow> xs = List.map_filter ?of ks" for ks xs
    unfolding key importOf_Some [symmetric] using list_all2_map_filter [of "\<lambda>k b. ?of k = Some b" ?of ks xs]
      map_filter_list_all2 [of ?of "\<lambda>k b. ?of k = Some b" ks] by auto
  have "ImportBackups L S imp storage = importPages L S imp ?b (s3_Pages S ?b)" using s3 by (simp add: ImportBackups_def)
  moreover have "importPages L S imp ?b pages = Inr bs \<longleftrightarrow>
      (\<exists>keys. pages = map Inr keys \<and> readableKeys S ?b (concat keys) \<and> bs = List.map_filter ?of (concat keys))" for pages
  proof
    assume run: "importPages L S imp ?b pages = Inr bs"
    then obtain keys where "pages = map Inr keys" "readableKeys S ?b (concat keys)"
      using importPages_total [of L S imp ?b pages] by blast
    with importPages_ok [OF run] show "\<exists>keys. pages = map Inr keys \<and> readableKeys S ?b (concat keys) \<and> bs = List.map_filter ?of (concat keys)"
      by (auto simp: map_Inr_inject)
  next
    assume "\<exists>keys. pages = map Inr keys \<and> readableKeys S ?b (concat keys) \<and> bs = List.map_filter ?of (concat keys)"
    then obtain keys where keys: "pages = map Inr keys" "readableKeys S ?b (concat keys)" "bs = List.map_filter ?of (concat keys)"
      by blast
    then obtain bs' where run: "importPages L S imp ?b pages = Inr bs'" using importPages_total [of L S imp ?b pages] by blast
    with importPages_ok [OF run] keys(1,3) show "importPages L S imp ?b pages = Inr bs" by (auto simp: map_Inr_inject)
  qed
  ultimately show ?thesis
    using s3 by (auto simp: list hasSuffix_iff pbmMetadataSuffix_def)
qed

section \<open>Witnesses\<close>

definition doneDocument :: json where
  "doneDocument = JObject [(''status'', JString ''done''), (''start_ts'', JInt 1), (''last_transition_ts'', JInt 2),
     (''replsets'', JArray [JObject [(''iscs'', JBool True)]])]"

definition documentLib :: lib where
  "documentLib = plainLib\<lparr>lib_jsonParse := \<lambda>r. Inr doneDocument\<rparr>"

definition sampleS3 :: s3api where
  "sampleS3 = \<lparr>s3_NewClient = \<lambda>s. None, s3_Pages = \<lambda>b. [Inr [''a.pbm.json'', ''a/data''], Inr []],
     s3_Object = \<lambda>b k. Inr ''{}''\<rparr>"

definition sampleImport :: backupImport where
  "sampleImport = \<lparr>imp_Namespace = ''db'', imp_ClassRef = ''pbm'', imp_StorageRef = ''s3''\<rparr>"

definition sampleStorage :: backupStorage where
  "sampleStorage = \<lparr>bst_Name = ''s3'', bst_S3 = Some sampleBucket\<rparr>"

definition doneMeta :: pbmBackupMeta where
  "doneMeta = zeroMeta\<lparr>pm_Status := ''done'', pm_StartTS := 1, pm_LastTransitionTS := 2,
     pm_Replsets := [\<lparr>pr_IsConfigServer = True\<rparr>]\<rparr>"

lemma doneDocument_decodes: "decodeStruct metaFields doneDocument zeroMeta = Inr doneMeta"
  by code_simp

lemma sampleImport_runs:
  "ImportBackups documentLib sampleS3 sampleImport sampleStorage =
     Inr [importedBackup sampleImport (trimSuffix ''a.pbm.json'' pbmMetadataSuffix) doneMeta]"
proof -
  have "hasSuffix ''a.pbm.json'' pbmMetadataSuffix" "\<not> hasSuffix ''a/data'' pbmMetadataSuffix" by code_simp+
  moreover have "pm_Status doneMeta = pbmStatusDone" by code_simp
  moreover have "unmarshalMeta documentLib d = Inr doneMeta" for d
    using doneDocument_decodes by (simp add: unmarshalMeta_def documentLib_def)
  ultimately show ?thesis
    by (simp add: ImportBackups_def sampleS3_def sampleStorage_def parsePBM_def getObject_def mapRight_def)
qed

theorem import_finds_finished_backups_witness:
  "\<exists>b ext. ImportBackups documentLib sampleS3 sampleImport sampleStorage = Inr [b] \<and>
     bkp_DeletionPolicy b = PolicyRetain \<and> bkp_OriginType b = OriginExternal \<and> bkp_External b = Some ext \<and> oe_Path ext = ''a''"
proof -
  let ?b = "importedBackup sampleImport ''a'' doneMeta"
  have keys: "(p @ ''.pbm.json'' = ''a.pbm.json'') = (p = ''a'')" "\<not> hasSuffix ''a/data'' ''.pbm.json''" for p
    using append_same_eq [of p "''.pbm.json''" "''a''"] by (simp, code_simp)
  have fin: "finishedAt documentLib sampleS3 b key p m \<longleftrightarrow> key = p @ ''.pbm.json'' \<and> m = doneMeta" for b key p m
    using doneDocument_decodes by (auto simp: finishedAt_def sampleS3_def documentLib_def doneMeta_def)
  have "ImportBackups documentLib sampleS3 sampleImport sampleStorage = Inr [?b]"
    unfolding import_finds_finished_backups
  proof (intro exI [of _ sampleBucket] exI [of _ "[[''a.pbm.json'', ''a/data''], []]"] conjI)
    show "list_all2 (\<lambda>key b. \<exists>p m. finishedAt documentLib sampleS3 (s3s_Bucket sampleBucket) key p m \<and> describes sampleImport p m b)
        (filter (\<lambda>key. \<exists>p m. finishedAt documentLib sampleS3 (s3s_Bucket sampleBucket) key p m) (concat [[''a.pbm.json'', ''a/data''], []])) [?b]"
      using keys unfolding fin describes_importedBackup hasSuffix_iff by (auto simp: eq_commute)
  qed (auto simp: sampleS3_def sampleStorage_def)
  moreover have "describes sampleImport ''a'' doneMeta ?b" by (simp add: describes_importedBackup)
  ultimately show ?thesis unfolding describes_def by blast
qed

end
