(* ===== verification/Monitoring.thy ===== *)
theory Monitoring
  imports Backup_Import
begin

text \<open>
  Monitoring (metrics.go, pmm.go, monitoring.go, monitoring\_sources.go): the exporter sidecars, the PMM client
  and its resources, the token in the users secret, and the endpoints that are published.
\<close>

section \<open>Metrics exporter\<close>

definition metricsExporterComponentType :: string where
  "metricsExporterComponentType = ''mongodbExporter''"

definition metricsExporterContainerName :: string where
  "metricsExporterContainerName = ''mongodb-exporter''"

definition metricsPortName :: string where
  "metricsPortName = ''metrics''"

definition metricsPort :: int where
  "metricsPort = 9216"

definition metricsPath :: string where
  "metricsPath = ''/metrics''"

definition sslVolumeName :: string where
  "sslVolumeName = ''ssl''"

definition mongodExporterCollectors :: "string list" where
  "mongodExporterCollectors =
     [''--collector.diagnosticdata'', ''--collector.replicasetstatus'', ''--collector.dbstats'',
      ''--collector.topmetrics'', ''--collector.currentopmetrics'', ''--collector.indexstats'',
      ''--collector.collstats'', ''--collector.collstats-limit=200'']"

definition mongosExporterCollectors :: "string list" where
  "mongosExporterCollectors = [''--collector.diagnosticdata'', ''--collector.shards'']"

definition metricsExporterResources :: resourceRequirements where
  "metricsExporterResources =
     \<lparr>rr_Limits = None, rr_Requests = Some [ResourceCPU \<mapsto> qMilli 50, ResourceMemory \<mapsto> qMi 64]\<rparr>"

definition metricsExporterSidecar ::
  "lib \<Rightarrow> string \<Rightarrow> string \<Rightarrow> int32 \<Rightarrow> bool \<Rightarrow> string list \<Rightarrow> container" where
  "metricsExporterSidecar L img usersSecretName mongoPort useTLS collectors =
     (let uri = ''mongodb://127.0.0.1:'' @ itoa (i32 mongoPort) @
            (if useTLS then ''/?tls=true&tlsInsecure=true&tlsCertificateFile='' @ lib_sslDir L @
               ''/tls.crt&tlsPrivateKeyFile='' @ lib_sslDir L @ ''/tls.key'' else '''')
      in \<lparr>ct_Name = metricsExporterContainerName, ct_Image = img,
          ct_Args = [''--mongodb.uri='' @ uri, ''--mongodb.direct-connect'', ''--compatible-mode'',
                     ''--web.listen-address=:'' @ itoa metricsPort] @ collectors,
          ct_Env = [\<lparr>ev_Name = ''MONGODB_USER'', ev_SecretName = usersSecretName,
                     ev_SecretKey = ''MONGODB_CLUSTER_MONITOR_USER''\<rparr>,
                    \<lparr>ev_Name = ''MONGODB_PASSWORD'', ev_SecretName = usersSecretName,
                     ev_SecretKey = ''MONGODB_CLUSTER_MONITOR_PASSWORD''\<rparr>],
          ct_Ports = [(metricsPortName, metricsPort, ''TCP'')],
          ct_VolumeMounts = (if useTLS then [(sslVolumeName, lib_sslDir L, True)] else []),
          ct_Resources = metricsExporterResources\<rparr>)"

definition hasMetricsExporter :: "psmdb \<Rightarrow> bool" where
  "hasMetricsExporter cr =
     list_ex (\<lambda>rs. list_ex (\<lambda>sc. ct_Name sc = metricsExporterContainerName) (az_Sidecars (rs_MultiAZ rs)))
       (ps_Replsets (cr_Spec cr))"

definition metricsExporterRequired :: "lib \<Rightarrow> env \<Rightarrow> ctx \<Rightarrow> bool act" where
  "metricsExporterRequired L E c =
     bindIO (readRequiredSources E) (\<lambda>(metrics, _).
     bindIO (liveEngine E c) (\<lambda>live.
     returnIO (lib_else L metrics (hasMetricsExporter live))))"

definition addSidecar :: "container \<Rightarrow> multiAZ \<Rightarrow> multiAZ" where
  "addSidecar sc az = az\<lparr>az_Sidecars := az_Sidecars az @ [sc]\<rparr>"

definition configureMetricsExporter :: "lib \<Rightarrow> env \<Rightarrow> ctx \<Rightarrow> string \<Rightarrow> psmdb \<Rightarrow> psmdb act" where
  "configureMetricsExporter L E c usersSecretName cr =
     bindIO (metricsExporterRequired L E c) (\<lambda>required.
     if \<not> required then returnIO cr
     else bindIO (wrapIO ''get provider spec'' (readProviderSpec E)) (\<lambda>spec.
       let img = lib_getDefaultImage L spec metricsExporterComponentType;
           useTLS = (case ps_TLS (cr_Spec cr) of None \<Rightarrow> True | Some t \<Rightarrow> tls_SpecMode t \<noteq> ''disabled'');
           sidecar = (\<lambda>port collectors. metricsExporterSidecar L img usersSecretName port useTLS collectors);
           onReplset = (\<lambda>rs. rs\<lparr>rs_MultiAZ := addSidecar (sidecar (lib_rsPort L rs) mongodExporterCollectors) (rs_MultiAZ rs)\<rparr>);
           cr1 = setReplsets onReplset cr
       in if img = ''''
          then failIO (Errorf (''provider spec has no image for component type '' @ quote metricsExporterComponentType))
          else if \<not> sh_Enabled (ps_Sharding (cr_Spec cr)) then returnIO cr1
          else bindIO (derefIO (sh_Configsvr (ps_Sharding (cr_Spec cr)))) (\<lambda>cfg.
               bindIO (derefIO (sh_Mongos (ps_Sharding (cr_Spec cr)))) (\<lambda>mos.
               returnIO (setSharding (onReplset cfg)
                 (mos\<lparr>mos_MultiAZ := addSidecar (sidecar (lib_mongosPort L mos) mongosExporterCollectors) (mos_MultiAZ mos)\<rparr>)
                 cr1)))))"

section \<open>PMM client resources\<close>

definition Kibibyte :: int where
  "Kibibyte = 1024"

definition Mebibyte :: int where
  "Mebibyte = 1024 * Kibibyte"

definition memoryMediumSize :: quantity where
  "memoryMediumSize = qG 8"

definition memoryLargeSize :: quantity where
  "memoryLargeSize = qG 32"

definition pmmResourcesSmall :: resourceRequirements where
  "pmmResourcesSmall = \<lparr>rr_Limits = None, rr_Requests = Some
     [ResourceMemory \<mapsto> qUnit (97 * Mebibyte + 276 * Kibibyte), ResourceCPU \<mapsto> qMilli 95]\<rparr>"

definition pmmResourcesMedium :: resourceRequirements where
  "pmmResourcesMedium = \<lparr>rr_Limits = None, rr_Requests = Some
     [ResourceMemory \<mapsto> qUnit (194 * Mebibyte + 512 * Kibibyte), ResourceCPU \<mapsto> qMilli 228]\<rparr>"

definition pmmResourcesLarge :: resourceRequirements where
  "pmmResourcesLarge = \<lparr>rr_Limits = None, rr_Requests = Some
     [ResourceMemory \<mapsto> qUnit (778 * Mebibyte + 235 * Kibibyte), ResourceCPU \<mapsto> qMilli 228]\<rparr>"

text \<open>One step of the loop of \<^verbatim>\<open>mergeResourceList\<close>, on the map being built.\<close>

definition mergeStep :: "resourceList option \<Rightarrow> resourceList option \<Rightarrow> string \<Rightarrow> resourceList \<Rightarrow> resourceList" where
  "mergeStep requested dflt n merged =
     (if qtyOf (rlGet requested n) \<noteq> 0 then merged(n \<mapsto> qtyOf (rlGet requested n))
      else if qtyOf (rlGet dflt n) \<noteq> 0 then merged(n \<mapsto> qtyOf (rlGet dflt n))
      else merged)"

definition mergeResourceList :: "resourceList option \<Rightarrow> resourceList option \<Rightarrow> resourceList option" where
  "mergeResourceList requested dflt =
     (let merged = fold (mergeStep requested dflt) managedResources Map.empty
      in if list_all (\<lambda>n. merged n = None) managedResources then None else Some merged)"

text \<open>The loop of \<^verbatim>\<open>mergeResources\<close>: default requests above the limit are lowered, explicit ones rejected.\<close>

fun capRequests ::
  "lib \<Rightarrow> resourceRequirements \<Rightarrow> string list \<Rightarrow> resourceRequirements \<Rightarrow> go_error + resourceRequirements" where
  "capRequests L requested [] res = Inr res"
| "capRequests L requested (n # ns) res =
     (case (rlGet (rr_Requests res) n, rlGet (rr_Limits res) n) of
        (Some request, Some limit) \<Rightarrow>
          (if request \<le> limit then capRequests L requested ns res
           else if qtyOf (rlGet (rr_Requests requested) n) \<noteq> 0
           then Inl (Errorf (''resources.requests.'' @ n @ '' '' @ lib_quantityString L request @
                  '' exceeds resources.limits.'' @ n @ '' '' @ lib_quantityString L limit))
           else capRequests L requested ns (res\<lparr>rr_Requests := map_option (\<lambda>m. m(n \<mapsto> limit)) (rr_Requests res)\<rparr>))
      | _ \<Rightarrow> capRequests L requested ns res)"

definition mergeResources :: "lib \<Rightarrow> resourceRequirements \<Rightarrow> resourceRequirements \<Rightarrow> go_error + resourceRequirements" where
  "mergeResources L requested dflt =
     capRequests L requested managedResources
       \<lparr>rr_Limits = mergeResourceList (rr_Limits requested) (rr_Limits dflt),
        rr_Requests = mergeResourceList (rr_Requests requested) (rr_Requests dflt)\<rparr>"

definition pmmDefaults :: "ctx \<Rightarrow> resourceRequirements" where
  "pmmDefaults c =
     (let engineMemoryLimits = (case comp_Resources (compAt (c_Components c) ComponentEngine) of
            None \<Rightarrow> 0 | Some r \<Rightarrow> qtyOf (rlGet (rr_Limits r) ResourceMemory))
      in if memoryLargeSize \<le> engineMemoryLimits then pmmResourcesLarge
         else if memoryMediumSize \<le> engineMemoryLimits then pmmResourcesMedium
         else pmmResourcesSmall)"

definition getPMMResources :: "lib \<Rightarrow> ctx \<Rightarrow> resourceRequirements \<Rightarrow> go_error + resourceRequirements" where
  "getPMMResources L c requested = mergeResources L requested (pmmDefaults c)"

section \<open>PMM labels and token\<close>

text \<open>\<^verbatim>\<open>[^a-zA-Z0-9_]\<close> replaced by an underscore.\<close>

definition isPrometheusChar :: "char \<Rightarrow> bool" where
  "isPrometheusChar ch \<longleftrightarrow> isDigit ch \<or> isLower ch \<or> (65 \<le> (of_char ch :: nat) \<and> (of_char ch :: nat) \<le> 90) \<or> ch = CHR ''_''"

definition prometheusLabelName :: "string \<Rightarrow> string" where
  "prometheusLabelName key = map (\<lambda>ch. if isPrometheusChar ch then ch else CHR ''_'') key"

definition pmmAdminParams :: "lib \<Rightarrow> ctx \<Rightarrow> string \<Rightarrow> string" where
  "pmmAdminParams L c component =
     ''--custom-labels='' @ joinWith '',''
       ([''namespace='' @ c_Namespace c, prometheusLabelName (lib_instanceLabel L) @ ''='' @ c_Name c] @
        (if component \<noteq> '''' then [prometheusLabelName (lib_componentLabel L) @ ''='' @ component] else []))"

definition removeSecretData :: "env \<Rightarrow> string \<Rightarrow> string \<Rightarrow> unit act" where
  "removeSecretData E name key =
     handleIO (getSecret E name) (\<lambda>r. case r of
       Inl e \<Rightarrow> if isNotFound e then returnIO () else failIO (Wrap (''failed to get secret '' @ name) e)
     | Inr sec \<Rightarrow> if sec_Data sec key = None then returnIO () else writeCall E (ApplySecret name []))"

section \<open>PMM bindings\<close>

definition pmmIntegration :: string where
  "pmmIntegration = ''pmm''"

definition MonitoringIntegrations :: "string list" where
  "MonitoringIntegrations = [pmmIntegration]"

record pmmDestinationParameters =
  pdp_URL :: string

definition destinationFields :: "pmmDestinationParameters field list" where
  "destinationFields = [(''url'', \<lambda>j s. mapRight (\<lambda>v. s\<lparr>pdp_URL := v\<rparr>) (decodeString j (pdp_URL s)))]"

definition destinationURL :: "lib \<Rightarrow> resolvedBinding \<Rightarrow> go_error + string" where
  "destinationURL L rb =
     (case rb_DestinationParameters rb of
        None \<Rightarrow> Inr ''''
      | Some r \<Rightarrow>
          (case lib_jsonParse L r of
             Inl e \<Rightarrow> Inl e
           | Inr j \<Rightarrow> mapRight pdp_URL (decodeStruct destinationFields j \<lparr>pdp_URL = ''''\<rparr>)))"

definition entryResources :: "lib \<Rightarrow> resolvedBinding \<Rightarrow> go_error + resourceRequirements" where
  "entryResources L rb =
     (case rb_BindingParameters rb of None \<Rightarrow> Inr zeroResources | Some r \<Rightarrow> lib_pmmResources L r)"

text \<open>A failure of the binding as it is configured: \<^verbatim>\<open>renderFailedf("p: %w", err)\<close>.\<close>

definition orRenderFailure :: "string \<Rightarrow> go_error + 'a \<Rightarrow> 'a act" where
  "orRenderFailure p r = (case r of Inl e \<Rightarrow> failIO (RenderFailure (Wrap p e)) | Inr x \<Rightarrow> returnIO x)"

text \<open>The agent's image; the pointer to it is not checked.\<close>

definition pmmAgentImage :: "resolvedBinding \<Rightarrow> string act" where
  "pmmAgentImage rb =
     bindIO (derefIO (rb_ProviderManaged rb)) (\<lambda>agentImage.
       if agentImage = ''''
       then failIO (RenderFailure (Errorf (''MonitoringClass '' @ quote (rb_ClassName rb) @ '' sets no providerManaged.agentImage'')))
       else returnIO agentImage)"

text \<open>The server's host: the destination's URL must be absolute.\<close>

definition pmmServerHost :: "lib \<Rightarrow> resolvedBinding \<Rightarrow> string act" where
  "pmmServerHost L rb =
     bindIO (orRenderFailure (''decode MonitoringDestination '' @ quote (rb_DestinationName rb) @ '' parameters'')
       (destinationURL L rb)) (\<lambda>url.
     let host = (case lib_urlHost L url of None \<Rightarrow> '''' | Some h \<Rightarrow> h)
     in if host = ''''
        then failIO (RenderFailure (Errorf (''MonitoringDestination '' @ quote (rb_DestinationName rb) @
               '' parameters.url '' @ quote url @ '': not an absolute URL'')))
        else returnIO host)"

text \<open>The token: a missing Secret or key is a failure to render, other API errors are retried.\<close>

definition pmmToken :: "env \<Rightarrow> resolvedBinding \<Rightarrow> string act" where
  "pmmToken E rb =
     handleIO (readMonitoringCredentials E rb) (\<lambda>r. case r of
       Inl e \<Rightarrow> if isStatusError e \<and> \<not> isNotFound e then failIO (Wrap ''read PMM credentials'' e)
                else failIO (RenderFailure e)
     | Inr credentials \<Rightarrow>
         (let token = (case credentials ''token'' of None \<Rightarrow> '''' | Some t \<Rightarrow> t)
          in if token = ''''
             then failIO (RenderFailure (Errorf (''MonitoringDestination '' @ quote (rb_DestinationName rb) @
                    '' credentials carry no token'')))
             else returnIO token))"

definition renderPMMBinding :: "lib \<Rightarrow> env \<Rightarrow> ctx \<Rightarrow> string \<Rightarrow> resolvedBinding \<Rightarrow> psmdb \<Rightarrow> psmdb act" where
  "renderPMMBinding L E c usersSecretName rb cr =
     bindIO (pmmAgentImage rb) (\<lambda>agentImage.
     bindIO (pmmServerHost L rb) (\<lambda>host.
     bindIO (pmmToken E rb) (\<lambda>token.
     bindIO (orRenderFailure ''decode binding parameters'' (entryResources L rb)) (\<lambda>requested.
     bindIO (orRenderFailure ''binding parameters'' (getPMMResources L c requested)) (\<lambda>resources.
     bindIO (wrapIO ''copy PMM token to users secret''
       (writeCall E (ApplySecret usersSecretName [(lib_pmmServerToken L, token)]))) (\<lambda>_.
     returnIO (cr\<lparr>cr_Spec := (cr_Spec cr)\<lparr>ps_PMM :=
       \<lparr>pmm_Enabled = True, pmm_ServerHost = host, pmm_Image = agentImage, pmm_Resources = resources,
        pmm_MongodParams = pmmAdminParams L c '''',
        pmm_MongosParams = pmmAdminParams L c ComponentProxy\<rparr>\<rparr>\<rparr>)))))))"

definition setPMM :: "pmmSpec \<Rightarrow> psmdb \<Rightarrow> psmdb" where
  "setPMM p cr = cr\<lparr>cr_Spec := (cr_Spec cr)\<lparr>ps_PMM := p\<rparr>\<rparr>"

text \<open>The loop over the bindings; \<open>live\<close> is the CR as it was read.\<close>

fun renderBindings :: "lib \<Rightarrow> env \<Rightarrow> ctx \<Rightarrow> string \<Rightarrow> psmdb \<Rightarrow> resolvedBinding list \<Rightarrow> psmdb \<Rightarrow> psmdb act" where
  "renderBindings L E c usersSecretName live [] cr = returnIO cr"
| "renderBindings L E c usersSecretName live (rb # rbs) cr =
     (if \<not> rb_Apply rb \<or> rb_Integration rb \<noteq> pmmIntegration then renderBindings L E c usersSecretName live rbs cr
      else handleIO (renderPMMBinding L E c usersSecretName rb cr) (\<lambda>r. case r of
        Inl e \<Rightarrow>
          (if isRenderFailure e
           then bindIO (setMonitoringBindingResult (rb_Name rb) ''RenderFailed'' (errText (lib_errText L) e)) (\<lambda>_.
                renderBindings L E c usersSecretName live rbs (setPMM (ps_PMM (cr_Spec live)) cr))
           else failIO (Wrap (''render PMM binding '' @ rb_Name rb) e))
      | Inr cr' \<Rightarrow>
          bindIO (setMonitoringBindingResult (rb_Name rb) ''AgentTLSNotVerified''
            ''pmm-client does not verify the PMM server certificate, whatever spec.tls says: the Percona operator runs it with PMM_AGENT_SERVER_INSECURE_TLS=1'') (\<lambda>_.
          renderBindings L E c usersSecretName live rbs cr')))"

definition applyPMMBindings :: "lib \<Rightarrow> env \<Rightarrow> ctx \<Rightarrow> string \<Rightarrow> psmdb \<Rightarrow> psmdb act" where
  "applyPMMBindings L E c usersSecretName cr =
     bindIO (readRequiredSources E) (\<lambda>(_, integrations).
     bindIO (liveEngine E c) (\<lambda>live.
       let pmm = (case integrations pmmIntegration of None \<Rightarrow> lib_zeroRequirement L | Some q \<Rightarrow> q)
       in if pmm = Required
          then bindIO (readMonitoringBindings E) (\<lambda>bindings. renderBindings L E c usersSecretName live bindings cr)
          else if lib_else L pmm (pmm_Enabled (ps_PMM (cr_Spec live)))
          then returnIO (setPMM (ps_PMM (cr_Spec live)) cr)
          else if pmm = NotRequired \<and> \<not> pmm_Enabled (ps_PMM (cr_Spec live))
          then bindIO (removeSecretData E usersSecretName (lib_pmmServerToken L)) (\<lambda>_. returnIO cr)
          else returnIO cr))"

section \<open>Published endpoints\<close>

record metricsEndpoint =
  me_Component :: string
  me_Kind :: string
  me_PodSelector :: "(string \<times> string) list"
  me_Port :: string
  me_Path :: string
  me_Scheme :: string

definition readyPods :: "psmdb \<Rightarrow> string \<Rightarrow> int" where
  "readyPods cr n = (case pst_ReplsetReady (cr_Status cr) n of None \<Rightarrow> 0 | Some k \<Rightarrow> i32 k)"

definition servingComponents :: "lib \<Rightarrow> psmdb \<Rightarrow> string list" where
  "servingComponents L cr =
     (if list_ex (\<lambda>rs. 0 < readyPods cr (rs_Name rs)) (ps_Replsets (cr_Spec cr)) then [ComponentEngine] else []) @
     (if \<not> sh_Enabled (ps_Sharding (cr_Spec cr)) then []
      else (if 0 < readyPods cr (lib_configReplSetName L) then [ComponentConfigServer] else []) @
           (case pst_MongosReady (cr_Status cr) of
              None \<Rightarrow> [] | Some k \<Rightarrow> if 0 < i32 k then [ComponentProxy] else []))"

definition endpointFor :: "lib \<Rightarrow> ctx \<Rightarrow> string \<Rightarrow> metricsEndpoint" where
  "endpointFor L c component =
     \<lparr>me_Component = component, me_Kind = ''mongodb'',
      me_PodSelector = [(lib_instanceLabel L, c_Name c), (lib_componentLabel L, component)],
      me_Port = metricsPortName, me_Path = metricsPath, me_Scheme = ''http''\<rparr>"

definition MonitoringSources :: "lib \<Rightarrow> env \<Rightarrow> ctx \<Rightarrow> metricsEndpoint list act" where
  "MonitoringSources L E c =
     bindIO (liveEngine E c) (\<lambda>cr.
       if \<not> hasMetricsExporter cr then returnIO []
       else bindIO (hiddenMembersServing L E c cr) (\<lambda>hiddenServing.
         returnIO (map (endpointFor L c)
           (servingComponents L cr @ (if hiddenServing then [ComponentHidden] else [])))))"

section \<open>Merging resources\<close>

lemma mergeResourceList_get:
  "rlGet (mergeResourceList a b) n =
     (if n \<notin> set managedResources then None
      else if qtyOf (rlGet a n) \<noteq> 0 then Some (qtyOf (rlGet a n))
      else if qtyOf (rlGet b n) \<noteq> 0 then Some (qtyOf (rlGet b n)) else None)"
  by (auto simp: mergeResourceList_def mergeStep_def rlGet_def Let_def)

interpretation pmm_merge: resource_defaulting mergeResourceList
  by unfold_locales (auto simp: mergeResourceList_get qtyOf_def)

text \<open>A request lowered to its limit.\<close>

definition cap :: "quantity option \<Rightarrow> quantity option \<Rightarrow> quantity option" where
  "cap request limit =
     (case (request, limit) of (Some r, Some l) \<Rightarrow> Some (min r l) | _ \<Rightarrow> request)"

definition overLimit :: "resourceRequirements \<Rightarrow> string \<Rightarrow> bool" where
  "overLimit res n = (\<exists>r l. rlGet (rr_Requests res) n = Some r \<and> rlGet (rr_Limits res) n = Some l \<and> l < r)"

lemma rlGet_upd: "rlGet (map_option (\<lambda>m. m(n \<mapsto> v)) rl) k = (if k = n \<and> rl \<noteq> None then Some v else rlGet rl k)"
  by (auto simp: rlGet_def split: option.splits)

lemma rlGet_Some_ne: "rlGet rl n = Some v \<Longrightarrow> rl \<noteq> None"
  by (cases rl) (auto simp: rlGet_def)

lemma capRequests_ok:
  assumes "capRequests L requested ns res = Inr res'" "distinct ns"
  shows "rr_Limits res' = rr_Limits res"
    and "rlGet (rr_Requests res') n =
      (if n \<in> set ns then cap (rlGet (rr_Requests res) n) (rlGet (rr_Limits res) n) else rlGet (rr_Requests res) n)"
    and "n \<in> set ns \<Longrightarrow> overLimit res n \<Longrightarrow> qtyOf (rlGet (rr_Requests requested) n) = 0"
proof -
  have "rr_Limits res' = rr_Limits res \<and>
      rlGet (rr_Requests res') n =
        (if n \<in> set ns then cap (rlGet (rr_Requests res) n) (rlGet (rr_Limits res) n) else rlGet (rr_Requests res) n) \<and>
      (n \<in> set ns \<longrightarrow> overLimit res n \<longrightarrow> qtyOf (rlGet (rr_Requests requested) n) = 0)"
    using assms
  proof (induction ns arbitrary: res)
    case Nil
    then show ?case by simp
  next
    case (Cons k ns)
    show ?case
    proof (cases "overLimit res k")
      case True
      then obtain r l where rl: "rlGet (rr_Requests res) k = Some r" "rlGet (rr_Limits res) k = Some l" "l < r"
        by (auto simp: overLimit_def)
      let ?res1 = "res\<lparr>rr_Requests := map_option (\<lambda>m. m(k \<mapsto> l)) (rr_Requests res)\<rparr>"
      have run: "capRequests L requested ns ?res1 = Inr res'" "qtyOf (rlGet (rr_Requests requested) k) = 0"
        using Cons.prems(1) rl by (auto split: if_splits)
      have get: "rlGet (rr_Requests ?res1) n = (if n = k then Some l else rlGet (rr_Requests res) n)"
        using rlGet_Some_ne [OF rl(1)] by (simp add: rlGet_upd)
      have "k \<notin> set ns" "distinct ns" using Cons.prems(2) by simp_all
      then show ?thesis
        using Cons.IH [OF run(1)] get rl run(2) by (auto simp: cap_def overLimit_def)
    next
      case False
      then have run: "capRequests L requested ns res = Inr res'"
        using Cons.prems(1) by (auto simp: overLimit_def split: option.splits if_splits)
      have "cap (rlGet (rr_Requests res) k) (rlGet (rr_Limits res) k) = rlGet (rr_Requests res) k"
        using False by (auto simp: cap_def overLimit_def split: option.splits)
      then show ?thesis
        using Cons.IH [OF run] Cons.prems(2) False by auto
    qed
  qed
  then show "rr_Limits res' = rr_Limits res"
    and "rlGet (rr_Requests res') n =
      (if n \<in> set ns then cap (rlGet (rr_Requests res) n) (rlGet (rr_Limits res) n) else rlGet (rr_Requests res) n)"
    and "n \<in> set ns \<Longrightarrow> overLimit res n \<Longrightarrow> qtyOf (rlGet (rr_Requests requested) n) = 0"
    by blast+
qed

lemma capRequests_fails:
  assumes "capRequests L requested ns res = Inl e" "distinct ns"
  shows "\<exists>n \<in> set ns. overLimit res n \<and> qtyOf (rlGet (rr_Requests requested) n) \<noteq> 0"
  using assms
proof (induction ns arbitrary: res)
  case Nil
  then show ?case by simp
next
  case (Cons k ns)
  show ?case
  proof (cases "overLimit res k \<and> qtyOf (rlGet (rr_Requests requested) k) \<noteq> 0")
    case True
    then show ?thesis by auto
  next
    case False
    then obtain res1 where run: "capRequests L requested ns res1 = Inl e" and
      same: "\<And>n. n \<noteq> k \<Longrightarrow> rlGet (rr_Requests res1) n = rlGet (rr_Requests res) n" "rr_Limits res1 = rr_Limits res"
      using Cons.prems(1)
      by (auto simp: overLimit_def rlGet_upd split: option.splits if_splits)
    have "distinct ns" "k \<notin> set ns" using Cons.prems(2) by simp_all
    then obtain n where "n \<in> set ns" "overLimit res1 n" "qtyOf (rlGet (rr_Requests requested) n) \<noteq> 0"
      using Cons.IH [OF run] by blast
    moreover from this \<open>k \<notin> set ns\<close> have "n \<noteq> k" by auto
    ultimately show ?thesis
      using same by (intro bexI [of _ n]) (auto simp: overLimit_def)
  qed
qed

abbreviation mergedResources :: "resourceRequirements \<Rightarrow> resourceRequirements \<Rightarrow> resourceRequirements" where
  "mergedResources requested dflt \<equiv>
     \<lparr>rr_Limits = mergeResourceList (rr_Limits requested) (rr_Limits dflt),
      rr_Requests = mergeResourceList (rr_Requests requested) (rr_Requests dflt)\<rparr>"

lemma merged_explicit:
  assumes "n \<in> set managedResources" "qtyOf (rlGet (rr_Requests requested) n) \<noteq> 0"
  shows "rlGet (rr_Requests (mergedResources requested dflt)) n = Some (qtyOf (rlGet (rr_Requests requested) n))"
    and "rlGet (rr_Requests requested) n = Some (qtyOf (rlGet (rr_Requests requested) n))"
  using assms by (auto simp: mergeResourceList_get qtyOf_def split: option.splits)

lemma mergeResources_fails:
  "(\<exists>e. mergeResources L requested dflt = Inl e) \<longleftrightarrow>
     (\<exists>n \<in> set managedResources. \<exists>l. qtyOf (rlGet (rr_Requests requested) n) \<noteq> 0 \<and>
        rlGet (mergeResourceList (rr_Limits requested) (rr_Limits dflt)) n = Some l \<and>
        l < qtyOf (rlGet (rr_Requests requested) n))" (is "_ \<longleftrightarrow> (\<exists>n \<in> _. ?bad n)")
proof -
  let ?m = "mergedResources requested dflt"
  have bad: "overLimit ?m n \<and> qtyOf (rlGet (rr_Requests requested) n) \<noteq> 0 \<longleftrightarrow> ?bad n"
    if "n \<in> set managedResources" for n
    using merged_explicit(1) [OF that, of requested dflt] by (auto simp: overLimit_def)
  have d: "distinct managedResources" by simp
  show ?thesis
  proof (cases "mergeResources L requested dflt")
    case (Inl e)
    then have "capRequests L requested managedResources ?m = Inl e" by (simp only: mergeResources_def)
    from capRequests_fails [OF this d] bad Inl show ?thesis by blast
  next
    case (Inr res)
    then have "capRequests L requested managedResources ?m = Inr res" by (simp only: mergeResources_def)
    from capRequests_ok(3) [OF this d] bad Inr show ?thesis by (metis sum.distinct(1))
  qed
qed

lemma mergeResources_ok:
  assumes run: "mergeResources L requested dflt = Inr res" and n: "n \<in> set managedResources"
  shows "qtyOf (rlGet (rr_Limits res) n) =
        (if qtyOf (rlGet (rr_Limits requested) n) \<noteq> 0 then qtyOf (rlGet (rr_Limits requested) n)
         else qtyOf (rlGet (rr_Limits dflt) n)) \<and>
      \<not> overLimit res n \<and>
      rlGet (rr_Requests res) n =
        cap (rlGet (mergeResourceList (rr_Requests requested) (rr_Requests dflt)) n) (rlGet (rr_Limits res) n) \<and>
      (qtyOf (rlGet (rr_Requests requested) n) \<noteq> 0 \<longrightarrow>
        rlGet (rr_Requests res) n = rlGet (rr_Requests requested) n)"
proof -
  let ?m = "mergedResources requested dflt"
  have "capRequests L requested managedResources ?m = Inr res" using run by (simp only: mergeResources_def)
  have lim: "rr_Limits res = mergeResourceList (rr_Limits requested) (rr_Limits dflt)"
    using capRequests_ok(1) [OF \<open>capRequests L requested managedResources ?m = Inr res\<close>] by simp
  have capped: "rlGet (rr_Requests res) n =
        cap (rlGet (mergeResourceList (rr_Requests requested) (rr_Requests dflt)) n) (rlGet (rr_Limits res) n)"
    using capRequests_ok(2) [OF \<open>capRequests L requested managedResources ?m = Inr res\<close>, of n] n lim by simp
  then have "\<not> overLimit res n"
    by (auto simp: overLimit_def cap_def split: option.splits)
  moreover have "rlGet (rr_Requests res) n = rlGet (rr_Requests requested) n"
    if set: "qtyOf (rlGet (rr_Requests requested) n) \<noteq> 0"
  proof -
    have "\<not> (\<exists>l. rlGet (rr_Limits res) n = Some l \<and> l < qtyOf (rlGet (rr_Requests requested) n))"
      using mergeResources_fails [of L requested dflt] run n set lim by (metis sum.distinct(1))
    then show ?thesis
      using capped merged_explicit(1) [OF n set, of dflt] merged_explicit(2) [OF n set]
      by (auto simp: cap_def split: option.splits)
  qed
  ultimately show ?thesis
    using capped pmm_merge.fill_read [OF n, of "rr_Limits requested" "rr_Limits dflt"] lim by simp
qed

section \<open>Stages and reads\<close>

lemma addSidecar_resources [simp]: "az_Resources (addSidecar sc az) = az_Resources az"
  by (simp add: addSidecar_def)

interpretation metrics_exporter: spec_stage "configureMetricsExporter L E c n" for L E c n
proof unfold_locales
  fix cr h cr' h'
  assume "configureMetricsExporter L E c n cr h = (Inr cr', h')"
  then show "members cr' = members cr"
    by (cases "sh_Configsvr (ps_Sharding (cr_Spec cr))"; cases "sh_Mongos (ps_Sharding (cr_Spec cr))")
      (auto simp: configureMetricsExporter_def Let_def io_simps members_setReplsets
        intro!: trans [OF members_setSharding members_setReplsets] split: if_splits)
qed

lemma members_setPMM [simp]: "members (setPMM p cr) = members cr"
  by (simp add: setPMM_def members_def Let_def)

text \<open>The calls that PMM rendering may make: reads, results, and the token in the users secret.\<close>

definition pmmCall :: "lib \<Rightarrow> string \<Rightarrow> call \<Rightarrow> bool" where
  "pmmCall L n cl = (case cl of
     ApplySecret m kvs \<Rightarrow> m = n \<and> (kvs = [] \<or> (\<exists>t. t \<noteq> '''' \<and> kvs = [(lib_pmmServerToken L, t)]))
   | SetMonitoringBindingResult _ _ _ \<Rightarrow> True
   | _ \<Rightarrow> isRead cl)"

lemma pmmCall_read: "isRead cl \<Longrightarrow> pmmCall L n cl"
  by (cases cl) (auto simp: pmmCall_def)

lemma pmmCall_write:
  "pmmCall L n w \<Longrightarrow> isWrite w \<Longrightarrow>
     \<exists>kvs. w = ApplySecret n kvs \<and> (kvs = [] \<or> (\<exists>t. t \<noteq> '''' \<and> kvs = [(lib_pmmServerToken L, t)]))"
  by (cases w) (auto simp: pmmCall_def)

lemma emits_pmm_read: "readOnly m \<Longrightarrow> emits (pmmCall L n) m"
  by (erule emits_mono) (rule pmmCall_read)

lemma emits_orRenderFailure [simp]: "emits P (orRenderFailure p r)"
  by (cases r) (auto simp: orRenderFailure_def)

lemmas emits_pmm_reads = readOnly_calls [THEN emits_pmm_read] readOnly_liveEngine [THEN emits_pmm_read]

lemma emits_pmm_token: "t \<noteq> [] \<Longrightarrow> emits (pmmCall L n) (writeCall E (ApplySecret n [(lib_pmmServerToken L, t)]))"
  unfolding writeCall_def by (rule emits_call) (simp add: pmmCall_def)

lemma emits_pmm_removal: "emits (pmmCall L n) (writeCall E (ApplySecret n []))"
  unfolding writeCall_def by (rule emits_call) (simp add: pmmCall_def)

lemma emits_pmm_result: "emits (pmmCall L n) (setMonitoringBindingResult b r m)"
  unfolding setMonitoringBindingResult_def by (rule emits_call) (simp add: pmmCall_def)

lemmas emits_pmm = emits_bind emits_handle emits_wrap emits_pmm_reads emits_pmm_token emits_pmm_removal emits_pmm_result

lemma emits_pmmServerHost: "emits P (pmmServerHost L rb)"
  unfolding pmmServerHost_def Let_def by (auto intro!: emits_bind)

lemma emits_pmmAgentImage: "emits P (pmmAgentImage rb)"
  unfolding pmmAgentImage_def by (auto intro!: emits_bind)

lemma readOnly_pmmToken: "readOnly (pmmToken E rb)"
  unfolding pmmToken_def Let_def by (auto intro!: emits_handle read_only_intros split: sum.splits)

lemma pmmToken_ok: "pmmToken E rb h = (Inr t, h') \<Longrightarrow> t \<noteq> ''''"
  by (auto simp: pmmToken_def handleIO_def call_defs io_simps Let_def split: sum.splits if_splits prod.splits)

lemma emits_renderPMMBinding: "emits (pmmCall L n) (renderPMMBinding L E c n rb cr)"
  unfolding renderPMMBinding_def
  by (intro emits_bind_result [OF emits_pmm_read [OF readOnly_pmmToken]] emits_bind emits_pmmServerHost emits_pmmAgentImage
      emits_orRenderFailure emits_wrap emits_return emits_pmm_token)
    (rule pmmToken_ok)

lemma emits_renderBindings: "emits (pmmCall L n) (renderBindings L E c n live rbs cr)"
  by (induction rbs arbitrary: cr) (auto intro!: emits_pmm emits_renderPMMBinding split: sum.splits)

lemma emits_applyPMMBindings: "emits (pmmCall L n) (applyPMMBindings L E c n cr)"
  unfolding applyPMMBindings_def removeSecretData_def Let_def
  by (auto intro!: emits_pmm emits_renderBindings split: sum.splits prod.splits)

lemma orRenderFailure_Inr: "orRenderFailure p r h = (Inr x, h') \<longleftrightarrow> r = Inr x \<and> h' = h"
  by (cases r) (auto simp: orRenderFailure_def failIO_def returnIO_def)

lemma renderPMMBinding_setPMM:
  assumes "renderPMMBinding L E c n rb cr h = (Inr cr', h')"
  shows "\<exists>p t cs. cr' = setPMM p cr \<and> t \<noteq> '''' \<and> h' = h @ cs @ [ApplySecret n [(lib_pmmServerToken L, t)]]"
proof -
  obtain i h1 host h2 t h3 p where steps: "pmmAgentImage rb h = (Inr i, h1)" "pmmServerHost L rb h1 = (Inr host, h2)"
    "pmmToken E rb h2 = (Inr t, h3)" and fin: "cr' = cr\<lparr>cr_Spec := (cr_Spec cr)\<lparr>ps_PMM := p\<rparr>\<rparr>"
    "h' = h3 @ [ApplySecret n [(lib_pmmServerToken L, t)]]"
    using assms unfolding renderPMMBinding_def by (fastforce simp: io_simps call_defs orRenderFailure_Inr)
  obtain cs1 cs2 cs3 where "h1 = h @ cs1" "h2 = h1 @ cs2" "h3 = h2 @ cs3"
    using emitsD [OF emits_pmmAgentImage steps(1)] emitsD [OF emits_pmmServerHost steps(2)]
      emitsD [OF readOnly_pmmToken steps(3)] by blast
  with fin pmmToken_ok [OF steps(3)] show ?thesis
    by (intro exI [of _ p] exI [of _ t] exI [of _ "cs1 @ cs2 @ cs3"]) (simp add: setPMM_def)
qed

text \<open>One round of the loop: the binding is skipped, or fails and the live rendering is kept, or is rendered
  after its token was written.\<close>

lemma renderBindings_round:
  assumes run: "renderBindings L E c n live (rb # rbs) cr h = (Inr cr', h')"
  shows "\<exists>cr1 cs. renderBindings L E c n live rbs cr1 (h @ cs) = (Inr cr', h') \<and>
    (cr1 = cr \<or> cr1 = setPMM (ps_PMM (cr_Spec live)) cr \<or>
     (\<exists>p t. cr1 = setPMM p cr \<and> t \<noteq> '''' \<and> ApplySecret n [(lib_pmmServerToken L, t)] \<in> set cs))"
proof (cases "\<not> rb_Apply rb \<or> rb_Integration rb \<noteq> pmmIntegration")
  case True
  with run show ?thesis by (intro exI [of _ cr] exI [of _ "[]"]) simp
next
  case False
  obtain r h2 where render: "renderPMMBinding L E c n rb cr h = (r, h2)" by (cases "renderPMMBinding L E c n rb cr h")
  show ?thesis
  proof (cases r)
    case (Inl e)
    obtain reason msg where
      "renderBindings L E c n live rbs (setPMM (ps_PMM (cr_Spec live)) cr)
         (h2 @ [SetMonitoringBindingResult (rb_Name rb) reason msg]) = (Inr cr', h')"
      using run False render Inl
      by (auto simp: handleIO_def setMonitoringBindingResult_def callIO_def bindIO_def failIO_def split: if_splits)
    moreover obtain cs where "h2 = h @ cs" using emitsD [OF emits_renderPMMBinding render] by blast
    ultimately show ?thesis
      by (intro exI [of _ "setPMM (ps_PMM (cr_Spec live)) cr"]
          exI [of _ "cs @ [SetMonitoringBindingResult (rb_Name rb) reason msg]"]) simp
  next
    case (Inr cr1)
    obtain p t cs where p: "cr1 = setPMM p cr" "t \<noteq> ''''" "h2 = h @ cs @ [ApplySecret n [(lib_pmmServerToken L, t)]]"
      using renderPMMBinding_setPMM render Inr by blast
    obtain reason msg where
      "renderBindings L E c n live rbs cr1 (h2 @ [SetMonitoringBindingResult (rb_Name rb) reason msg]) = (Inr cr', h')"
      using run False render Inr
      by (auto simp: handleIO_def setMonitoringBindingResult_def callIO_def bindIO_def)
    with p show ?thesis
      by (intro exI [of _ cr1] exI [of _ "cs @ [ApplySecret n [(lib_pmmServerToken L, t)],
            SetMonitoringBindingResult (rb_Name rb) reason msg]"]) auto
  qed
qed

lemma renderBindings_members:
  "renderBindings L E c n live rbs cr h = (Inr cr', h') \<Longrightarrow> members cr' = members cr"
proof (induction rbs arbitrary: cr h)
  case Nil
  then show ?case by (simp add: io_simps)
next
  case (Cons rb rbs)
  show ?case using renderBindings_round [OF Cons.prems] Cons.IH by fastforce
qed

text \<open>PMM is enabled only as it is in the live CR, or after a token was written.\<close>

lemma renderBindings_enabled:
  assumes "renderBindings L E c n live rbs cr (h @ cs) = (Inr cr', h')"
    and "pmm_Enabled (ps_PMM (cr_Spec cr)) \<Longrightarrow> ps_PMM (cr_Spec cr) = ps_PMM (cr_Spec live) \<or>
      (\<exists>t. t \<noteq> '''' \<and> ApplySecret n [(lib_pmmServerToken L, t)] \<in> set cs)"
    and "pmm_Enabled (ps_PMM (cr_Spec cr'))"
  shows "ps_PMM (cr_Spec cr') = ps_PMM (cr_Spec live) \<or>
    (\<exists>t. t \<noteq> '''' \<and> ApplySecret n [(lib_pmmServerToken L, t)] \<in> set (drop (length h) h'))"
  using assms
proof (induction rbs arbitrary: cr cs)
  case Nil
  then show ?case by (auto simp: io_simps)
next
  case (Cons rb rbs)
  obtain cr1 cs1 where step: "renderBindings L E c n live rbs cr1 (h @ cs @ cs1) = (Inr cr', h')"
    "cr1 = cr \<or> cr1 = setPMM (ps_PMM (cr_Spec live)) cr \<or>
     (\<exists>p t. cr1 = setPMM p cr \<and> t \<noteq> '''' \<and> ApplySecret n [(lib_pmmServerToken L, t)] \<in> set cs1)"
    using renderBindings_round [OF Cons.prems(1)] by auto
  have "pmm_Enabled (ps_PMM (cr_Spec cr1)) \<Longrightarrow> ps_PMM (cr_Spec cr1) = ps_PMM (cr_Spec live) \<or>
      (\<exists>t. t \<noteq> '''' \<and> ApplySecret n [(lib_pmmServerToken L, t)] \<in> set (cs @ cs1))"
    using step(2) Cons.prems(2) by (auto simp: setPMM_def)
  then show ?case using Cons.IH [OF step(1) _ Cons.prems(3)] by blast
qed

interpretation pmm_bindings: spec_stage "applyPMMBindings L E c n" for L E c n
proof unfold_locales
  fix cr h cr' h'
  assume "applyPMMBindings L E c n cr h = (Inr cr', h')"
  then show "members cr' = members cr"
    by (auto simp: applyPMMBindings_def Let_def io_simps dest: renderBindings_members split: if_splits)
qed

lemma readOnly_metricsExporterRequired [read_only_intros]: "readOnly (metricsExporterRequired L E c)"
  unfolding metricsExporterRequired_def
  by (auto intro!: emits_bind read_only_intros split: prod.splits)

lemma readOnly_configureMetricsExporter [read_only_intros]: "readOnly (configureMetricsExporter L E c n cr)"
  unfolding configureMetricsExporter_def Let_def
  by (auto intro!: emits_bind emits_wrap read_only_intros)

lemma readOnly_hiddenMembersServing [read_only_intros]: "readOnly (hiddenMembersServing L E c cr)"
  by (auto simp: hiddenMembersServing_def intro!: emits_bind emits_wrap read_only_intros)

lemma readOnly_MonitoringSources [read_only_intros]: "readOnly (MonitoringSources L E c)"
  by (auto simp: MonitoringSources_def intro!: emits_bind read_only_intros)


lemma liveEngine_found:
  "env_psmdb E h (c_Name c) = Inr live \<Longrightarrow> liveEngine E c h = (Inr live, h @ [Get KPSMDB (c_Name c)])"
  by (simp add: liveEngine_def call_defs io_defs)

text \<open>The live CR that was read, empty for a cluster that is not there yet.\<close>

definition readAs :: "go_error + psmdb \<Rightarrow> psmdb \<Rightarrow> bool" where
  "readAs got live = (case got of Inr cr \<Rightarrow> live = cr | Inl e \<Rightarrow> isNotFound e \<and> live = zeroPSMDB)"

lemma liveEngine_read:
  "liveEngine E c h = (Inr live, h') \<Longrightarrow> h' = h @ [Get KPSMDB (c_Name c)] \<and> readAs (env_psmdb E h (c_Name c)) live"
  by (auto simp: liveEngine_def readAs_def call_defs io_defs split: sum.splits if_splits)

text \<open>What applying the bindings does once the live CR was read.\<close>

lemma applyPMMBindings_cases:
  assumes run: "applyPMMBindings L E c n cr h = (Inr cr', h')"
  obtains (render) live rbs cs where "renderBindings L E c n live rbs cr (h @ cs) = (Inr cr', h')"
      "readAs (env_psmdb E (h @ [ReadRequiredSources]) (c_Name c)) live"
  | (keep) live where "cr' = setPMM (ps_PMM (cr_Spec live)) cr" "readAs (env_psmdb E (h @ [ReadRequiredSources]) (c_Name c)) live"
  | (same) "cr' = cr"
proof -
  obtain m ints live where "env_requiredSources E h = Inr (m, ints)"
    and live: "liveEngine E c (h @ [ReadRequiredSources]) = (Inr live, h @ [ReadRequiredSources, Get KPSMDB (c_Name c)])"
    and known: "readAs (env_psmdb E (h @ [ReadRequiredSources]) (c_Name c)) live"
    using run liveEngine_read [of E c "h @ [ReadRequiredSources]"]
    by (auto simp: applyPMMBindings_def call_defs io_simps)
  then have "(\<exists>rbs. renderBindings L E c n live rbs cr (h @ [ReadRequiredSources, Get KPSMDB (c_Name c), ReadMonitoringBindings]) = (Inr cr', h')) \<or>
      cr' = setPMM (ps_PMM (cr_Spec live)) cr \<or> cr' = cr"
    using run
    by (auto simp: applyPMMBindings_def call_defs io_simps Let_def split: if_splits)
  then show ?thesis using render keep same known by blast
qed

lemma applyPMMBindings_enabled:
  assumes run: "applyPMMBindings L E c n cr h = (Inr cr', h')" and off: "\<not> pmm_Enabled (ps_PMM (cr_Spec cr))"
    and on: "pmm_Enabled (ps_PMM (cr_Spec cr'))"
  shows "(\<exists>live. env_psmdb E (h @ [ReadRequiredSources]) (c_Name c) = Inr live \<and> ps_PMM (cr_Spec cr') = ps_PMM (cr_Spec live)) \<or>
    (\<exists>t. t \<noteq> '''' \<and> ApplySecret n [(lib_pmmServerToken L, t)] \<in> set (drop (length h) h'))"
proof -
  have kept: "\<exists>live. env_psmdb E (h @ [ReadRequiredSources]) (c_Name c) = Inr live \<and> ps_PMM (cr_Spec cr') = ps_PMM (cr_Spec live)"
    if "readAs (env_psmdb E (h @ [ReadRequiredSources]) (c_Name c)) live" "ps_PMM (cr_Spec cr') = ps_PMM (cr_Spec live)" for live
    using that on by (auto simp: readAs_def zeroPSMDB_def zeroPSMDBSpec_def zeroPMM_def split: sum.splits)
  show ?thesis
    using run
  proof (cases rule: applyPMMBindings_cases)
    case (render live rbs cs)
    from renderBindings_enabled [OF render(1) _ on] off kept [OF render(2)] show ?thesis by blast
  next
    case (keep live)
    then show ?thesis using kept [OF keep(2)] by (simp add: setPMM_def)
  next
    case same
    with off on show ?thesis by simp
  qed
qed

lemma hiddenMembersServing_enabled:
  "hiddenMembersServing L E c cr h = (Inr True, h') \<Longrightarrow> \<exists>rs \<in> set (ps_Replsets (cr_Spec cr)). hid_Enabled (rs_Hidden rs)"
  by (auto simp: hiddenMembersServing_def list_ex_iff io_simps split: if_splits)

lemma MonitoringSources_result:
  assumes run: "MonitoringSources L E c h = (Inr eps, h')" and live: "env_psmdb E h (c_Name c) = Inr cr"
  obtains hs where "eps = (if hasMetricsExporter cr then map (endpointFor L c)
        (servingComponents L cr @ (if hs then [ComponentHidden] else [])) else [])"
    and "hs \<Longrightarrow> \<exists>rs \<in> set (ps_Replsets (cr_Spec cr)). hid_Enabled (rs_Hidden rs)"
proof (cases "hasMetricsExporter cr")
  case True
  then obtain hs h1 where "hiddenMembersServing L E c cr (h @ [Get KPSMDB (c_Name c)]) = (Inr hs, h1)" and
    "eps = map (endpointFor L c) (servingComponents L cr @ (if hs then [ComponentHidden] else []))"
    using run liveEngine_found [OF live]
    by (simp add: MonitoringSources_def bindIO_def [of "liveEngine E c"] bindIO_Inr returnIO_Inr) metis
  with True that [of hs] hiddenMembersServing_enabled show thesis by (cases hs) simp_all
next
  case False
  with run liveEngine_found [OF live] that [of False] show thesis
    by (simp add: MonitoringSources_def bindIO_def returnIO_def)
qed

lemma distinct_servingComponents: "distinct (servingComponents L cr @ (if b then [ComponentHidden] else []))"
  by (auto simp: servingComponents_def component_defs split: option.splits)

lemma servingComponents_ready:
  "k \<in> set (servingComponents L cr) \<Longrightarrow>
     k = ComponentEngine \<and> (\<exists>rs \<in> set (ps_Replsets (cr_Spec cr)). 0 < readyPods cr (rs_Name rs)) \<or>
     k = ComponentConfigServer \<and> 0 < readyPods cr (lib_configReplSetName L) \<or>
     k = ComponentProxy \<and> (\<exists>r. pst_MongosReady (cr_Status cr) = Some r \<and> 0 < i32 r)"
  by (auto simp: servingComponents_def list_ex_iff split: option.splits if_splits)

section \<open>Exporters\<close>

definition carriesExporter :: "multiAZ \<Rightarrow> bool" where
  "carriesExporter az = list_ex (\<lambda>sc. ct_Name sc = metricsExporterContainerName) (az_Sidecars az)"

text \<open>Every pod of the cluster, hidden members included, runs the exporter.\<close>

definition exporterEverywhere :: "psmdb \<Rightarrow> bool" where
  "exporterEverywhere cr \<longleftrightarrow>
     (\<forall>rs \<in> set (ps_Replsets (cr_Spec cr)). carriesExporter (rs_MultiAZ rs) \<and>
        (hid_Enabled (rs_Hidden rs) \<longrightarrow> carriesExporter (hid_MultiAZ (rs_Hidden rs)))) \<and>
     (sh_Enabled (ps_Sharding (cr_Spec cr)) \<longrightarrow>
        (\<exists>cfg mos. sh_Configsvr (ps_Sharding (cr_Spec cr)) = Some cfg \<and> carriesExporter (rs_MultiAZ cfg) \<and>
           sh_Mongos (ps_Sharding (cr_Spec cr)) = Some mos \<and> carriesExporter (mos_MultiAZ mos)))"

lemma carriesExporter_add: "carriesExporter (addSidecar (metricsExporterSidecar L i s p t cs) az)"
  by (simp add: carriesExporter_def addSidecar_def metricsExporterSidecar_def Let_def)

lemma mirrorOne_sidecars [simp]:
  "rs_MultiAZ (mirrorOne rs) = rs_MultiAZ rs"
  "hid_Enabled (rs_Hidden (mirrorOne rs)) = hid_Enabled (rs_Hidden rs)"
  "hid_Enabled (rs_Hidden rs) \<Longrightarrow> az_Sidecars (hid_MultiAZ (rs_Hidden (mirrorOne rs))) = az_Sidecars (rs_MultiAZ rs)"
  by (simp_all add: mirrorOne_def)

lemma exporterEverywhere_mirror:
  assumes "\<forall>rs \<in> set (ps_Replsets (cr_Spec cr)). carriesExporter (rs_MultiAZ rs)"
    and "sh_Enabled (ps_Sharding (cr_Spec cr)) \<Longrightarrow>
      \<exists>cfg mos. sh_Configsvr (ps_Sharding (cr_Spec cr)) = Some cfg \<and> carriesExporter (rs_MultiAZ cfg) \<and>
        sh_Mongos (ps_Sharding (cr_Spec cr)) = Some mos \<and> carriesExporter (mos_MultiAZ mos)"
  shows "exporterEverywhere (mirrorReplsetOntoHidden cr)"
  using assms by (auto simp: exporterEverywhere_def mirrorReplsetOntoHidden_def carriesExporter_def)

lemma configureMetricsExporter_form:
  assumes run: "configureMetricsExporter L E c n cr h = (Inr cr', h')"
    and req: "metricsExporterRequired L E c h = (Inr True, h1)"
  shows "\<exists>f. (\<forall>rs. carriesExporter (rs_MultiAZ (f rs))) \<and>
    (if sh_Enabled (ps_Sharding (cr_Spec cr))
     then \<exists>cfg mos. cr' = setSharding (f cfg) mos (setReplsets f cr) \<and> carriesExporter (mos_MultiAZ mos)
     else cr' = setReplsets f cr)"
proof -
  define f where "f spec rs = rs\<lparr>rs_MultiAZ := addSidecar (metricsExporterSidecar L
      (lib_getDefaultImage L spec metricsExporterComponentType) n (lib_rsPort L rs)
      (case ps_TLS (cr_Spec cr) of None \<Rightarrow> True | Some t \<Rightarrow> tls_SpecMode t \<noteq> ''disabled'')
      mongodExporterCollectors) (rs_MultiAZ rs)\<rparr>" for spec rs
  have f: "carriesExporter (rs_MultiAZ (f spec rs))" for spec rs
    by (simp add: f_def carriesExporter_add)
  note defs = configureMetricsExporter_def bindIO_def [of "metricsExporterRequired L E c"] Let_def
  show ?thesis
  proof (cases "sh_Enabled (ps_Sharding (cr_Spec cr))")
    case False
    then obtain spec where "cr' = setReplsets (f spec) cr"
      using run req by (auto simp: defs io_simps f_def [abs_def] split: if_splits)
    with f False show ?thesis by (intro exI [of _ "f spec"]) simp
  next
    case True
    then obtain spec cfg mos sc where
      "cr' = setSharding (f spec cfg) (mos\<lparr>mos_MultiAZ := addSidecar (metricsExporterSidecar L
         (lib_getDefaultImage L spec metricsExporterComponentType) n (lib_mongosPort L mos)
         (case ps_TLS (cr_Spec cr) of None \<Rightarrow> True | Some t \<Rightarrow> tls_SpecMode t \<noteq> ''disabled'')
         mongosExporterCollectors) (mos_MultiAZ mos)\<rparr>) (setReplsets (f spec) cr)"
      using run req
      by (cases "sh_Configsvr (ps_Sharding (cr_Spec cr))"; cases "sh_Mongos (ps_Sharding (cr_Spec cr))")
        (auto simp: defs io_simps f_def [abs_def] split: if_splits)
    with f True show ?thesis
      by (intro exI [of _ "f spec"]) (auto simp: carriesExporter_add intro!: exI)
  qed
qed

lemma configureMetricsExporter_all:
  assumes "configureMetricsExporter L E c n cr h = (Inr cr', h')" "metricsExporterRequired L E c h = (Inr True, h1)"
  shows "exporterEverywhere (mirrorReplsetOntoHidden cr')"
proof (cases "sh_Enabled (ps_Sharding (cr_Spec cr))")
  case False
  with configureMetricsExporter_form [OF assms] show ?thesis
    by (auto intro!: exporterEverywhere_mirror)
next
  case True
  with configureMetricsExporter_form [OF assms] obtain f cfg mos where
    f: "\<forall>rs. carriesExporter (rs_MultiAZ (f rs))" "carriesExporter (mos_MultiAZ mos)" and
    cr': "cr' = setSharding (f cfg) mos (setReplsets f cr)" by auto
  show ?thesis unfolding cr' using f by (intro exporterEverywhere_mirror) auto
qed

section \<open>Properties\<close>

text \<open>PMM resources are merged as promised: for CPU and memory, a requested value that is set wins over
  the tier's default, a default request is lowered to the limit, and no request exceeds its limit;
  merging fails exactly when a requested request exceeds the merged limit.\<close>

theorem pmm_resources_merged:
  "(\<forall>res. mergeResources L requested dflt = Inr res \<longrightarrow> (\<forall>n \<in> set managedResources.
      qtyOf (rlGet (rr_Limits res) n) =
        (if qtyOf (rlGet (rr_Limits requested) n) \<noteq> 0 then qtyOf (rlGet (rr_Limits requested) n)
         else qtyOf (rlGet (rr_Limits dflt) n)) \<and>
      \<not> overLimit res n \<and>
      rlGet (rr_Requests res) n =
        cap (rlGet (mergeResourceList (rr_Requests requested) (rr_Requests dflt)) n) (rlGet (rr_Limits res) n) \<and>
      (qtyOf (rlGet (rr_Requests requested) n) \<noteq> 0 \<longrightarrow>
        rlGet (rr_Requests res) n = rlGet (rr_Requests requested) n))) \<and>
   ((\<exists>e. mergeResources L requested dflt = Inl e) \<longleftrightarrow>
     (\<exists>n \<in> set managedResources. \<exists>l. qtyOf (rlGet (rr_Requests requested) n) \<noteq> 0 \<and>
        rlGet (mergeResourceList (rr_Limits requested) (rr_Limits dflt)) n = Some l \<and>
        l < qtyOf (rlGet (rr_Requests requested) n)))"
  by (rule conjI, intro allI impI ballI, erule mergeResources_ok, assumption, rule mergeResources_fails)

text \<open>C30. Exporters are all or nothing: when the requirement the runtime reports asks for metrics, every pod of the CR runs an
  exporter after the sidecars are added and mirrored onto the hidden members, in a cluster that is about to be created too; when
  it does not, the CR is unchanged. While the requirement is unresolved the live CR decides, and a cluster that does not exist
  yet counts as one without exporters. The members stay as they are and nothing is written.\<close>

theorem exporters_everywhere_or_nowhere:
  assumes run: "configureMetricsExporter L E c n cr h = (Inr cr', h')"
  shows "\<exists>metrics integrations running. env_requiredSources E h = Inr (metrics, integrations) \<and>
    (case env_psmdb E (h @ [ReadRequiredSources]) (c_Name c) of
       Inr live \<Rightarrow> running = hasMetricsExporter live
     | Inl e \<Rightarrow> isNotFound e \<and> \<not> running) \<and>
    (if lib_else L metrics running then exporterEverywhere (mirrorReplsetOntoHidden cr') else cr' = cr) \<and>
    members cr' = members cr \<and> writes h' = writes h"
proof -
  obtain metrics integrations live where sources: "env_requiredSources E h = Inr (metrics, integrations)"
    and req: "metricsExporterRequired L E c h =
      (Inr (lib_else L metrics (hasMetricsExporter live)), h @ [ReadRequiredSources, Get KPSMDB (c_Name c)])"
    and live: "readAs (env_psmdb E (h @ [ReadRequiredSources]) (c_Name c)) live"
    using run liveEngine_read [of E c "h @ [ReadRequiredSources]"]
    by (fastforce simp: configureMetricsExporter_def metricsExporterRequired_def call_defs io_simps)
  have "if lib_else L metrics (hasMetricsExporter live) then exporterEverywhere (mirrorReplsetOntoHidden cr') else cr' = cr"
  proof (cases "lib_else L metrics (hasMetricsExporter live)")
    case True
    with configureMetricsExporter_all [OF run] req show ?thesis by simp
  next
    case False
    with run req show ?thesis by (simp add: configureMetricsExporter_def bindIO_def returnIO_def)
  qed
  moreover have "case env_psmdb E (h @ [ReadRequiredSources]) (c_Name c) of
      Inr cr \<Rightarrow> hasMetricsExporter live = hasMetricsExporter cr | Inl e \<Rightarrow> isNotFound e \<and> \<not> hasMetricsExporter live"
    using live by (auto simp: readAs_def hasMetricsExporter_def zeroPSMDB_def zeroPSMDBSpec_def split: sum.splits)
  ultimately show ?thesis
    using sources metrics_exporter.keeps_members [OF run] readOnly_writes [OF readOnly_configureMetricsExporter run] by blast
qed

text \<open>C32. The PMM token is handled narrowly: however applying the bindings ends, it writes nothing but the users secret, with only
  the token in it, or with nothing to take the token out again; when it succeeds on a CR without PMM, PMM ends up enabled only as it
  is in the live CR or after a token that is not empty was written by this very run, for a new cluster too; and the members stay as
  they are.\<close>

theorem pmm_token_narrow:
  assumes run: "applyPMMBindings L E c n cr h = (r, h')"
  shows "\<exists>cs. h' = h @ cs \<and>
    (\<forall>w \<in> set cs. isWrite w \<longrightarrow>
       (\<exists>kvs. w = ApplySecret n kvs \<and> (kvs = [] \<or> (\<exists>t. t \<noteq> '''' \<and> kvs = [(lib_pmmServerToken L, t)])))) \<and>
    (\<forall>cr'. r = Inr cr' \<longrightarrow> members cr' = members cr \<and>
       (\<not> pmm_Enabled (ps_PMM (cr_Spec cr)) \<longrightarrow> pmm_Enabled (ps_PMM (cr_Spec cr')) \<longrightarrow>
          (\<exists>live. env_psmdb E (h @ [ReadRequiredSources]) (c_Name c) = Inr live \<and> ps_PMM (cr_Spec cr') = ps_PMM (cr_Spec live)) \<or>
          (\<exists>t. t \<noteq> '''' \<and> ApplySecret n [(lib_pmmServerToken L, t)] \<in> set cs)))"
proof -
  obtain cs where cs: "h' = h @ cs" "list_all (pmmCall L n) cs"
    using emitsD [OF emits_applyPMMBindings run] by blast
  have narrow: "\<exists>kvs. w = ApplySecret n kvs \<and> (kvs = [] \<or> (\<exists>t. t \<noteq> '''' \<and> kvs = [(lib_pmmServerToken L, t)]))"
    if "w \<in> set cs" "isWrite w" for w
    using that cs(2) pmmCall_write by (auto simp: list_all_iff)
  have "members cr' = members cr" if "r = Inr cr'" for cr'
    using pmm_bindings.keeps_members run that by blast
  moreover have "(\<exists>live. env_psmdb E (h @ [ReadRequiredSources]) (c_Name c) = Inr live \<and> ps_PMM (cr_Spec cr') = ps_PMM (cr_Spec live)) \<or>
      (\<exists>t. t \<noteq> '''' \<and> ApplySecret n [(lib_pmmServerToken L, t)] \<in> set cs)"
    if "r = Inr cr'" "\<not> pmm_Enabled (ps_PMM (cr_Spec cr))" "pmm_Enabled (ps_PMM (cr_Spec cr'))" for cr'
    using applyPMMBindings_enabled [of L E c n cr h cr' h', OF _ that(2,3)] run that(1) cs(1) by simp
  ultimately show ?thesis using cs(1) narrow by blast
qed

definition pmmBinding :: resolvedBinding where
  "pmmBinding = \<lparr>rb_Name = ''pmm-main'', rb_Apply = True, rb_Integration = pmmIntegration, rb_ClassName = ''pmm'',
     rb_ProviderManaged = Some ''percona/pmm-client:3'', rb_DestinationName = ''pmm-server'',
     rb_DestinationParameters = Some ''params'', rb_BindingParameters = None\<rparr>"

definition pmmLib :: lib where
  "pmmLib = plainLib\<lparr>lib_jsonParse := \<lambda>r. Inr (JObject [(''url'', JString ''https://pmm'')]),
     lib_urlHost := \<lambda>u. Some ''pmm''\<rparr>"

text \<open>A cluster that runs, unmonitored, and for which PMM is now required.\<close>

definition pmmCluster :: env where
  "pmmCluster = emptyCluster\<lparr>env_psmdb := \<lambda>h n. Inr oneReplsetCR,
     env_requiredSources := \<lambda>h. Inr (Required, [pmmIntegration \<mapsto> Required]),
     env_monitoringBindings := \<lambda>h. Inr [pmmBinding],
     env_monitoringCredentials := \<lambda>h rb. Inr [''token'' \<mapsto> ''s3cr3t'']\<rparr>"

lemmas monitoring_sample_defs = pmmBinding_def pmmLib_def pmmCluster_def oneReplsetCR_def zeroPSMDB_def zeroPSMDBSpec_def
  zeroPMM_def zeroSharding_def pmmIntegration_def

lemma pmmBinding_url: "destinationURL pmmLib pmmBinding = Inr ''https://pmm''"
  by (simp add: destinationURL_def destinationFields_def pmmBinding_def pmmLib_def decodeStruct_def findField_def
      decodeString_def mapRight_def)

lemma pmmBinding_host: "pmmServerHost pmmLib pmmBinding = returnIO ''pmm''"
proof -
  have "lib_urlHost pmmLib u = Some ''pmm''" for u by (simp add: pmmLib_def)
  then show ?thesis by (simp add: pmmServerHost_def orRenderFailure_def pmmBinding_url)
qed

lemma pmmBinding_image: "pmmAgentImage pmmBinding = returnIO ''percona/pmm-client:3''"
  by (simp add: pmmAgentImage_def pmmBinding_def)

lemma pmmBinding_token: "pmmToken pmmCluster pmmBinding h = (Inr ''s3cr3t'', h @ [ReadMonitoringCredentials ''pmm-main''])"
  by (simp add: pmmToken_def pmmCluster_def call_defs io_defs pmmBinding_def)

lemma pmmBinding_resources: "\<exists>res. getPMMResources pmmLib bareCtx zeroResources = Inr res"
proof (cases "getPMMResources pmmLib bareCtx zeroResources")
  case (Inl e)
  then have "\<exists>n \<in> set managedResources. qtyOf (rlGet (rr_Requests zeroResources) n) \<noteq> 0"
    using mergeResources_fails [of pmmLib zeroResources "pmmDefaults bareCtx"] by (auto simp: getPMMResources_def)
  then show ?thesis by (simp add: zeroResources_def rlGet_def qtyOf_def)
qed simp

lemma pmmBinding_render:
  "\<exists>cr' h'. renderPMMBinding pmmLib pmmCluster bareCtx ''users'' pmmBinding cr h = (Inr cr', h') \<and>
     pmm_Enabled (ps_PMM (cr_Spec cr'))"
proof -
  obtain res where res: "getPMMResources pmmLib bareCtx zeroResources = Inr res" using pmmBinding_resources by blast
  have "entryResources pmmLib pmmBinding = Inr zeroResources" by (simp add: entryResources_def pmmBinding_def)
  moreover have "env_write pmmCluster h w = None" for h w by (simp add: pmmCluster_def emptyCluster_def)
  ultimately show ?thesis
    by (simp add: renderPMMBinding_def pmmBinding_image pmmBinding_host pmmBinding_token bindIO_def orRenderFailure_def res
        wrapIO_def writeCall_def callIO_def returnIO_def)
qed

lemma pmmCluster_run:
  "\<exists>cr' h'. applyPMMBindings pmmLib pmmCluster bareCtx ''users'' oneReplsetCR [] = (Inr cr', h') \<and>
     pmm_Enabled (ps_PMM (cr_Spec cr'))"
proof -
  let ?h = "[ReadRequiredSources, Get KPSMDB (c_Name bareCtx), ReadMonitoringBindings]"
  obtain cr' h' where r: "renderPMMBinding pmmLib pmmCluster bareCtx ''users'' pmmBinding oneReplsetCR ?h = (Inr cr', h')"
    "pmm_Enabled (ps_PMM (cr_Spec cr'))"
    using pmmBinding_render by blast
  have b: "rb_Apply pmmBinding" "rb_Integration pmmBinding = pmmIntegration" by (simp_all add: pmmBinding_def)
  have e: "env_psmdb pmmCluster h n = Inr oneReplsetCR" "env_monitoringBindings pmmCluster h = Inr [pmmBinding]"
    "env_requiredSources pmmCluster h = Inr (Required, [pmmIntegration \<mapsto> Required])" for h n
    by (simp_all add: pmmCluster_def)
  show ?thesis
    by (simp add: applyPMMBindings_def liveEngine_found e b r handleIO_def bindIO_def call_defs callIO_def returnIO_def)
qed

theorem pmm_token_narrow_witness:
  "\<exists>cr' cs t. applyPMMBindings pmmLib pmmCluster bareCtx ''users'' oneReplsetCR [] = (Inr cr', cs) \<and>
     pmm_Enabled (ps_PMM (cr_Spec cr')) \<and> members cr' = members oneReplsetCR \<and>
     t \<noteq> '''' \<and> ApplySecret ''users'' [(lib_pmmServerToken pmmLib, t)] \<in> set cs"
proof -
  obtain cr' cs where run: "applyPMMBindings pmmLib pmmCluster bareCtx ''users'' oneReplsetCR [] = (Inr cr', cs)"
    and on: "pmm_Enabled (ps_PMM (cr_Spec cr'))"
    using pmmCluster_run by blast
  have live: "env_psmdb pmmCluster h m = Inr oneReplsetCR" for h m by (simp add: pmmCluster_def)
  have off: "\<not> pmm_Enabled (ps_PMM (cr_Spec oneReplsetCR))" by (simp add: monitoring_sample_defs)
  then have "ps_PMM (cr_Spec cr') \<noteq> ps_PMM (cr_Spec oneReplsetCR)" using on by auto
  with pmm_token_narrow [OF run] on off live
  have "members cr' = members oneReplsetCR \<and> (\<exists>t. t \<noteq> '''' \<and> ApplySecret ''users'' [(lib_pmmServerToken pmmLib, t)] \<in> set cs)"
    by auto
  with run on show ?thesis by blast
qed

text \<open>Endpoints are published for components that serve: with no exporter in the live CR there is none;
  otherwise there is one endpoint per component at most, each of a component with a ready pod, selected by
  the labels the pods carry. Nothing is written.\<close>

theorem endpoints_only_for_serving_components:
  assumes run: "MonitoringSources L E c h = (Inr eps, h')" and live: "env_psmdb E h (c_Name c) = Inr cr"
  shows "distinct (map me_Component eps) \<and> (\<not> hasMetricsExporter cr \<longrightarrow> eps = []) \<and> writes h' = writes h \<and>
    (\<forall>ep \<in> set eps. me_PodSelector ep = [(lib_instanceLabel L, c_Name c), (lib_componentLabel L, me_Component ep)] \<and>
       (me_Component ep = ''engine'' \<and> (\<exists>rs \<in> set (ps_Replsets (cr_Spec cr)). 0 < readyPods cr (rs_Name rs)) \<or>
        me_Component ep = ''configServer'' \<and> 0 < readyPods cr (lib_configReplSetName L) \<or>
        me_Component ep = ''proxy'' \<and> (\<exists>r. pst_MongosReady (cr_Status cr) = Some r \<and> 0 < i32 r) \<or>
        me_Component ep = ''hidden'' \<and> (\<exists>rs \<in> set (ps_Replsets (cr_Spec cr)). hid_Enabled (rs_Hidden rs))))"
proof -
  obtain hs where eps: "eps = (if hasMetricsExporter cr then map (endpointFor L c)
        (servingComponents L cr @ (if hs then [ComponentHidden] else [])) else [])" and
    hs: "hs \<Longrightarrow> \<exists>rs \<in> set (ps_Replsets (cr_Spec cr)). hid_Enabled (rs_Hidden rs)"
    by (rule MonitoringSources_result [OF run live]) blast
  have "writes h' = writes h" using readOnly_writes [OF readOnly_MonitoringSources run] .
  moreover have "map me_Component eps =
      (if hasMetricsExporter cr then servingComponents L cr @ (if hs then [ComponentHidden] else []) else [])"
    by (simp add: eps o_def endpointFor_def)
  ultimately have "distinct (map me_Component eps)" using distinct_servingComponents [of L cr hs] by simp
  moreover have "me_PodSelector ep = [(lib_instanceLabel L, c_Name c), (lib_componentLabel L, me_Component ep)] \<and>
       (me_Component ep = ComponentEngine \<and> (\<exists>rs \<in> set (ps_Replsets (cr_Spec cr)). 0 < readyPods cr (rs_Name rs)) \<or>
        me_Component ep = ComponentConfigServer \<and> 0 < readyPods cr (lib_configReplSetName L) \<or>
        me_Component ep = ComponentProxy \<and> (\<exists>r. pst_MongosReady (cr_Status cr) = Some r \<and> 0 < i32 r) \<or>
        me_Component ep = ComponentHidden \<and> (\<exists>rs \<in> set (ps_Replsets (cr_Spec cr)). hid_Enabled (rs_Hidden rs)))"
    if ep: "ep \<in> set eps" for ep
  proof -
    from ep obtain k where k: "ep = endpointFor L c k" "k \<in> set (servingComponents L cr) \<or> hs \<and> k = ComponentHidden"
      unfolding eps by (auto split: if_splits)
    have "me_PodSelector ep = [(lib_instanceLabel L, c_Name c), (lib_componentLabel L, me_Component ep)]" "me_Component ep = k"
      unfolding k(1) by (simp_all add: endpointFor_def)
    then show ?thesis using k(2) servingComponents_ready hs by blast
  qed
  moreover have "\<not> hasMetricsExporter cr \<longrightarrow> eps = []" using eps by simp
  ultimately show ?thesis
    using \<open>writes h' = writes h\<close> unfolding component_defs by blast
qed

definition monitoredCR :: psmdb where
  "monitoredCR = oneReplsetCR\<lparr>cr_Spec := (cr_Spec oneReplsetCR)\<lparr>ps_Replsets :=
       [plainReplset\<lparr>rs_MultiAZ := addSidecar (metricsExporterSidecar plainLib ''exporter'' ''users'' 27017 True []) zeroMultiAZ\<rparr>]\<rparr>,
     cr_Status := zeroStatus\<lparr>pst_ReplsetReady := \<lambda>n. Some 1\<rparr>\<rparr>"

definition monitoredCluster :: env where
  "monitoredCluster = emptyCluster\<lparr>env_psmdb := \<lambda>h n. Inr monitoredCR, env_requiredSources := \<lambda>h. Inr (Required, Map.empty)\<rparr>"

lemma monitoredCR_exporter: "hasMetricsExporter monitoredCR"
  by (simp add: monitoredCR_def hasMetricsExporter_def addSidecar_def metricsExporterSidecar_def Let_def)

theorem endpoints_only_for_serving_components_witness:
  "\<exists>h'. MonitoringSources plainLib monitoredCluster bareCtx [] = (Inr [endpointFor plainLib bareCtx ''engine''], h') \<and> writes h' = []"
proof -
  have live: "env_psmdb monitoredCluster h n = Inr monitoredCR" for h n by (simp add: monitoredCluster_def)
  have "servingComponents plainLib monitoredCR = [''engine'']"
    by (simp add: servingComponents_def monitoredCR_def oneReplsetCR_def zeroPSMDB_def zeroPSMDBSpec_def zeroSharding_def
        readyPods_def component_defs)
  moreover have "hiddenMembersServing plainLib monitoredCluster bareCtx monitoredCR = returnIO False"
    by (simp add: hiddenMembersServing_def monitoredCR_def plainReplset_def zeroHidden_def)
  ultimately have run: "MonitoringSources plainLib monitoredCluster bareCtx [] =
      (Inr [endpointFor plainLib bareCtx ''engine''], [Get KPSMDB (c_Name bareCtx)])"
    by (simp add: MonitoringSources_def bindIO_def liveEngine_found live monitoredCR_exporter returnIO_def)
  show ?thesis
    using endpoints_only_for_serving_components [OF run live] run by (simp add: writes_def)
qed

text \<open>Metrics required of a cluster that is not created yet.\<close>

definition newMonitoredCluster :: env where
  "newMonitoredCluster = emptyCluster\<lparr>env_requiredSources := \<lambda>h. Inr (Required, Map.empty)\<rparr>"

lemma monitored_run:
  assumes sources: "\<And>h. env_requiredSources E h = Inr (Required, Map.empty)"
    and live: "\<And>h. \<exists>live. liveEngine E bareCtx h = (Inr live, h @ [Get KPSMDB (c_Name bareCtx)])"
    and spec: "\<And>h. env_providerSpec E h = Inr \<lparr>prov_ReleaseVersion = None, prov_Rest = ''''\<rparr>"
  shows "\<exists>cr' h'. configureMetricsExporter plainLib E bareCtx ''users'' oneReplsetCR [] = (Inr cr', h')"
proof -
  have req: "lib_else plainLib Required b" for b by (simp add: plainLib_def)
  have img: "lib_getDefaultImage plainLib spec metricsExporterComponentType \<noteq> ''''" for spec
    by (simp add: plainLib_def metricsExporterComponentType_def)
  obtain l where l: "liveEngine E bareCtx [ReadRequiredSources] =
      (Inr l, [ReadRequiredSources] @ [Get KPSMDB (c_Name bareCtx)])" using live by blast
  have "\<not> sh_Enabled (ps_Sharding (cr_Spec oneReplsetCR))"
    by (simp add: oneReplsetCR_def zeroPSMDBSpec_def zeroSharding_def)
  then show ?thesis
    by (simp add: configureMetricsExporter_def metricsExporterRequired_def bindIO_def readRequiredSources_def callIO_def
        sources l returnIO_def req readProviderSpec_def wrapIO_def Let_def img spec)
qed

theorem exporters_everywhere_or_nowhere_witness:
  "(\<exists>cr' h'. configureMetricsExporter plainLib monitoredCluster bareCtx ''users'' oneReplsetCR [] = (Inr cr', h') \<and>
     exporterEverywhere (mirrorReplsetOntoHidden cr')) \<and>
   (\<exists>cr' h'. configureMetricsExporter plainLib newMonitoredCluster bareCtx ''users'' oneReplsetCR [] = (Inr cr', h') \<and>
     exporterEverywhere (mirrorReplsetOntoHidden cr') \<and> writes h' = [])"
proof -
  have req: "lib_else plainLib Required b" for b by (simp add: plainLib_def)
  have live: "env_psmdb monitoredCluster h n = Inr monitoredCR" for h n by (simp add: monitoredCluster_def)
  have sources: "env_requiredSources monitoredCluster h = Inr (Required, Map.empty)"
    "env_requiredSources newMonitoredCluster h = Inr (Required, Map.empty)" for h
    by (simp_all add: monitoredCluster_def newMonitoredCluster_def)
  have spec: "env_providerSpec monitoredCluster h = Inr \<lparr>prov_ReleaseVersion = None, prov_Rest = ''''\<rparr>"
    "env_providerSpec newMonitoredCluster h = Inr \<lparr>prov_ReleaseVersion = None, prov_Rest = ''''\<rparr>" for h
    by (simp_all add: monitoredCluster_def newMonitoredCluster_def emptyCluster_def)
  obtain cr1 h1 where run1: "configureMetricsExporter plainLib monitoredCluster bareCtx ''users'' oneReplsetCR [] = (Inr cr1, h1)"
    using monitored_run [of monitoredCluster] sources spec liveEngine_found [OF live] by blast
  have "liveEngine newMonitoredCluster bareCtx h = (Inr zeroPSMDB, h @ [Get KPSMDB (c_Name bareCtx)])" for h
    by (simp add: liveEngine_def newMonitoredCluster_def emptyCluster_def call_defs io_defs)
  then obtain cr2 h2 where
    run2: "configureMetricsExporter plainLib newMonitoredCluster bareCtx ''users'' oneReplsetCR [] = (Inr cr2, h2)"
    using monitored_run [of newMonitoredCluster] sources spec by blast
  have "exporterEverywhere (mirrorReplsetOntoHidden cr1)" "exporterEverywhere (mirrorReplsetOntoHidden cr2)" "writes h2 = []"
    using exporters_everywhere_or_nowhere [OF run1] exporters_everywhere_or_nowhere [OF run2]
    by (auto simp: req sources writes_def)
  with run1 run2 show ?thesis by blast
qed

text \<open>Half a core is requested under a limit of a quarter: rejected. Nothing requested: the defaults.\<close>

theorem pmm_resources_merged_witness:
  "(\<exists>res. mergeResources plainLib zeroResources pmmResourcesSmall = Inr res \<and> \<not> overLimit res ResourceCPU) \<and>
   (\<exists>e. mergeResources plainLib \<lparr>rr_Limits = Some [ResourceCPU \<mapsto> qMilli 250], rr_Requests = Some [ResourceCPU \<mapsto> qMilli 500]\<rparr>
      pmmResourcesSmall = Inl e)"
proof
  obtain res where "mergeResources plainLib zeroResources pmmResourcesSmall = Inr res"
    using pmm_resources_merged [of plainLib zeroResources pmmResourcesSmall]
    by (cases "mergeResources plainLib zeroResources pmmResourcesSmall") (auto simp: zeroResources_def rlGet_def qtyOf_def)
  with pmm_resources_merged [of plainLib zeroResources pmmResourcesSmall]
  show "\<exists>res. mergeResources plainLib zeroResources pmmResourcesSmall = Inr res \<and> \<not> overLimit res ResourceCPU"
    by auto
  show "\<exists>e. mergeResources plainLib \<lparr>rr_Limits = Some [ResourceCPU \<mapsto> qMilli 250], rr_Requests = Some [ResourceCPU \<mapsto> qMilli 500]\<rparr>
      pmmResourcesSmall = Inl e"
    by (rule pmm_resources_merged [THEN conjunct2, THEN iffD2], rule bexI [of _ ResourceCPU])
      (simp_all only: mergeResourceList_get, simp_all add: rlGet_def qtyOf_def)
qed

end
