(* ===== verification/Upgrade.thy ===== *)
theory Upgrade
  imports Monitoring
begin

text \<open>
  Versions (operator\_version.go, upgrade.go, and \<^verbatim>\<open>convergedCRVersion\<close> of provider.go): the version of the running
  operator read off its Deployment, the engine compatibility version that a sync applies, and the upgrade check that
  blocks a provider release which would leave a database behind.
\<close>

section \<open>The running operator\<close>

definition operatorImageRepo :: string where
  "operatorImageRepo = ''percona/percona-server-mongodb-operator''"

text \<open>\<^verbatim>\<open>strings.TrimSpace\<close> of ASCII text.\<close>

definition isSpace :: "char \<Rightarrow> bool" where
  "isSpace ch \<longleftrightarrow> (9 \<le> (of_char ch :: nat) \<and> (of_char ch :: nat) \<le> 13) \<or> (of_char ch :: nat) = 32"

definition trimSpace :: "string \<Rightarrow> string" where
  "trimSpace s = rev (dropWhile isSpace (rev (dropWhile isSpace s)))"

definition currentNamespace :: "env \<Rightarrow> go_error + string" where
  "currentNamespace E =
     (if env_podNamespace E \<noteq> '''' then Inr (env_podNamespace E)
      else (case env_namespaceFile E of
              Inl e \<Rightarrow> Inl (Wrap ''determining provider namespace'' e)
            | Inr text \<Rightarrow> Inr (trimSpace text)))"

definition operatorImageTag :: "string \<Rightarrow> string option" where
  "operatorImageTag image0 =
     (let img = cutBefore image0 CHR ''@'';
          (repo, tag) = (case lastIndex img CHR '':'' of
             None \<Rightarrow> (img, '''')
           | Some i \<Rightarrow> if \<not> contains (drop i img) ''/'' then (take i img, drop (i + 1) img) else (img, ''''))
      in if tag = '''' \<or> \<not> hasSuffix repo operatorImageRepo then None else Some (trimPrefix tag ''v''))"

text \<open>The two nested loops of \<^verbatim>\<open>operatorVersion\<close>, over the images of all containers in order.\<close>

fun scanImages :: "string \<Rightarrow> string list \<Rightarrow> string \<Rightarrow> go_error + string" where
  "scanImages ns [] version = Inr version"
| "scanImages ns (img # imgs) version =
     (case operatorImageTag img of
        None \<Rightarrow> scanImages ns imgs version
      | Some tag \<Rightarrow>
          (if version \<noteq> '''' \<and> version \<noteq> tag
           then Inl (Errorf (''multiple PSMDB operator deployments with conflicting versions ('' @ version @ '', '' @ tag @
                  '') in namespace '' @ quote ns))
           else scanImages ns imgs tag))"

definition operatorVersion :: "env \<Rightarrow> string act" where
  "operatorVersion E =
     bindIO (liftIO (currentNamespace E)) (\<lambda>ns.
     bindIO (wrapIO (''listing deployments in '' @ quote ns) (listDeploymentImages E ns)) (\<lambda>deployments.
     bindIO (liftIO (scanImages ns (concat deployments) '''')) (\<lambda>version.
       if version = '''' then failIO (Errorf (''PSMDB operator deployment not found in namespace '' @ ns))
       else returnIO version)))"

section \<open>The version a sync applies\<close>

definition versionLessThan :: "lib \<Rightarrow> string \<Rightarrow> string \<Rightarrow> bool" where
  "versionLessThan L a b =
     (case (lib_newVersion L a, lib_newVersion L b) of (Some va, Some vb) \<Rightarrow> lib_lessThan L va vb | _ \<Rightarrow> False)"

definition convergedCRVersion :: "lib \<Rightarrow> env \<Rightarrow> ctx \<Rightarrow> string act" where
  "convergedCRVersion L E c =
     handleIO (getPSMDB E (c_Name c)) (\<lambda>r. case r of
       Inl e \<Rightarrow> if isNotFound e then returnIO '''' else failIO (Wrap ''fetching current PSMDB CR'' e)
     | Inr current \<Rightarrow>
         (if ps_CRVersion (cr_Spec current) = '''' then returnIO ''''
          else handleIO (operatorVersion E) (\<lambda>v. case v of
            Inl _ \<Rightarrow> returnIO (ps_CRVersion (cr_Spec current))
          | Inr operatorVer \<Rightarrow>
              (if \<not> versionLessThan L (ps_CRVersion (cr_Spec current)) operatorVer
               then returnIO (ps_CRVersion (cr_Spec current))
               else bindIO (wrapIO ''fetching provider spec for the approval token'' (readProviderSpec E)) (\<lambda>spec.
                 let token = ''upgrade-to-'' @ (case prov_ReleaseVersion spec of
                       Some rv \<Rightarrow> if rv \<noteq> '''' then rv else operatorVer | None \<Rightarrow> operatorVer)
                 in bindIO (requestMaintenance E token
                      ''Apply the new engine compatibility version (causes a brief rolling restart)''
                      MaintenanceRollingRestart) (\<lambda>approved.
                    returnIO (if approved then operatorVer else ps_CRVersion (cr_Spec current))))))))"

section \<open>The upgrade check\<close>

definition skewWindowMinors :: int where
  "skewWindowMinors = 3"

definition targetOperatorVersionEnv :: string where
  "targetOperatorVersionEnv = ''TARGET_OPERATOR_VERSION''"

definition reasonSkewWindowExceeded :: string where
  "reasonSkewWindowExceeded = ''SkewWindowExceeded''"

definition reasonSkewUnverified :: string where
  "reasonSkewUnverified = ''SkewUnverified''"

datatype upgradeSeverity = UpgradeWarning | UpgradeError

record upgradeIssue =
  ui_Severity :: upgradeSeverity
  ui_Reason :: string
  ui_Message :: string
  ui_InstanceName :: string
  ui_Namespace :: string

text \<open>Indexing past the segments panics, \<^const>\<open>None\<close>.\<close>

definition outsideSkewWindow :: "version \<Rightarrow> version \<Rightarrow> bool option" where
  "outsideSkewWindow targetVer crVer =
     (case (ver_Segments targetVer, ver_Segments crVer) of
        (t0 # ts, c0 # cs) \<Rightarrow>
          (if t0 \<noteq> c0 then Some True
           else (case (ts, cs) of (t1 # _, c1 # _) \<Rightarrow> Some (skewWindowMinors \<le> t1 - c1) | _ \<Rightarrow> None))
      | _ \<Rightarrow> None)"

definition checkInstanceSkew :: "lib \<Rightarrow> env \<Rightarrow> instance_t \<Rightarrow> version \<Rightarrow> upgradeIssue option act" where
  "checkInstanceSkew L E i targetVer =
     (let issue = (\<lambda>sev reason msg. Some \<lparr>ui_Severity = sev, ui_Reason = reason, ui_Message = msg,
            ui_InstanceName = in_Name i, ui_Namespace = in_Namespace i\<rparr>)
      in handleIO (getPSMDBIn E (in_Namespace i) (in_Name i)) (\<lambda>r. case r of
           Inl e \<Rightarrow>
             (if isNotFound e then returnIO None
              else returnIO (issue UpgradeWarning reasonSkewUnverified
                (''cannot verify compatibility skew: fetching the engine resource failed: '' @ errText (lib_errText L) e)))
         | Inr current \<Rightarrow>
             (if ps_CRVersion (cr_Spec current) = '''' then returnIO None
              else (case lib_newVersion L (ps_CRVersion (cr_Spec current)) of
                None \<Rightarrow> returnIO (issue UpgradeWarning reasonSkewUnverified
                  (''cannot verify compatibility skew: engine compatibility version '' @
                   quote (ps_CRVersion (cr_Spec current)) @ '' is not a valid version''))
              | Some crVer \<Rightarrow>
                  (if lib_greaterThan L crVer targetVer
                   then returnIO (issue UpgradeError reasonSkewWindowExceeded
                     (''this database's engine compatibility version '' @ ver_Original crVer @
                      '' is newer than what the target provider release supports ('' @ ver_Original targetVer @
                      ''); the change would leave it unmanageable''))
                   else (case outsideSkewWindow targetVer crVer of
                     None \<Rightarrow> failIO (Panic ''index out of range'')
                   | Some True \<Rightarrow> returnIO (issue UpgradeError reasonSkewWindowExceeded
                       (''this database has a deferred compatibility upgrade (engine compatibility version '' @
                        ver_Original crVer @ '') that would fall outside the target provider release's support window; approve the pending restart (spec.maintenance.approved) and let it converge before upgrading the provider''))
                   | Some False \<Rightarrow> returnIO None))))))"

fun checkInstances :: "lib \<Rightarrow> env \<Rightarrow> version \<Rightarrow> instance_t list \<Rightarrow> upgradeIssue list act" where
  "checkInstances L E targetVer [] = returnIO []"
| "checkInstances L E targetVer (i # is) =
     (if in_Deleting i then checkInstances L E targetVer is
      else bindIO (checkInstanceSkew L E i targetVer) (\<lambda>issue.
           bindIO (checkInstances L E targetVer is) (\<lambda>issues.
           returnIO (case issue of None \<Rightarrow> issues | Some x \<Rightarrow> x # issues))))"

definition unverified :: "string \<Rightarrow> upgradeIssue list" where
  "unverified msg = [\<lparr>ui_Severity = UpgradeWarning, ui_Reason = reasonSkewUnverified, ui_Message = msg,
     ui_InstanceName = '''', ui_Namespace = ''''\<rparr>]"

definition CheckUpgrade :: "lib \<Rightarrow> env \<Rightarrow> instance_t list \<Rightarrow> upgradeIssue list act" where
  "CheckUpgrade L E instances =
     (let targetRaw = env_targetOperatorVersion E
      in if targetRaw = ''''
         then returnIO (unverified (''cannot verify compatibility skew: '' @ targetOperatorVersionEnv @
                '' is not set on the preflight job''))
         else (case lib_newVersion L targetRaw of
           None \<Rightarrow> returnIO (unverified (''cannot verify compatibility skew: target version '' @ quote targetRaw @
                     '' is not a valid version''))
         | Some targetVer \<Rightarrow> checkInstances L E targetVer instances))"


section \<open>Reading the operator's version\<close>

lemma cutBefore_split:
  "\<exists>d. s = cutBefore s ch @ d \<and> (d = [] \<or> hasPrefix d [ch])"
proof -
  have "dropWhile (\<lambda>x. x \<noteq> ch) s = [] \<or> hasPrefix (dropWhile (\<lambda>x. x \<noteq> ch) s) [ch]"
    using hd_dropWhile [of "\<lambda>x. x \<noteq> ch" s] by (cases "dropWhile (\<lambda>x. x \<noteq> ch) s") (auto simp: hasPrefix_def)
  then show ?thesis
    unfolding cutBefore_def by (metis takeWhile_dropWhile_id)
qed

lemma cutBefore_append:
  "ch \<notin> set u \<Longrightarrow> d = [] \<or> hasPrefix d [ch] \<Longrightarrow> cutBefore (u @ d) ch = u"
  by (auto simp: cutBefore_def hasPrefix_iff takeWhile_tail)

lemma contains_char: "contains s [ch] \<longleftrightarrow> ch \<in> set s"
  by (auto simp: contains_iff in_set_conv_decomp)

text \<open>A reference is an operator image with a tag exactly when it reads \<open>registry/repo:tag\<close>, with or without a digest.\<close>

lemma operatorImageTag_iff:
  "operatorImageTag s = Some v \<longleftrightarrow>
     (\<exists>r t d. s = r @ operatorImageRepo @ '':'' @ t @ d \<and> CHR ''@'' \<notin> set r \<and> t \<noteq> '''' \<and>
        set t \<inter> {CHR '':'', CHR ''/'', CHR ''@''} = {} \<and> (d = '''' \<or> hasPrefix d ''@'') \<and> v = trimPrefix t ''v'')"
  (is "?L \<longleftrightarrow> ?R")
proof
  assume tag: ?L
  obtain d where d: "s = cutBefore s CHR ''@'' @ d" "d = '''' \<or> hasPrefix d ''@''"
    using cutBefore_split by blast
  have at: "CHR ''@'' \<notin> set (cutBefore s CHR ''@'')"
    by (auto simp: cutBefore_def dest: set_takeWhileD)
  define img where "img = cutBefore s CHR ''@''"
  obtain i where i: "lastIndex img CHR '':'' = Some i" "\<not> contains (drop i img) ''/''"
      "drop (i + 1) img \<noteq> ''''" "hasSuffix (take i img) operatorImageRepo" "v = trimPrefix (drop (i + 1) img) ''v''"
    using tag unfolding operatorImageTag_def img_def [symmetric]
    by (auto simp: Let_def split: option.splits if_splits)
  obtain u t where ut: "img = u @ CHR '':'' # t" "CHR '':'' \<notin> set t" "i = length u"
    using i(1) by (auto simp: lastIndex_Some)
  obtain r where r: "u = r @ operatorImageRepo" using i(4) ut by (auto simp: hasSuffix_iff)
  have parts: "CHR ''/'' \<notin> set t" "t \<noteq> ''''" "v = trimPrefix t ''v''"
    using i(2,3,5) ut by (simp_all add: contains_char)
  moreover have "CHR ''@'' \<notin> set t" "CHR ''@'' \<notin> set r"
    using at unfolding img_def [symmetric] ut(1) r by simp_all
  moreover have "s = r @ operatorImageRepo @ '':'' @ t @ d"
    using d(1) unfolding img_def [symmetric] ut(1) r by simp
  ultimately show ?R
    using ut(2) d(2) by (intro exI [of _ r] exI [of _ t] exI [of _ d]) simp
next
  assume ?R
  then obtain r t d where s: "s = (r @ operatorImageRepo @ '':'' @ t) @ d" "CHR ''@'' \<notin> set r" "t \<noteq> ''''"
    "CHR '':'' \<notin> set t" "CHR ''/'' \<notin> set t" "CHR ''@'' \<notin> set t" "d = '''' \<or> hasPrefix d ''@''" "v = trimPrefix t ''v''"
    by auto
  have "CHR ''@'' \<notin> set operatorImageRepo" by (simp add: operatorImageRepo_def)
  then have img: "cutBefore s CHR ''@'' = (r @ operatorImageRepo) @ CHR '':'' # t"
    using s by (subst s(1), subst cutBefore_append) simp_all
  have "lastIndex ((r @ operatorImageRepo) @ CHR '':'' # t) CHR '':'' = Some (length (r @ operatorImageRepo))"
    using s(4) by (rule lastIndex_append)
  moreover have "hasSuffix (r @ operatorImageRepo) operatorImageRepo" by simp
  ultimately show ?L
    using s(3,5,8) unfolding operatorImageTag_def img by (simp add: contains_char del: append_assoc)
qed

definition operatorTags :: "string list list \<Rightarrow> string list" where
  "operatorTags deployments = List.map_filter operatorImageTag (concat deployments)"

lemma scanImages_pinned:
  "version \<noteq> '''' \<Longrightarrow>
     scanImages ns imgs version = Inr v \<longleftrightarrow> v = version \<and> (\<forall>t \<in> set (List.map_filter operatorImageTag imgs). t = version)"
  by (induction imgs) (auto simp: map_filter_simps split: option.splits)

lemma scanImages_ok:
  "scanImages ns imgs '''' = Inr v \<longleftrightarrow>
     (case dropWhile (\<lambda>t. t = '''') (List.map_filter operatorImageTag imgs) of
        [] \<Rightarrow> v = '''' | t # ts \<Rightarrow> v = t \<and> (\<forall>u \<in> set ts. u = t))"
proof (induction imgs)
  case Nil
  then show ?case by (auto simp: map_filter_simps)
next
  case (Cons img imgs)
  show ?case
  proof (cases "operatorImageTag img")
    case None
    with Cons show ?thesis by (simp add: map_filter_simps)
  next
    case (Some t)
    with Cons scanImages_pinned [of t] show ?thesis by (cases "t = ''''") (auto simp: map_filter_simps)
  qed
qed

lemma operatorVersion_ok:
  "operatorVersion E h = (Inr v, h') \<longleftrightarrow>
     (\<exists>ns ds ts. currentNamespace E = Inr ns \<and> env_deploymentImages E h ns = Inr ds \<and> v \<noteq> '''' \<and>
        dropWhile (\<lambda>t. t = '''') (operatorTags ds) = v # ts \<and> (\<forall>t \<in> set ts. t = v) \<and>
        h' = h @ [ListBy KDeployment [(''namespace'', ns)]])"
  (is "_ \<longleftrightarrow> ?R")
proof -
  have "operatorVersion E h = (Inr v, h') \<longleftrightarrow>
      (\<exists>ns ds. currentNamespace E = Inr ns \<and> env_deploymentImages E h ns = Inr ds \<and> v \<noteq> '''' \<and>
        scanImages ns (concat ds) '''' = Inr v \<and> h' = h @ [ListBy KDeployment [(''namespace'', ns)]])"
    by (auto simp: operatorVersion_def call_defs io_simps)
  moreover have "v \<noteq> '''' \<and> scanImages ns (concat ds) '''' = Inr v \<longleftrightarrow>
      (\<exists>ts. v \<noteq> '''' \<and> dropWhile (\<lambda>t. t = '''') (operatorTags ds) = v # ts \<and> (\<forall>t \<in> set ts. t = v))" for ns ds
    unfolding scanImages_ok operatorTags_def [symmetric]
    by (cases "dropWhile (\<lambda>t. t = '''') (operatorTags ds)") (auto simp del: dropWhile_eq_Nil_conv)
  ultimately show ?thesis by blast
qed

lemma readOnly_operatorVersion [read_only_intros]: "readOnly (operatorVersion E)"
  unfolding operatorVersion_def by (auto intro!: emits_bind emits_wrap read_only_intros)


section \<open>Converging the version\<close>

abbreviation bumpMessage :: string where
  "bumpMessage \<equiv> ''Apply the new engine compatibility version (causes a brief rolling restart)''"

text \<open>The operator runs version \<open>ov\<close>, newer than the CR's.\<close>

definition lagsBehind :: "lib \<Rightarrow> env \<Rightarrow> history \<Rightarrow> psmdb \<Rightarrow> string \<Rightarrow> bool" where
  "lagsBehind L E h cur ov \<longleftrightarrow> ps_CRVersion (cr_Spec cur) \<noteq> '''' \<and>
     fst (operatorVersion E h) = Inr ov \<and> versionLessThan L (ps_CRVersion (cr_Spec cur)) ov"

definition quiet :: "call \<Rightarrow> bool" where
  "quiet cl \<longleftrightarrow> isRead cl \<or> (\<exists>t m mk. cl = RequestMaintenance t m mk)"

lemma quiet_write: "quiet cl \<Longrightarrow> \<not> isWrite cl"
  by (auto simp: quiet_def isRead_not_write)

lemma emits_quiet_read: "readOnly m \<Longrightarrow> emits quiet m"
  by (erule emits_mono) (simp add: quiet_def)

lemma emits_quiet_maintenance: "emits quiet (requestMaintenance E t m mk)"
  unfolding requestMaintenance_def by (rule emits_call) (simp add: quiet_def)

lemma emits_convergedCRVersion: "emits quiet (convergedCRVersion L E c)"
  unfolding convergedCRVersion_def Let_def
  by (auto intro!: emits_handle emits_bind emits_wrap emits_quiet_maintenance
      read_only_intros [THEN emits_quiet_read] split: sum.splits)

lemma quiet_writes: "emits quiet m \<Longrightarrow> m h = (r, h') \<Longrightarrow> writes h' = writes h"
  using emitsD [of quiet m h r h'] quiet_write by (auto simp: writes_def list_all_iff)

lemma maintenance_run:
  "bindIO (requestMaintenance E token msg mk) (\<lambda>ok. returnIO (f ok)) h = (Inr v, h') \<Longrightarrow>
     h' = h @ [RequestMaintenance token msg mk] \<and> v = f (env_maintenanceApproved E h token)"
  by (auto simp: requestMaintenance_def io_simps)

lemma convergedCRVersion_live:
  assumes run: "convergedCRVersion L E c h = (Inr v, h')" and live: "env_psmdb E h (c_Name c) = Inr cur"
  shows "if \<exists>ov. lagsBehind L E (h @ [Get KPSMDB (c_Name c)]) cur ov
    then \<exists>ov h1 token. lagsBehind L E (h @ [Get KPSMDB (c_Name c)]) cur ov \<and> hasPrefix token ''upgrade-to-'' \<and>
      h' = h1 @ [RequestMaintenance token bumpMessage MaintenanceRollingRestart] \<and>
      v = (if env_maintenanceApproved E h1 token then ov else ps_CRVersion (cr_Spec cur))
    else v = ps_CRVersion (cr_Spec cur)"
proof -
  let ?h = "h @ [Get KPSMDB (c_Name c)]"
  obtain r h1 where op: "operatorVersion E ?h = (r, h1)" by (cases "operatorVersion E ?h")
  note defs = convergedCRVersion_def handleIO_def getPSMDB_def callIO_def live op lagsBehind_def
  show ?thesis
  proof (cases "\<exists>ov. lagsBehind L E ?h cur ov")
    case False
    then show ?thesis
      using run by (cases r) (auto simp: defs returnIO_def split: if_splits)
  next
    case True
    then obtain ov where ov: "lagsBehind L E ?h cur ov" by blast
    obtain spec :: providerSpec where
      "bindIO (requestMaintenance E (''upgrade-to-'' @ (case prov_ReleaseVersion spec of
           Some rv \<Rightarrow> if rv \<noteq> '''' then rv else ov | None \<Rightarrow> ov)) bumpMessage MaintenanceRollingRestart)
        (\<lambda>approved. returnIO (if approved then ov else ps_CRVersion (cr_Spec cur))) (h1 @ [ReadProviderSpec]) = (Inr v, h')"
      using run ov
      by (auto simp: defs Let_def bindIO_def [of "wrapIO _ _"] wrapIO_def readProviderSpec_def split: sum.splits)
    from maintenance_run [OF this]
    have "\<exists>token. hasPrefix token ''upgrade-to-'' \<and> h' = (h1 @ [ReadProviderSpec]) @ [RequestMaintenance token bumpMessage MaintenanceRollingRestart] \<and>
        v = (if env_maintenanceApproved E (h1 @ [ReadProviderSpec]) token then ov else ps_CRVersion (cr_Spec cur))"
      using hasPrefix_append by blast
    with True ov show ?thesis by metis
  qed
qed

text \<open>C22. The engine compatibility version is raised only with approval and never lowered: a sync keeps the version of the
  live CR unless the running operator is newer, in which case it asks for maintenance and applies the
  operator's version exactly when that is approved. A cluster that does not exist yet gets none. Nothing is written.\<close>

theorem crversion_bump_needs_approval:
  assumes run: "convergedCRVersion L E c h = (Inr v, h')"
  shows "writes h' = writes h \<and>
    (case env_psmdb E h (c_Name c) of
       Inl e \<Rightarrow> isNotFound e \<and> v = ''''
     | Inr cur \<Rightarrow>
         (if \<exists>ov. lagsBehind L E (h @ [Get KPSMDB (c_Name c)]) cur ov
          then \<exists>ov h1 token. lagsBehind L E (h @ [Get KPSMDB (c_Name c)]) cur ov \<and> hasPrefix token ''upgrade-to-'' \<and>
            h' = h1 @ [RequestMaintenance token bumpMessage MaintenanceRollingRestart] \<and>
            v = (if env_maintenanceApproved E h1 token then ov else ps_CRVersion (cr_Spec cur))
          else v = ps_CRVersion (cr_Spec cur)))"
proof -
  have "isNotFound e \<and> v = ''''" if "env_psmdb E h (c_Name c) = Inl e" for e
    using run that by (auto simp: convergedCRVersion_def handleIO_def getPSMDB_def callIO_def io_simps split: if_splits)
  then show ?thesis
    using convergedCRVersion_live [OF run] quiet_writes [OF emits_convergedCRVersion run]
    by (cases "env_psmdb E h (c_Name c)") auto
qed

definition versionedCR :: "string \<Rightarrow> psmdb" where
  "versionedCR v = zeroPSMDB\<lparr>cr_Spec := zeroPSMDBSpec\<lparr>ps_CRVersion := v\<rparr>\<rparr>"

definition laggingCluster :: "bool \<Rightarrow> env" where
  "laggingCluster ok = emptyCluster\<lparr>env_psmdb := \<lambda>h n. Inr (versionedCR ''1.21.0''),
     env_psmdbIn := \<lambda>h ns n. Inr (versionedCR ''1.19.0''),
     env_deploymentImages := \<lambda>h ns. Inr [[''docker.io/percona/percona-server-mongodb-operator:1.22.0''], [''other/image:2'']],
     env_maintenanceApproved := \<lambda>h t. ok\<rparr>"

lemma laggingCluster_operator:
  "operatorVersion (laggingCluster ok) h = (Inr ''1.22.0'', h @ [ListBy KDeployment [(''namespace'', ''everest-system'')]])"
proof -
  have "operatorTags [[''docker.io/percona/percona-server-mongodb-operator:1.22.0''], [''other/image:2'']] = [''1.22.0'']"
    by code_simp
  then show ?thesis
    by (simp add: operatorVersion_ok laggingCluster_def emptyCluster_def currentNamespace_def)
qed

lemma plainLib_older: "versionLessThan plainLib ''1.21.0'' ''1.22.0''"
  by (simp add: versionLessThan_def plainLib_def) code_simp

theorem crversion_bump_needs_approval_witness:
  "\<exists>h1 h2. convergedCRVersion plainLib (laggingCluster True) bareCtx [] = (Inr ''1.22.0'', h1) \<and> writes h1 = [] \<and>
     convergedCRVersion plainLib (laggingCluster False) bareCtx [] = (Inr ''1.21.0'', h2) \<and> writes h2 = []"
proof -
  have cur: "env_psmdb (laggingCluster ok) h n = Inr (versionedCR ''1.21.0'')" for ok h n by (simp add: laggingCluster_def)
  have run: "\<exists>h'. convergedCRVersion plainLib (laggingCluster ok) bareCtx [] = (Inr (if ok then ''1.22.0'' else ''1.21.0''), h')" for ok
    using plainLib_older
    by (simp add: convergedCRVersion_def handleIO_def getPSMDB_def callIO_def cur laggingCluster_operator versionedCR_def
        bindIO_def wrapIO_def readProviderSpec_def requestMaintenance_def returnIO_def Let_def)
      (simp add: laggingCluster_def emptyCluster_def bindIO_def callIO_def returnIO_def)
  obtain h1 h2 where h: "convergedCRVersion plainLib (laggingCluster True) bareCtx [] = (Inr ''1.22.0'', h1)"
    "convergedCRVersion plainLib (laggingCluster False) bareCtx [] = (Inr ''1.21.0'', h2)"
    using run [of True] run [of False] by auto
  then show ?thesis
    using crversion_bump_needs_approval [OF h(1)] crversion_bump_needs_approval [OF h(2)] by (simp add: writes_def)
qed

text \<open>The running operator's version is unambiguous: it is found exactly when the listed Deployments run operator
  images whose tags, leading empty ones aside, are all that version; two operators of different versions, or none, are
  an error.\<close>

theorem operator_version_unambiguous:
  "operatorVersion E h = (Inr v, h') \<longleftrightarrow>
     (\<exists>ns ds ts. currentNamespace E = Inr ns \<and> env_deploymentImages E h ns = Inr ds \<and> v \<noteq> '''' \<and>
        dropWhile (\<lambda>t. t = '''') (operatorTags ds) = v # ts \<and> (\<forall>t \<in> set ts. t = v) \<and>
        h' = h @ [ListBy KDeployment [(''namespace'', ns)]])"
  by (rule operatorVersion_ok)

theorem operator_version_unambiguous_witness:
  "\<exists>h'. operatorVersion (laggingCluster True) [] = (Inr ''1.22.0'', h') \<and>
     currentNamespace (laggingCluster True) = Inr ''everest-system''"
  using laggingCluster_operator [of True "[]"] operator_version_unambiguous [of "laggingCluster True" "[]" "''1.22.0''"]
  by (auto simp: laggingCluster_def emptyCluster_def currentNamespace_def)


section \<open>Checking an upgrade\<close>

text \<open>The database would not be manageable by an operator of version \<open>target\<close>: it is newer, of another major version,
  or three or more minor versions behind.\<close>

definition blocksUpgrade :: "lib \<Rightarrow> version \<Rightarrow> psmdb \<Rightarrow> bool" where
  "blocksUpgrade L target cur \<longleftrightarrow> ps_CRVersion (cr_Spec cur) \<noteq> '''' \<and>
     (case lib_newVersion L (ps_CRVersion (cr_Spec cur)) of
        None \<Rightarrow> False
      | Some v \<Rightarrow> lib_greaterThan L v target \<or> ver_Segments target ! 0 \<noteq> ver_Segments v ! 0 \<or>
          3 \<le> ver_Segments target ! 1 - ver_Segments v ! 1)"

text \<open>The engine resource cannot be read, or its version cannot.\<close>

definition cannotVerify :: "lib \<Rightarrow> go_error + psmdb \<Rightarrow> bool" where
  "cannotVerify L r = (case r of
     Inl e \<Rightarrow> \<not> isNotFound e
   | Inr cur \<Rightarrow> ps_CRVersion (cr_Spec cur) \<noteq> '''' \<and> lib_newVersion L (ps_CRVersion (cr_Spec cur)) = None)"

definition severityOf :: "lib \<Rightarrow> version \<Rightarrow> go_error + psmdb \<Rightarrow> upgradeSeverity option" where
  "severityOf L target r =
     (if \<exists>cur. r = Inr cur \<and> blocksUpgrade L target cur then Some UpgradeError
      else if cannotVerify L r then Some UpgradeWarning else None)"

text \<open>go-version pads the segments of a version to three, so the two that are indexed exist.\<close>

definition versionsHaveSegments :: "lib \<Rightarrow> bool" where
  "versionsHaveSegments L \<longleftrightarrow> (\<forall>s v. lib_newVersion L s = Some v \<longrightarrow> 2 \<le> length (ver_Segments v))"

lemma versionsHaveSegmentsD:
  "versionsHaveSegments L \<Longrightarrow> lib_newVersion L s = Some v \<Longrightarrow> 2 \<le> length (ver_Segments v)"
  by (simp add: versionsHaveSegments_def)

lemma outsideSkewWindow_segments:
  "2 \<le> length (ver_Segments t) \<Longrightarrow> 2 \<le> length (ver_Segments c) \<Longrightarrow>
     outsideSkewWindow t c = Some (ver_Segments t ! 0 \<noteq> ver_Segments c ! 0 \<or> 3 \<le> ver_Segments t ! 1 - ver_Segments c ! 1)"
  by (auto simp: outsideSkewWindow_def skewWindowMinors_def Suc_le_length_iff numeral_2_eq_2 split: list.splits)

text \<open>One instance: the call, and the issue by its severity.\<close>

lemma checkInstanceSkew_run:
  assumes seg: "versionsHaveSegments L"
    and t: "2 \<le> length (ver_Segments target)"
  shows "\<exists>issue. checkInstanceSkew L E i target h = (Inr issue, h @ [GetIn KPSMDB (in_Namespace i) (in_Name i)]) \<and>
    map_option ui_Severity issue = severityOf L target (env_psmdbIn E h (in_Namespace i) (in_Name i)) \<and>
    (\<forall>x. issue = Some x \<longrightarrow> ui_InstanceName x = in_Name i \<and> ui_Namespace x = in_Namespace i)"
proof (cases "env_psmdbIn E h (in_Namespace i) (in_Name i)")
  case (Inl e)
  then show ?thesis
    by (simp add: checkInstanceSkew_def Let_def call_defs handleIO_def callIO_def returnIO_def severityOf_def cannotVerify_def)
next
  case (Inr cur)
  note defs = checkInstanceSkew_def Let_def getPSMDBIn_def handleIO_def callIO_def returnIO_def severityOf_def cannotVerify_def
    blocksUpgrade_def
  show ?thesis
  proof (cases "lib_newVersion L (ps_CRVersion (cr_Spec cur))")
    case None
    with Inr show ?thesis by (simp add: defs)
  next
    case (Some v)
    from outsideSkewWindow_segments [OF t versionsHaveSegmentsD [OF seg Some]] Inr Some show ?thesis
      by (cases "outsideSkewWindow target v = Some True") (auto simp: defs)
  qed
qed

abbreviation issuesOf :: "upgradeSeverity \<Rightarrow> upgradeIssue list \<Rightarrow> (string \<times> string) list" where
  "issuesOf s issues \<equiv> map (\<lambda>x. (ui_Namespace x, ui_InstanceName x)) (filter (\<lambda>x. ui_Severity x = s) issues)"

lemma checkInstances_run:
  assumes seg: "versionsHaveSegments L"
    and t: "2 \<le> length (ver_Segments target)"
    and live: "\<forall>h ns n. env_psmdbIn E h ns n = live ns n"
  shows "\<exists>issues h'. checkInstances L E target ins h = (Inr issues, h') \<and> writes h' = writes h \<and>
    issuesOf s issues = map (\<lambda>i. (in_Namespace i, in_Name i))
      (filter (\<lambda>i. \<not> in_Deleting i \<and> severityOf L target (live (in_Namespace i) (in_Name i)) = Some s) ins)"
proof (induction ins arbitrary: h)
  case Nil
  then show ?case by (simp add: returnIO_def)
next
  case (Cons i ins)
  show ?case
  proof (cases "in_Deleting i")
    case True
    with Cons show ?thesis by simp
  next
    case False
    obtain issue where one: "checkInstanceSkew L E i target h = (Inr issue, h @ [GetIn KPSMDB (in_Namespace i) (in_Name i)])"
      "map_option ui_Severity issue = severityOf L target (live (in_Namespace i) (in_Name i))"
      "\<And>x. issue = Some x \<Longrightarrow> ui_InstanceName x = in_Name i \<and> ui_Namespace x = in_Namespace i"
      using checkInstanceSkew_run [OF seg t, where E = E and i = i and h = h] live by auto
    obtain issues h' where rest:
      "checkInstances L E target ins (h @ [GetIn KPSMDB (in_Namespace i) (in_Name i)]) = (Inr issues, h')"
      "writes h' = writes (h @ [GetIn KPSMDB (in_Namespace i) (in_Name i)])"
      "issuesOf s issues = map (\<lambda>i. (in_Namespace i, in_Name i))
        (filter (\<lambda>i. \<not> in_Deleting i \<and> severityOf L target (live (in_Namespace i) (in_Name i)) = Some s) ins)"
      using Cons.IH by blast
    have "writes h' = writes h" using rest(2) by (simp add: writes_def)
    then show ?thesis
      using False one rest(1,3) by (cases issue) (auto simp: bindIO_def returnIO_def split: option.splits)
  qed
qed

text \<open>C26. The upgrade check blocks exactly the databases the new release could not manage: it always completes, writes nothing,
  reports an error for an instance (not being deleted) if and only if its engine version is newer than the target, of another major version,
  or three or more minor versions behind it, and a warning if and only if that cannot be verified.\<close>

theorem upgrade_blocked_exactly:
  assumes target: "env_targetOperatorVersion E \<noteq> ''''" "lib_newVersion L (env_targetOperatorVersion E) = Some t"
    and segments: "versionsHaveSegments L"
    and live: "\<forall>h ns n. env_psmdbIn E h ns n = live ns n"
  shows "\<exists>issues h'. CheckUpgrade L E ins h = (Inr issues, h') \<and> writes h' = writes h \<and>
    issuesOf UpgradeError issues = map (\<lambda>i. (in_Namespace i, in_Name i))
      (filter (\<lambda>i. \<not> in_Deleting i \<and> (\<exists>cur. live (in_Namespace i) (in_Name i) = Inr cur \<and> blocksUpgrade L t cur)) ins) \<and>
    issuesOf UpgradeWarning issues = map (\<lambda>i. (in_Namespace i, in_Name i))
      (filter (\<lambda>i. \<not> in_Deleting i \<and> cannotVerify L (live (in_Namespace i) (in_Name i))) ins)"
proof -
  have t: "2 \<le> length (ver_Segments t)" using versionsHaveSegmentsD [OF segments target(2)] .
  obtain issues h' where run: "checkInstances L E t ins h = (Inr issues, h')" "writes h' = writes h"
    "issuesOf UpgradeError issues = map (\<lambda>i. (in_Namespace i, in_Name i))
      (filter (\<lambda>i. \<not> in_Deleting i \<and> severityOf L t (live (in_Namespace i) (in_Name i)) = Some UpgradeError) ins)"
    using checkInstances_run [OF segments t live, where ins = ins and h = h and s = UpgradeError] by blast
  have warn: "issuesOf UpgradeWarning issues = map (\<lambda>i. (in_Namespace i, in_Name i))
      (filter (\<lambda>i. \<not> in_Deleting i \<and> severityOf L t (live (in_Namespace i) (in_Name i)) = Some UpgradeWarning) ins)"
    using checkInstances_run [OF segments t live, where ins = ins and h = h and s = UpgradeWarning] run(1) by auto
  have sev: "severityOf L t r = Some UpgradeError \<longleftrightarrow> (\<exists>cur. r = Inr cur \<and> blocksUpgrade L t cur)"
    "severityOf L t r = Some UpgradeWarning \<longleftrightarrow> cannotVerify L r" for r
    by (auto simp: severityOf_def cannotVerify_def blocksUpgrade_def split: sum.splits)
  have "CheckUpgrade L E ins h = (Inr issues, h')" using run(1) target by (simp add: CheckUpgrade_def)
  with run(2,3) warn show ?thesis unfolding sev by blast
qed

lemma dottedNumbers_ne: "dottedNumbers ws = Some [] \<Longrightarrow> ws = []"
  by (cases ws) (auto split: option.splits)

lemma dottedVersion_segments: "dottedVersion s = Some v \<Longrightarrow> 2 \<le> length (ver_Segments v)"
  by (auto simp: dottedVersion_def dest: dottedNumbers_ne split: option.splits list.splits)

text \<open>A database at 1.19 under a target operator 1.23 blocks the upgrade.\<close>

theorem upgrade_blocked_exactly_witness:
  "\<exists>issues h'. CheckUpgrade plainLib (laggingCluster True) [bareInstance] [] = (Inr issues, h') \<and>
     issuesOf UpgradeError issues = [(''db'', ''my-mongo'')] \<and> issuesOf UpgradeWarning issues = []"
proof -
  let ?t = "\<lparr>ver_Original = ''1.23.0'', ver_Segments = [1, 23, 0], ver_Rest = ''''\<rparr> :: version"
  let ?c = "\<lparr>ver_Original = ''1.19.0'', ver_Segments = [1, 19, 0], ver_Rest = ''''\<rparr> :: version"
  have parse: "dottedVersion ''1.23.0'' = Some ?t" "dottedVersion ''1.19.0'' = Some ?c" by code_simp+
  have target: "env_targetOperatorVersion (laggingCluster True) = ''1.23.0''"
    by (simp add: laggingCluster_def emptyCluster_def)
  have L: "lib_newVersion plainLib = dottedVersion" by (simp add: plainLib_def)
  have live: "env_psmdbIn (laggingCluster True) h ns n = Inr (versionedCR ''1.19.0'')" for h ns n
    by (simp add: laggingCluster_def)
  have "blocksUpgrade plainLib ?t (versionedCR ''1.19.0'')"
    by (simp add: blocksUpgrade_def L versionedCR_def parse)
  moreover have "\<not> cannotVerify plainLib (Inr (versionedCR ''1.19.0''))"
    by (simp add: cannotVerify_def L versionedCR_def parse)
  moreover have "\<not> in_Deleting bareInstance" "in_Namespace bareInstance = ''db''" "in_Name bareInstance = ''my-mongo''"
    by (simp_all add: bareInstance_def)
  ultimately show ?thesis
    using upgrade_blocked_exactly [of "laggingCluster True" plainLib ?t "\<lambda>ns n. Inr (versionedCR ''1.19.0'')" "[bareInstance]" "[]"]
    by (simp add: target L parse live dottedVersion_segments versionsHaveSegments_def) metis
qed

end
