(* ===== verification/Credentials.thy ===== *)
theory Credentials
  imports Upgrade
begin

text \<open>
  The users secret (provider.go, \<^verbatim>\<open>ensureUserSecret\<close> to \<^verbatim>\<open>dataSourceInstanceName\<close>): the credentials a new cluster
  starts with are copied from the secret the user supplies or from the source Instance, once, and never overwritten.
  Both ways satisfy one contract (\<open>secret_seeding\<close>).
\<close>

section \<open>Definitions\<close>

definition managedSecret :: "ctx \<Rightarrow> string \<Rightarrow> (string \<rightharpoonup> string) \<Rightarrow> secret" where
  "managedSecret c targetSecretName data =
     \<lparr>sec_Name = targetSecretName, sec_Namespace = c_Namespace c, sec_Data = data, sec_StringData = Map.empty, sec_Annotations = Map.empty,
      sec_Labels = [(''app.kubernetes.io/managed-by'', ''everest''), (''app.kubernetes.io/instance'', c_Name c)]\<rparr>"

definition createSecret :: "env \<Rightarrow> ctx \<Rightarrow> string \<Rightarrow> (string \<rightharpoonup> string) \<Rightarrow> unit act" where
  "createSecret E c targetSecretName data =
     handleIO (writeCall E (CreateSecret (managedSecret c targetSecretName data))) (\<lambda>r. case r of
       Inl e \<Rightarrow> if isAlreadyExists e then returnIO ()
                else failIO (Wrap (''create target secret '' @ quote targetSecretName) e)
     | Inr _ \<Rightarrow> returnIO ())"

definition ensureUserSecret :: "env \<Rightarrow> ctx \<Rightarrow> string \<Rightarrow> string \<Rightarrow> unit act" where
  "ensureUserSecret E c sourceSecretName targetSecretName =
     handleIO (getSecret E targetSecretName) (\<lambda>r. case r of
       Inr _ \<Rightarrow> returnIO ()
     | Inl e \<Rightarrow>
         (if \<not> isNotFound e then failIO (Wrap (''get target user secret '' @ quote targetSecretName) e)
          else bindIO (wrapIO (''get source credentials secret '' @ quote sourceSecretName) (getSecret E sourceSecretName))
                 (\<lambda>source. createSecret E c targetSecretName (sec_Data source))))"

text \<open>\<^verbatim>\<open>SyncPSMDB\<close> calls it only with a data source, so the pointer is a parameter here.\<close>

definition dataSourceInstanceName :: "env \<Rightarrow> dataSource \<Rightarrow> string act" where
  "dataSourceInstanceName E ds =
     (case ds_Type ds of
        DataSourceTypeBackup \<Rightarrow>
          (case ds_Backup ds of
             None \<Rightarrow> returnIO ''''
           | Some name \<Rightarrow>
               (if name = '''' then returnIO ''''
                else handleIO (getBackup E name) (\<lambda>r. case r of
                  Inl e \<Rightarrow> if isNotFound e then returnIO ''''
                           else failIO (Wrap (''get source Backup '' @ quote name @ '' for credential copy'') e)
                | Inr srcBackup \<Rightarrow>
                    (case bkp_InstanceRef srcBackup of
                       None \<Rightarrow> failIO (Errorf (''no source instance exists for backup '' @ quote name @ '' created from import''))
                     | Some ref \<Rightarrow> returnIO ref))))
      | DataSourceTypePointInTime \<Rightarrow>
          (case ds_PointInTime ds of
             None \<Rightarrow> returnIO ''''
           | Some pit \<Rightarrow> (case pit_InstanceRef pit of None \<Rightarrow> returnIO '''' | Some ref \<Rightarrow> returnIO ref))
      | DataSourceTypeOther _ \<Rightarrow> returnIO '''')"

definition secretGone :: "string \<Rightarrow> string" where
  "secretGone sourceSecretName = ''source Instance credentials secret '' @ quote sourceSecretName @
     '' not found; the source Instance may have been deleted''"

definition ensureDataSourceCredentials :: "lib \<Rightarrow> env \<Rightarrow> ctx \<Rightarrow> dataSource \<Rightarrow> string \<Rightarrow> unit act" where
  "ensureDataSourceCredentials L E c ds targetSecretName =
     handleIO (getSecret E targetSecretName) (\<lambda>r. case r of
       Inr _ \<Rightarrow> returnIO ()
     | Inl _ \<Rightarrow>
         bindIO (dataSourceInstanceName E ds) (\<lambda>sourceInstanceName.
           if sourceInstanceName = '''' then returnIO ()
           else let sourceSecretName = ''everest-secrets-'' @ sourceInstanceName
                in handleIO (getSecret E sourceSecretName) (\<lambda>s. case s of
                     Inl e \<Rightarrow>
                       (if isNotFound e
                        then bindIO (setDataSourceStatus \<lparr>dss_Done = True, dss_State = DataSourceStateFailed,
                               dss_Reason = lib_reasonDataSourceFailed L, dss_Message = secretGone sourceSecretName\<rparr>)
                             (\<lambda>_. failIO (DataSourceConfigError (lib_reasonDataSourceFailed L) (secretGone sourceSecretName)))
                        else failIO (Wrap (''get source credentials secret '' @ quote sourceSecretName) e))
                   | Inr source \<Rightarrow> createSecret E c targetSecretName (sec_Data source))))"

section \<open>The contract of seeding a secret\<close>

text \<open>The calls seeding may make: reads, a failed data source, and creating the target with a copy of a secret that was read.\<close>

definition seedCall :: "ctx \<Rightarrow> string \<Rightarrow> call \<Rightarrow> bool" where
  "seedCall c target cl = (case cl of
     CreateSecret s \<Rightarrow> \<exists>data. s = managedSecret c target data
   | SetDataSourceStatus st \<Rightarrow> dss_Done st \<and> dss_State st = DataSourceStateFailed
   | _ \<Rightarrow> isRead cl)"

locale secret_seeding =
  fixes E :: env and c :: ctx and target :: string and sources :: "string set" and seed :: "unit act"
  assumes settled: "env_secret E h target = Inr s \<Longrightarrow> seed h = (Inr (), h @ [Get KSecret target])"
    and single: "seed h = (r, h') \<Longrightarrow> writes h' = writes h \<or>
      (\<exists>e source src h1. env_secret E h target = Inl e \<and> source \<in> sources \<and> env_secret E h1 source = Inr src \<and>
         writes h' = writes h @ [CreateSecret (managedSecret c target (sec_Data src))])"
begin

lemma never_overwrites: "env_secret E h target = Inr s \<Longrightarrow> seed h = (r, h') \<Longrightarrow> r = Inr () \<and> writes h' = writes h"
  by (auto simp: settled writes_def)

lemma writes_at_most_once: "seed h = (r, h') \<Longrightarrow> length (writes h') \<le> Suc (length (writes h))"
  using single by fastforce

text \<open>Once the secret is there, seeding again changes nothing.\<close>

lemma rerun_quiet:
  "seed h = (r, h') \<Longrightarrow> env_secret E h' target = Inr s \<Longrightarrow> seed h' = (r', h'') \<Longrightarrow> r' = Inr () \<and> writes h'' = writes h'"
  using never_overwrites by blast

end

lemma createSecret_writes:
  "createSecret E c target data h = (r, h') \<Longrightarrow>
     h' = h @ [CreateSecret (managedSecret c target data)]"
  by (auto simp: createSecret_def handleIO_def writeCall_def callIO_def returnIO_def failIO_def
      split: option.splits if_splits)

lemma readOnly_dataSourceInstanceName [read_only_intros]: "readOnly (dataSourceInstanceName E ds)"
  unfolding dataSourceInstanceName_def
  by (auto intro!: emits_handle read_only_intros split: dataSourceType.splits option.splits sum.splits)

lemma seedCall_read: "isRead cl \<Longrightarrow> seedCall c target cl"
  by (cases cl) (auto simp: seedCall_def)

lemma emits_seed_read: "readOnly m \<Longrightarrow> emits (seedCall c target) m"
  by (erule emits_mono) (rule seedCall_read)

lemma emits_createSecret: "emits (seedCall c target) (createSecret E c target data)"
  unfolding createSecret_def writeCall_def
  by (intro emits_handle emits_call) (auto simp: seedCall_def split: sum.splits)

lemma emits_seedStatus:
  "dss_Done st \<Longrightarrow> dss_State st = DataSourceStateFailed \<Longrightarrow> emits (seedCall c target) (setDataSourceStatus st)"
  unfolding setDataSourceStatus_def by (rule emits_call) (simp add: seedCall_def)

lemma emits_ensureUserSecret: "emits (seedCall c target) (ensureUserSecret E c src target)"
  unfolding ensureUserSecret_def
  by (auto intro!: emits_handle emits_bind emits_wrap emits_createSecret read_only_intros [THEN emits_seed_read]
      split: sum.splits)

lemma emits_ensureDataSourceCredentials: "emits (seedCall c target) (ensureDataSourceCredentials L E c ds target)"
  unfolding ensureDataSourceCredentials_def Let_def
  by (auto intro!: emits_handle emits_bind emits_createSecret emits_seedStatus read_only_intros [THEN emits_seed_read]
      split: sum.splits)

interpretation user_secret: secret_seeding E c target "{src}" "ensureUserSecret E c src target" for E c target src
proof unfold_locales
  fix h s
  assume "env_secret E h target = Inr s"
  then show "ensureUserSecret E c src target h = (Inr (), h @ [Get KSecret target])"
    by (simp add: ensureUserSecret_def handleIO_def getSecret_def callIO_def returnIO_def)
next
  fix h r h'
  assume run: "ensureUserSecret E c src target h = (r, h')"
  show "writes h' = writes h \<or> (\<exists>e source s h1. env_secret E h target = Inl e \<and> source \<in> {src} \<and> env_secret E h1 source = Inr s \<and>
         writes h' = writes h @ [CreateSecret (managedSecret c target (sec_Data s))])"
  proof (cases "\<exists>e s. env_secret E h target = Inl e \<and> isNotFound e \<and> env_secret E (h @ [Get KSecret target]) src = Inr s")
    case True
    then obtain e s where es: "env_secret E h target = Inl e" "isNotFound e" "env_secret E (h @ [Get KSecret target]) src = Inr s"
      by blast
    then have "createSecret E c target (sec_Data s) (h @ [Get KSecret target, Get KSecret src]) = (r, h')"
      using run by (simp add: ensureUserSecret_def handleIO_def getSecret_def callIO_def bindIO_def wrapIO_def)
    from createSecret_writes [OF this] es show ?thesis by (auto simp: writes_def)
  next
    case False
    with run have "h' = h @ [Get KSecret target] \<or> h' = h @ [Get KSecret target, Get KSecret src]"
      by (cases "env_secret E h target"; cases "env_secret E (h @ [Get KSecret target]) src")
        (auto simp: ensureUserSecret_def handleIO_def getSecret_def callIO_def bindIO_def wrapIO_def returnIO_def failIO_def
          split: if_splits)
    then show ?thesis by (auto simp: writes_def)
  qed
qed

abbreviation sourceSecrets :: "string set" where
  "sourceSecrets \<equiv> {''everest-secrets-'' @ n |n. n \<noteq> ''''}"

lemma ensureDataSourceCredentials_single:
  assumes run: "ensureDataSourceCredentials L E c ds target h = (r, h')"
  shows "writes h' = writes h \<or>
    (\<exists>e source src h1. env_secret E h target = Inl e \<and> source \<in> sourceSecrets \<and> env_secret E h1 source = Inr src \<and>
       writes h' = writes h @ [CreateSecret (managedSecret c target (sec_Data src))])"
proof (cases "env_secret E h target")
  case (Inr s)
  with run show ?thesis
    by (auto simp: ensureDataSourceCredentials_def handleIO_def getSecret_def callIO_def returnIO_def writes_def)
next
  case (Inl e)
  let ?h = "h @ [Get KSecret target]"
  obtain q h1 where name: "dataSourceInstanceName E ds ?h = (q, h1)" by (cases "dataSourceInstanceName E ds ?h")
  have h1: "writes h1 = writes h"
    using readOnly_writes [OF readOnly_dataSourceInstanceName name] by (simp add: writes_def)
  note defs = ensureDataSourceCredentials_def handleIO_def getSecret_def callIO_def Inl
    bindIO_def [of "dataSourceInstanceName E ds"] name
  show ?thesis
  proof (cases "\<exists>n s. q = Inr n \<and> n \<noteq> '''' \<and> env_secret E h1 (''everest-secrets-'' @ n) = Inr s")
    case True
    then obtain n s where n: "q = Inr n" "n \<noteq> ''''" "env_secret E h1 (''everest-secrets-'' @ n) = Inr s" by blast
    then have "createSecret E c target (sec_Data s) (h1 @ [Get KSecret (''everest-secrets-'' @ n)]) = (r, h')"
      using run by (simp add: defs Let_def handleIO_def getSecret_def callIO_def)
    from createSecret_writes [OF this] have "writes h' = writes h @ [CreateSecret (managedSecret c target (sec_Data s))]"
      using h1 by (simp add: writes_def)
    moreover have "''everest-secrets-'' @ n \<in> sourceSecrets" using n(2) by blast
    ultimately show ?thesis using Inl n(3) by blast
  next
    case False
    have "writes h' = writes h1"
    proof (cases q)
      case (Inl e')
      with run show ?thesis by (simp add: defs)
    next
      case q: (Inr n)
      show ?thesis
      proof (cases "n = ''''")
        case True
        with run q show ?thesis by (simp add: defs returnIO_def)
      next
        case n: False
        with False q obtain e2 where "env_secret E h1 (''everest-secrets-'' @ n) = Inl e2"
          by (cases "env_secret E h1 (''everest-secrets-'' @ n)") auto
        with run q n show ?thesis
          by (auto simp: defs Let_def handleIO_def getSecret_def callIO_def setDataSourceStatus_def bindIO_def failIO_def writes_def
              split: if_splits)
      qed
    qed
    with h1 show ?thesis by simp
  qed
qed

interpretation data_source_secret: secret_seeding E c target sourceSecrets "ensureDataSourceCredentials L E c ds target"
  for L E c ds target
proof unfold_locales
  fix h s
  assume "env_secret E h target = Inr s"
  then show "ensureDataSourceCredentials L E c ds target h = (Inr (), h @ [Get KSecret target])"
    by (simp add: ensureDataSourceCredentials_def handleIO_def getSecret_def callIO_def returnIO_def)
qed (rule ensureDataSourceCredentials_single)


lemma ensureUserSecret_copies:
  assumes "ensureUserSecret E c src target h = (r, h')" "env_secret E h target = Inl e" "isNotFound e"
    "env_secret E (h @ [Get KSecret target]) src = Inr s"
  shows "writes h' = writes h @ [CreateSecret (managedSecret c target (sec_Data s))]"
proof -
  have "createSecret E c target (sec_Data s) (h @ [Get KSecret target, Get KSecret src]) = (r, h')"
    using assms by (simp add: ensureUserSecret_def handleIO_def getSecret_def callIO_def bindIO_def wrapIO_def)
  from createSecret_writes [OF this] show ?thesis by (simp add: writes_def)
qed

lemma managedSecret_copy:
  "sec_Name (managedSecret c target data) = target" "sec_Namespace (managedSecret c target data) = c_Namespace c"
  "sec_Data (managedSecret c target data) = data"
  by (simp_all add: managedSecret_def)

section \<open>Properties\<close>

text \<open>C27. Credentials are seeded once and verbatim: an existing users secret is never touched by either way of seeding it; when
  there is none, at most one secret is created, under the target name in the Instance's namespace and with exactly the data of the
  user's secret, respectively of a source Instance's users secret; and the user's secret is indeed copied when it is there.\<close>

theorem credentials_seeded_once:
  assumes user: "ensureUserSecret E c src target h = (r, h')"
    and source: "ensureDataSourceCredentials L E c ds target h = (r2, h2)"
  shows "(\<forall>s. env_secret E h target = Inr s \<longrightarrow> r = Inr () \<and> writes h' = writes h \<and> r2 = Inr () \<and> writes h2 = writes h) \<and>
    (writes h' = writes h \<or> (\<exists>s h1 new. env_secret E h1 src = Inr s \<and> writes h' = writes h @ [CreateSecret new] \<and>
       sec_Name new = target \<and> sec_Namespace new = c_Namespace c \<and> sec_Data new = sec_Data s)) \<and>
    (writes h2 = writes h \<or> (\<exists>n s h1 new. n \<noteq> '''' \<and> env_secret E h1 (''everest-secrets-'' @ n) = Inr s \<and>
       writes h2 = writes h @ [CreateSecret new] \<and>
       sec_Name new = target \<and> sec_Namespace new = c_Namespace c \<and> sec_Data new = sec_Data s)) \<and>
    (\<forall>e s. env_secret E h target = Inl e \<longrightarrow> isNotFound e \<longrightarrow> env_secret E (h @ [Get KSecret target]) src = Inr s \<longrightarrow>
       (\<exists>new. writes h' = writes h @ [CreateSecret new] \<and>
          sec_Name new = target \<and> sec_Namespace new = c_Namespace c \<and> sec_Data new = sec_Data s))"
proof (intro conjI allI impI)
  fix s
  assume "env_secret E h target = Inr s"
  from user_secret.never_overwrites [OF this user] data_source_secret.never_overwrites [OF this source]
  show "r = Inr ()" "writes h' = writes h" "r2 = Inr ()" "writes h2 = writes h" by simp_all
next
  show "writes h' = writes h \<or> (\<exists>s h1 new. env_secret E h1 src = Inr s \<and> writes h' = writes h @ [CreateSecret new] \<and>
      sec_Name new = target \<and> sec_Namespace new = c_Namespace c \<and> sec_Data new = sec_Data s)"
    using user_secret.single [OF user] managedSecret_copy by blast
  show "writes h2 = writes h \<or> (\<exists>n s h1 new. n \<noteq> '''' \<and> env_secret E h1 (''everest-secrets-'' @ n) = Inr s \<and>
      writes h2 = writes h @ [CreateSecret new] \<and>
      sec_Name new = target \<and> sec_Namespace new = c_Namespace c \<and> sec_Data new = sec_Data s)"
    using data_source_secret.single [OF source] managedSecret_copy by blast
next
  fix e s
  assume "env_secret E h target = Inl e" "isNotFound e" "env_secret E (h @ [Get KSecret target]) src = Inr s"
  with ensureUserSecret_copies [OF user]
  show "\<exists>new. writes h' = writes h @ [CreateSecret new] \<and>
      sec_Name new = target \<and> sec_Namespace new = c_Namespace c \<and> sec_Data new = sec_Data s"
    using managedSecret_copy by blast
qed

definition suppliedSecret :: secret where
  "suppliedSecret = \<lparr>sec_Name = ''mine'', sec_Namespace = ''db'', sec_Data = [''MONGODB_BACKUP_USER'' \<mapsto> ''b''], sec_StringData = Map.empty,
     sec_Annotations = Map.empty, sec_Labels = []\<rparr>"

definition seedingCluster :: env where
  "seedingCluster = emptyCluster\<lparr>env_secret := \<lambda>h n. if n = ''mine'' then Inr suppliedSecret else Inl (APINotFound n)\<rparr>"

theorem credentials_seeded_once_witness:
  "\<exists>r h'. ensureUserSecret seedingCluster bareCtx ''mine'' ''users'' [] = (r, h') \<and>
     (\<exists>new. writes h' = [CreateSecret new] \<and> sec_Name new = ''users'' \<and> sec_Namespace new = c_Namespace bareCtx \<and>
        sec_Data new = [''MONGODB_BACKUP_USER'' \<mapsto> ''b''])"
proof -
  obtain r h' where user: "ensureUserSecret seedingCluster bareCtx ''mine'' ''users'' [] = (r, h')"
    by (cases "ensureUserSecret seedingCluster bareCtx ''mine'' ''users'' []")
  let ?ds = "\<lparr>ds_Type = DataSourceTypeBackup, ds_Backup = None, ds_PointInTime = None\<rparr> :: dataSource"
  obtain r2 h2 where source: "ensureDataSourceCredentials plainLib seedingCluster bareCtx ?ds ''users'' [] = (r2, h2)"
    by (cases "ensureDataSourceCredentials plainLib seedingCluster bareCtx ?ds ''users'' []")
  have "env_secret seedingCluster [] ''users'' = Inl (APINotFound ''users'')"
    "env_secret seedingCluster ([] @ [Get KSecret ''users'']) ''mine'' = Inr suppliedSecret"
    by (simp_all add: seedingCluster_def)
  moreover have "isNotFound (APINotFound ''users'')" by simp
  ultimately have "\<exists>new. writes h' = writes [] @ [CreateSecret new] \<and> sec_Name new = ''users'' \<and>
      sec_Namespace new = c_Namespace bareCtx \<and> sec_Data new = sec_Data suppliedSecret"
    using credentials_seeded_once [OF user source] by blast
  with user show ?thesis by (simp add: writes_def suppliedSecret_def)
qed

end
