(* ===== verification/Cluster_Sync.thy ===== *)
theory Cluster_Sync
  imports Credentials
begin

text \<open>
  \<^verbatim>\<open>SyncPSMDB\<close> (provider.go): the whole sync of an Instance, composed of the stages of the other theories in the code's
  order, then the gate in front of the initial restore. The CR it builds is a value; the calls it makes are in the
  history. \<open>buildPSMDB\<close> is the part of \<^verbatim>\<open>SyncPSMDB\<close> up to \<^verbatim>\<open>c.Apply\<close>.
\<close>

section \<open>The CR before it is configured\<close>

definition defaultSpec :: "lib \<Rightarrow> psmdbSpec" where
  "defaultSpec L = zeroPSMDBSpec\<lparr>
     ps_UpdateStrategy := lib_smartUpdateStrategy L,
     ps_UpgradeOptions := \<lparr>up_Apply = ''disabled'', up_Schedule = ''0 4 * * *'', up_SetFCV = True\<rparr>,
     ps_PMM := zeroPMM,
     ps_Replsets :=
       [\<lparr>rs_Name = ''rs0'', rs_Configuration = psmdbDefaultConfigurationTemplate,
         rs_MultiAZ = zeroMultiAZ\<lparr>az_PDBMaxUnavailable := Some maxUnavailable,
           az_Resources := \<lparr>rr_Limits = Some Map.empty, rr_Requests = None\<rparr>\<rparr>,
         rs_Size = 3,
         rs_VolumeSpec = Some (Some \<lparr>pvcs_Requests = [ResourceStorage \<mapsto> qGi 10], pvcs_StorageClassName = None\<rparr>),
         rs_ExposeEnabled = False,
         rs_Expose = \<lparr>ex_ExposeType = '''', ex_ServiceAnnotations = Map.empty, ex_SourceRanges = []\<rparr>,
         rs_Hidden = zeroHidden\<rparr>],
     ps_Sharding := zeroSharding,
     ps_VolumeExpansionEnabled := True\<rparr>"

definition syncFinalizers :: "string list" where
  "syncFinalizers = [''percona.com/delete-psmdb-pods-in-order'', ''percona.com/delete-psmdb-pvc'']"

definition newPSMDB :: "lib \<Rightarrow> ctx \<Rightarrow> psmdb" where
  "newPSMDB L c = zeroPSMDB\<lparr>cr_Name := c_Name c, cr_Namespace := c_Namespace c,
     cr_Finalizers := syncFinalizers, cr_Spec := defaultSpec L\<rparr>"

definition unsafeFlagsOf :: "ctx \<Rightarrow> unsafeFlags" where
  "unsafeFlagsOf c =
     (let engineReplicas = comp_Replicas (compAt (c_Components c) ComponentEngine);
          proxyReplicas = comp_Replicas (compAt (c_Components c) ComponentProxy)
      in \<lparr>uf_TLS = False,
          uf_ReplsetSize = (case engineReplicas of None \<Rightarrow> False | Some n \<Rightarrow> i32 n < 3),
          uf_MongosSize = (case proxyReplicas of None \<Rightarrow> False | Some n \<Rightarrow> i32 n < 3),
          uf_TerminationGracePeriod = False, uf_BackupIfUnhealthy = False\<rparr>)"

definition engineImage :: "lib \<Rightarrow> env \<Rightarrow> ctx \<Rightarrow> string act" where
  "engineImage L E c =
     (let engine = compAt (c_Components c) ComponentEngine
      in if comp_Image engine \<noteq> '''' then returnIO (comp_Image engine)
         else bindIO (readProviderSpec E) (\<lambda>spec.
           let img = (if comp_Version engine \<noteq> ''''
                      then lib_getImageForVersion L spec ComponentEngine (comp_Version engine) else '''')
           in returnIO (if img = '''' then lib_getDefaultImageForComponent L spec ComponentEngine else img)))"

definition startPSMDB :: "lib \<Rightarrow> env \<Rightarrow> ctx \<Rightarrow> psmdb act" where
  "startPSMDB L E c =
     bindIO (convergedCRVersion L E c) (\<lambda>crVersion.
     bindIO (engineImage L E c) (\<lambda>img.
       let cr = newPSMDB L c
       in returnIO (cr\<lparr>cr_Spec := (cr_Spec cr)\<lparr>ps_CRVersion := crVersion, ps_Unsafe := unsafeFlagsOf c,
            ps_Image := img, ps_ImagePullPolicy := ''IfNotPresent''\<rparr>\<rparr>)))"

definition configureMembers :: "lib \<Rightarrow> env \<Rightarrow> ctx \<Rightarrow> psmdb \<Rightarrow> psmdb act" where
  "configureMembers L E c cr =
     bindIO (configureReplsets L E c) (\<lambda>rss.
       let cr1 = cr\<lparr>cr_Spec := (cr_Spec cr)\<lparr>ps_Replsets := rss\<rparr>\<rparr>
       in if isSharded (c_Instance c)
          then bindIO (configureConfigServerReplset L E c) (\<lambda>configsvr.
               returnIO (cr1\<lparr>cr_Spec := (cr_Spec cr1)\<lparr>ps_Sharding := (ps_Sharding (cr_Spec cr1))\<lparr>
                 sh_Enabled := True, sh_Configsvr := configsvr, sh_Mongos := Some (configureMongos L c)\<rparr>\<rparr>\<rparr>))
          else returnIO cr1)"

definition configureBackups :: "lib \<Rightarrow> env \<Rightarrow> ctx \<Rightarrow> psmdb \<Rightarrow> psmdb act" where
  "configureBackups L E c cr =
     bindIO (buildBackupSpec L E c) (\<lambda>bs.
     returnIO (preferHiddenForBackups L (cr\<lparr>cr_Spec := (cr_Spec cr)\<lparr>ps_Backup := bs\<rparr>\<rparr>)))"

definition usersSecretOf :: "string \<Rightarrow> string" where
  "usersSecretOf name = ''everest-secrets-'' @ name"

definition secureClients :: "lib \<Rightarrow> env \<Rightarrow> ctx \<Rightarrow> tlsParameters \<Rightarrow> psmdb \<Rightarrow> psmdb act" where
  "secureClients L E c tls cr =
     bindIO (keepCertificates E c tls) (\<lambda>keep.
       let cr1 = configureTLS cr tls keep;
           cr2 = cr1\<lparr>cr_Spec := (cr_Spec cr1)\<lparr>ps_Unsafe := (ps_Unsafe (cr_Spec cr1))\<lparr>
                   uf_TLS := \<not> tlsEnabled (tp_Mode tls)\<rparr>\<rparr>\<rparr>
       in wrapIO ''configure TLS'' (acceptClientsWithoutCertificates L E c tls cr2))"

definition seedCredentials :: "lib \<Rightarrow> env \<Rightarrow> ctx \<Rightarrow> unit act" where
  "seedCredentials L E c =
     (case in_UserSecretRef (c_Instance c) of
        Some ref \<Rightarrow> ensureUserSecret E c ref (usersSecretOf (c_Name c))
      | None \<Rightarrow> (case in_DataSource (c_Instance c) of
          Some ds \<Rightarrow> ensureDataSourceCredentials L E c ds (usersSecretOf (c_Name c))
        | None \<Rightarrow> returnIO ()))"

definition setSecrets :: "ctx \<Rightarrow> tlsParameters \<Rightarrow> psmdb \<Rightarrow> psmdb" where
  "setSecrets c tls cr = cr\<lparr>cr_Spec := (cr_Spec cr)\<lparr>ps_Secrets := Some
     \<lparr>ss_Users = usersSecretOf (c_Name c), ss_EncryptionKey = c_Name c @ ''-mongodb-encryption-key'',
      ss_SSL = tp_CertificateSecretName tls, ss_SSLInternal = internalCertificateSecretName c tls\<rparr>\<rparr>\<rparr>"

section \<open>Building and applying the CR\<close>

text \<open>The stages before the users secret is touched; they change nothing in the cluster but stale hidden volumes.\<close>

definition preparePSMDB :: "lib \<Rightarrow> env \<Rightarrow> ctx \<Rightarrow> (psmdb \<times> tlsParameters) act" where
  "preparePSMDB L E c =
     bindIO (startPSMDB L E c) (\<lambda>cr0.
     bindIO (configureMembers L E c cr0) (\<lambda>cr1.
     bindIO (applyScheduling L c cr1) (\<lambda>cr2.
     bindIO (labelPods L c cr2) (\<lambda>cr3.
     bindIO (configureBackups L E c cr3) (\<lambda>cr4.
     bindIO (liftIO (tlsParametersOf L c)) (\<lambda>tls.
     bindIO (secureClients L E c tls cr4) (\<lambda>cr5.
     bindIO (wrapIO ''configure metrics exporter''
       (configureMetricsExporter L E c (usersSecretOf (c_Name c)) cr5)) (\<lambda>cr6.
     returnIO (mirrorReplsetOntoHidden cr6, tls)))))))))"

definition buildPSMDB :: "lib \<Rightarrow> env \<Rightarrow> ctx \<Rightarrow> psmdb act" where
  "buildPSMDB L E c =
     bindIO (preparePSMDB L E c) (\<lambda>(cr, tls).
     bindIO (seedCredentials L E c) (\<lambda>_.
     bindIO (applyPMMBindings L E c (usersSecretOf (c_Name c)) cr) (\<lambda>cr'.
     returnIO (setSecrets c tls cr'))))"

definition unrecoverableAuthError :: "psmdb \<Rightarrow> string" where
  "unrecoverableAuthError cr =
     (if pst_State (cr_Status cr) = AppStateError \<and> contains (pst_Message (cr_Status cr)) ''AuthenticationFailed''
      then pst_Message (cr_Status cr)
      else (case List.find (\<lambda>cond. cond_True cond \<and> cond_Type cond = AppStateError \<and>
                   contains (cond_Message cond) ''AuthenticationFailed'') (pst_Conditions (cr_Status cr)) of
              None \<Rightarrow> '''' | Some cond \<Rightarrow> cond_Message cond))"

text \<open>The gate in front of the initial restore. \<open>True\<close> says that the sync goes on to its last check, \<open>False\<close> that it
  returns nil here.\<close>

definition seedDataSource :: "lib \<Rightarrow> env \<Rightarrow> ctx \<Rightarrow> bool act" where
  "seedDataSource L E c =
     (if in_DataSource (c_Instance c) = None then returnIO True
      else handleIO (getPSMDB E (c_Name c)) (\<lambda>r. case r of
        Inl _ \<Rightarrow> returnIO False
      | Inr current \<Rightarrow>
          (if unrecoverableAuthError current \<noteq> ''''
           then bindIO (setDataSourceStatus \<lparr>dss_Done = True, dss_State = DataSourceStateFailed,
                  dss_Reason = lib_reasonUserSecretMismatch L,
                  dss_Message = ''restore failed: supplied credentials do not match the users in the source backup: '' @
                    unrecoverableAuthError current\<rparr>) (\<lambda>_. returnIO False)
           else if pst_State (cr_Status current) \<noteq> AppStateReady \<or> pst_BackupVersion (cr_Status current) = ''''
           then bindIO (setDataSourceStatus \<lparr>dss_Done = False, dss_State = DataSourceStateWaiting,
                  dss_Reason = lib_reasonWaitingForCluster L,
                  dss_Message = ''waiting for PerconaServerMongoDB to be Ready and publish a BackupVersion''\<rparr>)
                (\<lambda>_. returnIO False)
           else bindIO (wrapIO ''reconcile data source'' (writeCall E ReconcileDataSource)) (\<lambda>_. returnIO True))))"

definition SyncPSMDB :: "lib \<Rightarrow> env \<Rightarrow> ctx \<Rightarrow> unit act" where
  "SyncPSMDB L E c =
     bindIO (buildPSMDB L E c) (\<lambda>cr.
     bindIO (writeCall E (ApplyPSMDB cr)) (\<lambda>_.
     bindIO (deleteUnusedHiddenVolumes L E c) (\<lambda>_.
     bindIO (seedDataSource L E c) (\<lambda>more.
       if more \<and> hiddenStartPending c cr
       then failIO (WaitFor ''hidden members start once the volumes of earlier ones are deleted'')
       else returnIO ()))))"

definition CleanupPSMDB :: "env \<Rightarrow> ctx \<Rightarrow> unit act" where
  "CleanupPSMDB E c = writeCall E (DeleteObject KPSMDB (c_Name c))"


section \<open>What a stage leaves alone\<close>

text \<open>The part of the CR that the decorating stages do not look at: its identity, versions, flags and TLS mode.\<close>

definition frame ::
  "psmdb \<Rightarrow> string \<times> string \<times> string list \<times> string \<times> string \<times> unsafeFlags \<times> tlsSpec option \<times> backupSpec" where
  "frame cr = (cr_Name cr, cr_Namespace cr, cr_Finalizers cr, ps_CRVersion (cr_Spec cr), ps_Image (cr_Spec cr),
     ps_Unsafe (cr_Spec cr), ps_TLS (cr_Spec cr), ps_Backup (cr_Spec cr))"

locale frame_stage = spec_stage +
  assumes keeps_frame: "stage cr h = (Inr cr', h') \<Longrightarrow> frame cr' = frame cr"
begin

lemma keeps_tls: "stage cr h = (Inr cr', h') \<Longrightarrow> ps_TLS (cr_Spec cr') = ps_TLS (cr_Spec cr)"
  by (drule keeps_frame) (simp add: frame_def)

lemma keeps_both: "stage cr h = (Inr cr', h') \<Longrightarrow> members cr' = members cr \<and> frame cr' = frame cr"
  by (simp add: keeps_members keeps_frame)

end

lemma frame_updates [simp]:
  "frame (setReplsets f cr) = frame cr" "frame (setSharding cfg mos cr) = frame cr" "frame (setPMM p cr) = frame cr"
  "frame (setSecrets c tls cr) = frame cr" "frame (mirrorReplsetOntoHidden cr) = frame cr"
  "frame (cr\<lparr>cr_Spec := (cr_Spec cr)\<lparr>ps_Replsets := rss\<rparr>\<rparr>) = frame cr"
  by (simp_all add: frame_def setReplsets_def setSharding_def setPMM_def setSecrets_def mirrorReplsetOntoHidden_def)

interpretation scheduling_frame: frame_stage "applyScheduling L c" for L c
proof unfold_locales
  fix cr h cr' h'
  assume "applyScheduling L c cr h = (Inr cr', h')"
  then show "frame cr' = frame cr"
    by (auto simp: applyScheduling_def Let_def io_simps split: if_splits)
qed

interpretation labelling_frame: frame_stage "labelPods L c" for L c
proof unfold_locales
  fix cr h cr' h'
  assume "labelPods L c cr h = (Inr cr', h')"
  then show "frame cr' = frame cr"
    by (auto simp: labelPods_def Let_def io_simps split: if_splits)
qed

lemma makeCertificatesOptional_frame: "makeCertificatesOptional L cr h = (Inr cr', h') \<Longrightarrow> frame cr' = frame cr"
  by (auto simp: makeCertificatesOptional_def Let_def io_simps split: if_splits)

interpretation tls_clients_frame: frame_stage "acceptClientsWithoutCertificates L E c tls" for L E c tls
proof unfold_locales
  fix cr h cr' h'
  assume "acceptClientsWithoutCertificates L E c tls cr h = (Inr cr', h')"
  then show "frame cr' = frame cr"
    by (auto simp: acceptClientsWithoutCertificates_def handleIO_def io_simps call_defs
        dest: makeCertificatesOptional_frame split: if_splits sum.splits prod.splits)
qed

interpretation metrics_exporter_frame: frame_stage "configureMetricsExporter L E c n" for L E c n
proof unfold_locales
  fix cr h cr' h'
  assume "configureMetricsExporter L E c n cr h = (Inr cr', h')"
  then show "frame cr' = frame cr"
    by (auto simp: configureMetricsExporter_def Let_def io_simps split: if_splits)
qed

lemma renderBindings_frame: "renderBindings L E c n live rbs cr h = (Inr cr', h') \<Longrightarrow> frame cr' = frame cr"
proof (induction rbs arbitrary: cr h)
  case Nil
  then show ?case by (simp add: io_simps)
next
  case (Cons rb rbs)
  show ?case using renderBindings_round [OF Cons.prems] Cons.IH by fastforce
qed

interpretation pmm_bindings_frame: frame_stage "applyPMMBindings L E c n" for L E c n
proof unfold_locales
  fix cr h cr' h'
  assume "applyPMMBindings L E c n cr h = (Inr cr', h')"
  then show "frame cr' = frame cr"
    by (auto simp: applyPMMBindings_def Let_def io_simps dest: renderBindings_frame split: if_splits)
qed

lemma members_keeping [simp]:
  "members (setSecrets c tls cr) = members cr" "members (configureTLS cr tls keep) = members cr"
  "members (preferHiddenForBackups L cr) = members cr" "members (cr\<lparr>cr_Spec := (cr_Spec cr)\<lparr>ps_Backup := bs\<rparr>\<rparr>) = members cr"
  "members (cr\<lparr>cr_Spec := (cr_Spec cr)\<lparr>ps_Unsafe := u\<rparr>\<rparr>) = members cr"
  by (simp_all add: members_def setSecrets_def configureTLS_def preferHiddenForBackups_def Let_def split: option.splits)

lemma rsShape_mirrorOne [simp]: "rsShape (mirrorOne rs) = rsShape rs"
  by (simp add: mirrorOne_def rsShape_def)

lemma members_mirror [simp]: "members (mirrorReplsetOntoHidden cr) = members cr"
  by (simp add: members_def mirrorReplsetOntoHidden_def Let_def)

section \<open>The members of the applied CR\<close>

definition engineSize :: "ctx \<Rightarrow> int32" where
  "engineSize c = (case comp_Replicas (compAt (c_Components c) ComponentEngine) of None \<Rightarrow> 3 | Some n \<Rightarrow> n)"

text \<open>The members the Instance asks for: the right shards, all of the engine's size, and, in the sharded topology, config
  servers and routers.\<close>

definition membersWanted :: "lib \<Rightarrow> ctx \<Rightarrow> psmdb \<Rightarrow> bool" where
  "membersWanted L c cr \<longleftrightarrow>
     map rs_Name (ps_Replsets (cr_Spec cr)) =
       map rsName [0..<if isSharded (c_Instance c) then numShards L (c_Instance c) else 1] \<and>
     (\<forall>rs \<in> set (ps_Replsets (cr_Spec cr)). rs_Size rs = engineSize c) \<and>
     sh_Enabled (ps_Sharding (cr_Spec cr)) = isSharded (c_Instance c) \<and> shardingComplete cr"

lemma membersWanted_cong:
  assumes "members cr = members cr'"
  shows "membersWanted L c cr = membersWanted L c cr'"
proof -
  have shapes: "map rsShape (ps_Replsets (cr_Spec cr)) = map rsShape (ps_Replsets (cr_Spec cr'))"
    "sh_Enabled (ps_Sharding (cr_Spec cr)) = sh_Enabled (ps_Sharding (cr_Spec cr'))"
    using assms by (simp_all add: members_def Let_def)
  have names: "map rs_Name rss = map fst (map rsShape rss)"
    and sizes: "(\<forall>rs \<in> set rss. rs_Size rs = k) = (\<forall>s \<in> set (map rsShape rss). fst (snd s) = k)" for rss k
    by (auto simp: rsShape_def)
  show ?thesis
    unfolding membersWanted_def names sizes shapes shardingComplete_members [OF assms] ..
qed

lemma configureMembers_wanted:
  assumes run: "configureMembers L E c cr h = (Inr cr', h')" and plain: "ps_Sharding (cr_Spec cr) = zeroSharding"
  shows "membersWanted L c cr' \<and> frame cr' = frame cr"
proof -
  obtain rss h1 where rss: "configureReplsets L E c h = (Inr rss, h1)"
    using run by (auto simp: configureMembers_def io_simps)
  have sizes: "\<forall>rs \<in> set rss. rs_Size rs = engineSize c"
    using rss by (auto simp: configureReplsets_def Let_def io_simps engineSize_def dest!: configureHidden_result split: if_splits)
  show ?thesis
  proof (cases "isSharded (c_Instance c)")
    case True
    then obtain cfg where "ps_Replsets (cr_Spec cr') = rss"
      "ps_Sharding (cr_Spec cr') = zeroSharding\<lparr>sh_Enabled := True, sh_Configsvr := Some cfg, sh_Mongos := Some (configureMongos L c)\<rparr>"
      "frame cr' = frame cr"
      using run rss plain
      by (auto simp: configureMembers_def bindIO_def [of "configureReplsets L E c"] Let_def io_simps
          configureConfigServerReplset_def frame_def)
    with True sizes configureReplsets_ok [OF rss] show ?thesis
      by (simp add: membersWanted_def shardingComplete_def)
  next
    case False
    then have "ps_Replsets (cr_Spec cr') = rss" "ps_Sharding (cr_Spec cr') = zeroSharding" "frame cr' = frame cr"
      using run rss plain
      by (auto simp: configureMembers_def bindIO_def Let_def returnIO_def frame_def)
    with False sizes configureReplsets_ok [OF rss] show ?thesis
      by (simp add: membersWanted_def shardingComplete_def zeroSharding_def)
  qed
qed


section \<open>The applied CR\<close>

text \<open>Whose CR it is, at which version and with which sizes allowed, the part no stage after the start changes.\<close>

definition identity :: "psmdb \<Rightarrow> string \<times> string \<times> string list \<times> string \<times> bool \<times> bool" where
  "identity cr = (cr_Name cr, cr_Namespace cr, cr_Finalizers cr, ps_CRVersion (cr_Spec cr),
     uf_ReplsetSize (ps_Unsafe (cr_Spec cr)), uf_MongosSize (ps_Unsafe (cr_Spec cr)))"

abbreviation startIdentity :: "ctx \<Rightarrow> string \<Rightarrow> string \<times> string \<times> string list \<times> string \<times> bool \<times> bool" where
  "startIdentity c v \<equiv> (c_Name c, c_Namespace c, syncFinalizers, v, uf_ReplsetSize (unsafeFlagsOf c), uf_MongosSize (unsafeFlagsOf c))"

text \<open>The members of the CR are those that \<^verbatim>\<open>configureReplsets\<close>, \<^verbatim>\<open>configureConfigServerReplset\<close> and \<^verbatim>\<open>configureMongos\<close> made.\<close>

definition membersConfigured :: "lib \<Rightarrow> env \<Rightarrow> ctx \<Rightarrow> psmdb \<Rightarrow> bool" where
  "membersConfigured L E c cr \<longleftrightarrow> (\<exists>cr0 h0 cr1 h1. configureMembers L E c cr0 h0 = (Inr cr1, h1) \<and>
     ps_Sharding (cr_Spec cr0) = zeroSharding \<and> members cr = members cr1)"

lemma frame_identity: "frame cr' = frame cr \<Longrightarrow> identity cr' = identity cr"
  by (simp add: frame_def identity_def)

lemma startPSMDB_ok:
  assumes "startPSMDB L E c h = (Inr cr, h')"
  shows "ps_Sharding (cr_Spec cr) = zeroSharding \<and>
    (\<exists>v h1. convergedCRVersion L E c h = (Inr v, h1) \<and> identity cr = startIdentity c v)"
  using assms
  by (auto simp: startPSMDB_def io_simps newPSMDB_def defaultSpec_def identity_def)

lemma identity_keeping [simp]:
  "identity (preferHiddenForBackups L cr) = identity cr" "identity (cr\<lparr>cr_Spec := (cr_Spec cr)\<lparr>ps_Backup := bs\<rparr>\<rparr>) = identity cr"
  by (simp_all add: identity_def preferHiddenForBackups_def Let_def split: option.splits)

lemma configureBackups_ok:
  assumes "configureBackups L E c cr h = (Inr cr', h')"
  shows "members cr' = members cr \<and> identity cr' = identity cr"
  using assms by (auto simp: configureBackups_def io_simps)

lemma configureTLS_independent: "ps_TLS (cr_Spec (configureTLS cr tls keep)) = ps_TLS (cr_Spec (configureTLS cr2 tls keep))"
  by (simp add: configureTLS_def Let_def)

text \<open>The Instance's TLS settings, with the certificates kept as the cluster's secret says.\<close>

definition tlsAsAsked :: "env \<Rightarrow> ctx \<Rightarrow> tlsParameters \<Rightarrow> psmdb \<Rightarrow> bool" where
  "tlsAsAsked E c tls cr \<longleftrightarrow>
     (\<exists>t keep h1 h2. keepCertificates E c tls h1 = (Inr keep, h2) \<and> ps_TLS (cr_Spec cr) = Some t \<and> tlsSpecFits tls keep t) \<and>
     uf_TLS (ps_Unsafe (cr_Spec cr)) = (\<not> tlsEnabled (tp_Mode tls))"

lemma tlsAsAsked_frame: "frame cr' = frame cr \<Longrightarrow> tlsAsAsked E c tls cr' = tlsAsAsked E c tls cr"
  by (simp add: tlsAsAsked_def frame_def)

lemma secureClients_ok:
  assumes "secureClients L E c tls cr h = (Inr cr', h')"
  shows "members cr' = members cr \<and> identity cr' = identity cr \<and> tlsAsAsked E c tls cr'"
proof -
  obtain keep h1 where kept_certificates: "keepCertificates E c tls h = (Inr keep, h1)" and run: "acceptClientsWithoutCertificates L E c tls
      ((configureTLS cr tls keep)\<lparr>cr_Spec := (cr_Spec (configureTLS cr tls keep))\<lparr>ps_Unsafe :=
         (ps_Unsafe (cr_Spec (configureTLS cr tls keep)))\<lparr>uf_TLS := \<not> tlsEnabled (tp_Mode tls)\<rparr>\<rparr>\<rparr>) h1 = (Inr cr', h')"
    (is "acceptClientsWithoutCertificates L E c tls ?cr h1 = _")
    using assms by (auto simp: secureClients_def io_simps Let_def)
  have kept: "members cr' = members ?cr" "frame cr' = frame ?cr" using tls_clients_frame.keeps_both [OF run] by blast+
  have "\<exists>t. ps_TLS (cr_Spec ?cr) = Some t \<and> tlsSpecFits tls keep t" using configureTLS_fits [of cr tls keep] by simp
  then have "tlsAsAsked E c tls ?cr" unfolding tlsAsAsked_def using kept_certificates by auto
  moreover have "identity ?cr = identity cr" by (simp add: identity_def configureTLS_def Let_def)
  moreover have "members ?cr = members cr" by simp
  ultimately show ?thesis
    using kept(1) frame_identity [OF kept(2)] tlsAsAsked_frame [OF kept(2)] by presburger
qed

lemma preparePSMDB_stages:
  assumes "preparePSMDB L E c h = (Inr (cr, tls), h')"
  obtains cr0 cr1 cr2 cr3 cr4 cr5 cr6 h0 h1 h2 h3 h4 h5 where
    "startPSMDB L E c h = (Inr cr0, h0)" "configureMembers L E c cr0 h0 = (Inr cr1, h1)"
    "applyScheduling L c cr1 h1 = (Inr cr2, h2)" "labelPods L c cr2 h2 = (Inr cr3, h3)"
    "configureBackups L E c cr3 h3 = (Inr cr4, h4)" "tlsParametersOf L c = Inr tls"
    "secureClients L E c tls cr4 h4 = (Inr cr5, h5)"
    "configureMetricsExporter L E c (usersSecretOf (c_Name c)) cr5 h5 = (Inr cr6, h')"
    "cr = mirrorReplsetOntoHidden cr6"
  using assms by (auto simp: preparePSMDB_def io_simps)

lemma preparePSMDB_ok:
  assumes run: "preparePSMDB L E c h = (Inr (cr, tls), h')"
  shows "tlsParametersOf L c = Inr tls \<and> membersWanted L c cr \<and> membersConfigured L E c cr \<and> tlsAsAsked E c tls cr \<and>
    (\<exists>v h1. convergedCRVersion L E c h = (Inr v, h1) \<and> identity cr = startIdentity c v)"
proof -
  obtain cr0 cr1 cr2 cr3 cr4 cr5 cr6 h0 h1 h2 h3 h4 h5 where
    start: "startPSMDB L E c h = (Inr cr0, h0)" and mem: "configureMembers L E c cr0 h0 = (Inr cr1, h1)" and
    sch: "applyScheduling L c cr1 h1 = (Inr cr2, h2)" and lab: "labelPods L c cr2 h2 = (Inr cr3, h3)" and
    bak: "configureBackups L E c cr3 h3 = (Inr cr4, h4)" and tls: "tlsParametersOf L c = Inr tls" and
    sec: "secureClients L E c tls cr4 h4 = (Inr cr5, h5)" and
    met: "configureMetricsExporter L E c (usersSecretOf (c_Name c)) cr5 h5 = (Inr cr6, h')" and
    cr: "cr = mirrorReplsetOntoHidden cr6"
    using run by (rule preparePSMDB_stages)
  have kept: "members cr = members cr1"
    using cr metrics_exporter.keeps_members [OF met] secureClients_ok [OF sec] configureBackups_ok [OF bak]
      labelling.keeps_members [OF lab] scheduling.keeps_members [OF sch] by simp
  moreover have "membersConfigured L E c cr"
    unfolding membersConfigured_def using mem startPSMDB_ok [OF start] kept by blast
  moreover have "membersWanted L c cr1" "frame cr1 = frame cr0"
    using configureMembers_wanted [OF mem] startPSMDB_ok [OF start] by simp_all
  moreover have "identity cr = identity cr0"
    using cr metrics_exporter_frame.keeps_frame [OF met] secureClients_ok [OF sec] configureBackups_ok [OF bak]
      labelling_frame.keeps_frame [OF lab] scheduling_frame.keeps_frame [OF sch] \<open>frame cr1 = frame cr0\<close>
    by (metis frame_identity frame_updates(5))
  moreover have "tlsAsAsked E c tls cr"
    using cr metrics_exporter_frame.keeps_frame [OF met] secureClients_ok [OF sec] tlsAsAsked_frame
    by (metis frame_updates(5))
  ultimately show ?thesis
    using tls startPSMDB_ok [OF start] membersWanted_cong [of cr cr1] by simp
qed

text \<open>The CR that a sync applies is the Instance's.\<close>

definition appliedFor :: "lib \<Rightarrow> env \<Rightarrow> ctx \<Rightarrow> history \<Rightarrow> psmdb \<Rightarrow> bool" where
  "appliedFor L E c h cr \<longleftrightarrow>
     cr_Name cr = c_Name c \<and> cr_Namespace cr = c_Namespace c \<and>
     cr_Finalizers cr = [''percona.com/delete-psmdb-pods-in-order'', ''percona.com/delete-psmdb-pvc''] \<and>
     (\<exists>h1. convergedCRVersion L E c h = (Inr (ps_CRVersion (cr_Spec cr)), h1)) \<and>
     membersWanted L c cr \<and> membersConfigured L E c cr \<and>
     uf_ReplsetSize (ps_Unsafe (cr_Spec cr)) = uf_ReplsetSize (unsafeFlagsOf c) \<and>
     uf_MongosSize (ps_Unsafe (cr_Spec cr)) = uf_MongosSize (unsafeFlagsOf c) \<and>
     (\<exists>tls keep h1 h2. tlsParametersOf L c = Inr tls \<and> keepCertificates E c tls h1 = (Inr keep, h2) \<and> tlsSynced c tls keep cr \<and>
        uf_TLS (ps_Unsafe (cr_Spec cr)) = (\<not> tlsEnabled (tp_Mode tls))) \<and>
     (\<exists>s. ps_Secrets (cr_Spec cr) = Some s \<and> ss_Users s = ''everest-secrets-'' @ c_Name c)"

lemma buildPSMDB_ok:
  assumes run: "buildPSMDB L E c h = (Inr cr, h')"
  shows "appliedFor L E c h cr"
proof -
  obtain cr1 tls h1 h2 cr2 where prep: "preparePSMDB L E c h = (Inr (cr1, tls), h1)" and
    pmm: "applyPMMBindings L E c (usersSecretOf (c_Name c)) cr1 h2 = (Inr cr2, h')" and cr: "cr = setSecrets c tls cr2"
    using run by (auto simp: buildPSMDB_def io_simps)
  note ok = preparePSMDB_ok [OF prep]
  have frame: "frame cr = frame cr1" and kept: "members cr = members cr1"
    using pmm_bindings_frame.keeps_both [OF pmm] cr by simp_all
  then have wanted: "membersWanted L c cr" "tlsAsAsked E c tls cr" and same: "identity cr = identity cr1"
    using ok membersWanted_cong tlsAsAsked_frame frame_identity by blast+
  have conf: "membersConfigured L E c cr" using ok unfolding membersConfigured_def kept by blast
  obtain v h3 where v: "convergedCRVersion L E c h = (Inr v, h3)" "identity cr = startIdentity c v" using ok same by auto
  have sec: "ps_Secrets (cr_Spec cr) = Some
     \<lparr>ss_Users = usersSecretOf (c_Name c), ss_EncryptionKey = c_Name c @ ''-mongodb-encryption-key'',
      ss_SSL = tp_CertificateSecretName tls, ss_SSLInternal = internalCertificateSecretName c tls\<rparr>"
    by (simp add: cr setSecrets_def)
  have synced: "\<exists>keep h1 h2. keepCertificates E c tls h1 = (Inr keep, h2) \<and> tlsSynced c tls keep cr"
    using wanted(2) unfolding tlsAsAsked_def tlsSynced_def by (auto simp: sec internalCertificateSecretName_def)
  show ?thesis
    unfolding appliedFor_def
  proof (intro conjI)
    show "\<exists>tls keep h1 h2. tlsParametersOf L c = Inr tls \<and> keepCertificates E c tls h1 = (Inr keep, h2) \<and>
        tlsSynced c tls keep cr \<and> uf_TLS (ps_Unsafe (cr_Spec cr)) = (\<not> tlsEnabled (tp_Mode tls))"
      using ok synced wanted(2) unfolding tlsAsAsked_def by blast
  qed (use v wanted conf sec in \<open>auto simp: identity_def syncFinalizers_def usersSecretOf_def\<close>)
qed

section \<open>The order of the calls\<close>

definition prepCall :: "call \<Rightarrow> bool" where
  "prepCall cl = (case cl of RequestMaintenance _ _ _ \<Rightarrow> True | DeleteObject K _ \<Rightarrow> K = KPVC | _ \<Rightarrow> isRead cl)"

definition finalCall :: "call \<Rightarrow> bool" where
  "finalCall cl = (case cl of
     SetDataSourceStatus _ \<Rightarrow> True | ReconcileDataSource \<Rightarrow> True | DeleteObject K _ \<Rightarrow> K = KPVC | _ \<Rightarrow> isRead cl)"

lemma prepCall_read: "isRead cl \<Longrightarrow> prepCall cl"
  by (cases cl) (auto simp: prepCall_def)

lemma finalCall_read: "isRead cl \<Longrightarrow> finalCall cl"
  by (cases cl) (auto simp: finalCall_def)

lemma emits_prep_read: "readOnly m \<Longrightarrow> emits prepCall m"
  by (erule emits_mono) (rule prepCall_read)

lemma emits_final_read: "readOnly m \<Longrightarrow> emits finalCall m"
  by (erule emits_mono) (rule finalCall_read)

lemma prepCall_quiet: "quiet cl \<Longrightarrow> prepCall cl"
  unfolding quiet_def by (erule disjE, erule prepCall_read) (auto simp: prepCall_def)

lemma emits_prep_quiet: "emits quiet m \<Longrightarrow> emits prepCall m"
  by (erule emits_mono) (rule prepCall_quiet)

text \<open>Deleting hidden volumes fits both phases.\<close>

lemma emits_deleteHiddenVolumes:
  assumes "\<And>cl. isRead cl \<Longrightarrow> P cl" "\<And>n. P (DeleteObject KPVC n)"
  shows "emits P (deleteHiddenVolumes L E c k)"
proof -
  have "emits P (deleteHiddenLoop E pods k ps r)" for pods ps r
    by (rule emits_mono [OF deleteHiddenLoop_emits]) (auto simp: assms(2))
  moreover have "emits P (listPVCs E sel)" "emits P (listPods E sel)" for sel
    by (rule emits_mono [OF readOnly_calls(10)], erule assms(1), rule emits_mono [OF readOnly_calls(11)], erule assms(1))
  ultimately show ?thesis
    unfolding deleteHiddenVolumes_def by (auto intro!: emits_bind emits_wrap)
qed


lemma readOnly_engineImage [read_only_intros]: "readOnly (engineImage L E c)"
  unfolding engineImage_def Let_def by (auto intro!: emits_bind read_only_intros)

lemma readOnly_keepClass [read_only_intros]: "readOnly (keepCurrentConfigServerStorageClass E c rs)"
  unfolding keepCurrentConfigServerStorageClass_def
  by (auto intro!: emits_handle read_only_intros split: sum.splits option.splits bool.splits)

lemma readOnly_configureConfigServer [read_only_intros]: "readOnly (configureConfigServerReplset L E c)"
  unfolding configureConfigServerReplset_def Let_def by (auto intro!: emits_bind read_only_intros)

lemma readOnly_configureBackups [read_only_intros]: "readOnly (configureBackups L E c cr)"
  unfolding configureBackups_def by (auto intro!: emits_bind read_only_intros)

lemma emits_acceptClients: "emits quiet (acceptClientsWithoutCertificates L E c tls cr)"
  unfolding acceptClientsWithoutCertificates_def
  by (auto intro!: emits_handle emits_bind emits_quiet_maintenance emits_makeCertificatesOptional
      read_only_intros [THEN emits_quiet_read] split: sum.splits)

lemma emits_secureClients: "emits quiet (secureClients L E c tls cr)"
  unfolding secureClients_def Let_def
  by (auto intro!: emits_bind emits_wrap emits_acceptClients read_only_intros [THEN emits_quiet_read])

lemma emits_volumes: "emits prepCall (deleteHiddenVolumes L E c k)" "emits finalCall (deleteHiddenVolumes L E c k)"
  by (rule emits_deleteHiddenVolumes, erule prepCall_read, simp add: prepCall_def)
    (rule emits_deleteHiddenVolumes, erule finalCall_read, simp add: finalCall_def)

lemma emits_prep_hidden: "emits prepCall (configureHidden L E c rs)"
  unfolding configureHidden_def Let_def
  by (auto intro!: emits_bind emits_volumes read_only_intros [THEN emits_prep_read])

lemma emits_prep_replsets: "emits prepCall (configureReplsets L E c)"
  unfolding configureReplsets_def Let_def by (auto intro!: emits_bind emits_prep_hidden)

lemma emits_prep_members: "emits prepCall (configureMembers L E c cr)"
  unfolding configureMembers_def Let_def
  by (auto intro!: emits_bind emits_prep_replsets read_only_intros [THEN emits_prep_read])

lemma emits_preparePSMDB: "emits prepCall (preparePSMDB L E c)"
  unfolding preparePSMDB_def startPSMDB_def Let_def
  by (intro emits_bind emits_return emits_wrap emits_lift emits_prep_members emits_applyScheduling emits_labelPods
      emits_convergedCRVersion [THEN emits_prep_quiet] emits_secureClients [THEN emits_prep_quiet]
      read_only_intros [THEN emits_prep_read])

lemma emits_seedCredentials: "emits (seedCall c (usersSecretOf (c_Name c))) (seedCredentials L E c)"
  unfolding seedCredentials_def
  by (auto intro!: emits_ensureUserSecret emits_ensureDataSourceCredentials split: option.splits)

abbreviation syncPhases :: "lib \<Rightarrow> ctx \<Rightarrow> (call \<Rightarrow> bool) list" where
  "syncPhases L c \<equiv> [prepCall, seedCall c (usersSecretOf (c_Name c)), pmmCall L (usersSecretOf (c_Name c))]"

lemma phased_buildPSMDB: "phased (syncPhases L c) (buildPSMDB L E c)"
proof -
  have pmm: "phased [pmmCall L (usersSecretOf (c_Name c))]
      (bindIO (applyPMMBindings L E c (usersSecretOf (c_Name c)) cr) (\<lambda>cr'. returnIO (setSecrets c tls cr')))" for cr tls
    by (intro phased_one emits_bind emits_applyPMMBindings emits_return)
  have seed: "phased [seedCall c (usersSecretOf (c_Name c)), pmmCall L (usersSecretOf (c_Name c))]
      (bindIO (seedCredentials L E c) (\<lambda>_. bindIO (applyPMMBindings L E c (usersSecretOf (c_Name c)) cr)
        (\<lambda>cr'. returnIO (setSecrets c tls cr'))))" for cr tls
    using phased_bind [OF phased_one [OF emits_seedCredentials] pmm] by simp
  show ?thesis
    unfolding buildPSMDB_def
    using phased_bind [OF phased_one [OF emits_preparePSMDB], where f = "\<lambda>(cr, tls). bindIO (seedCredentials L E c)
      (\<lambda>_. bindIO (applyPMMBindings L E c (usersSecretOf (c_Name c)) cr) (\<lambda>cr'. returnIO (setSecrets c tls cr')))"] seed
    by (auto split: prod.splits)
qed

lemma emits_final_hidden: "emits finalCall (deleteUnusedHiddenVolumes L E c)"
  unfolding deleteUnusedHiddenVolumes_def by (auto intro!: emits_bind emits_volumes)

lemma emits_seedDataSource: "emits finalCall (seedDataSource L E c)"
proof -
  have "emits finalCall (setDataSourceStatus st)" "emits finalCall (writeCall E ReconcileDataSource)" for st
    unfolding setDataSourceStatus_def writeCall_def by (auto intro!: emits_call simp: finalCall_def)
  then show ?thesis
    unfolding seedDataSource_def
    by (auto intro!: emits_handle emits_bind emits_wrap read_only_intros [THEN emits_final_read] split: sum.splits)
qed


lemma phases3:
  assumes "list_all2 list_all [P, Q, R] css"
  obtains a b c where "concat css = a @ b @ c" "list_all P a" "list_all Q b" "list_all R c"
  using assms by (auto simp: list_all2_Cons1)

lemma bindIO_writeCall:
  "bindIO (writeCall E w) f h =
     (case env_write E h w of None \<Rightarrow> f () (h @ [w]) | Some e \<Rightarrow> (Inl e, h @ [w]))"
  by (simp add: bindIO_def writeCall_def callIO_def split: option.splits)

text \<open>The whole run, in its phases: nothing is applied before the CR is built, and it is applied once.\<close>

lemma SyncPSMDB_phases:
  assumes run: "SyncPSMDB L E c h = (r, h')"
  obtains prep creds pmm ap final where
    "h' = h @ prep @ creds @ pmm @ ap @ final"
    "list_all prepCall prep" "list_all (seedCall c (usersSecretOf (c_Name c))) creds"
    "list_all (pmmCall L (usersSecretOf (c_Name c))) pmm" "list_all finalCall final"
    "ap = [] \<and> final = [] \<or> (\<exists>cr. ap = [ApplyPSMDB cr] \<and> appliedFor L E c h cr)"
proof -
  obtain q h1 where build: "buildPSMDB L E c h = (q, h1)" by (cases "buildPSMDB L E c h")
  obtain css where css: "h1 = h @ concat css" "list_all2 list_all (syncPhases L c) css"
    using phasedD [OF phased_buildPSMDB build] by blast
  obtain a b d where abd: "concat css = a @ b @ d" "list_all prepCall a"
    "list_all (seedCall c (usersSecretOf (c_Name c))) b" "list_all (pmmCall L (usersSecretOf (c_Name c))) d"
    using css(2) by (rule phases3)
  show thesis
  proof (cases q)
    case (Inl e)
    with run build have "h' = h1" by (simp add: SyncPSMDB_def bindIO_def)
    with css(1) abd that [of a b d "[]" "[]"] show ?thesis by simp
  next
    case (Inr cr)
    let ?rest = "\<lambda>_ :: unit. bindIO (deleteUnusedHiddenVolumes L E c) (\<lambda>_. bindIO (seedDataSource L E c) (\<lambda>more.
       if more \<and> hiddenStartPending c cr
       then failIO (WaitFor ''hidden members start once the volumes of earlier ones are deleted'') else returnIO ()))"
    have rest: "emits finalCall (?rest x)" for x
      by (auto intro!: emits_bind emits_final_hidden emits_seedDataSource)
    have ap: "bindIO (writeCall E (ApplyPSMDB cr)) ?rest h1 = (r, h')"
      using run build Inr by (simp add: SyncPSMDB_def bindIO_def [of "buildPSMDB L E c"])
    have "\<exists>cs. h' = h1 @ [ApplyPSMDB cr] @ cs \<and> list_all finalCall cs"
    proof (cases "env_write E h1 (ApplyPSMDB cr)")
      case (Some e)
      with ap show ?thesis by (auto simp: bindIO_writeCall)
    next
      case None
      with ap have "?rest () (h1 @ [ApplyPSMDB cr]) = (r, h')" by (simp add: bindIO_writeCall)
      from emitsD [OF rest this] show ?thesis by auto
    qed
    then obtain cs where "h' = h1 @ [ApplyPSMDB cr] @ cs" "list_all finalCall cs" by blast
    moreover have "appliedFor L E c h cr" using buildPSMDB_ok build Inr by blast
    ultimately show ?thesis using css(1) abd that [of a b d "[ApplyPSMDB cr]" cs] by simp
  qed
qed

lemma not_applied:
  "list_all prepCall cs \<Longrightarrow> ApplyPSMDB cr \<notin> set cs"
  "list_all (seedCall c n) cs \<Longrightarrow> ApplyPSMDB cr \<notin> set cs"
  "list_all (pmmCall L n) cs \<Longrightarrow> ApplyPSMDB cr \<notin> set cs"
  "list_all finalCall cs \<Longrightarrow> ApplyPSMDB cr \<notin> set cs"
  by (auto simp: list_all_iff prepCall_def seedCall_def pmmCall_def finalCall_def)

section \<open>The gate in front of the initial restore\<close>

text \<open>The engine is ready for its restore: it reports \<^verbatim>\<open>ready\<close>, the operator has chosen a backup agent, and no condition
  says that the engine rejects the users secret.\<close>

definition gateOpen :: "psmdb \<Rightarrow> bool" where
  "gateOpen live \<longleftrightarrow> pst_State (cr_Status live) = AppStateReady \<and> pst_BackupVersion (cr_Status live) \<noteq> '''' \<and>
     (\<forall>cond \<in> set (pst_Conditions (cr_Status live)). cond_True cond \<longrightarrow> cond_Type cond = AppStateError \<longrightarrow>
        \<not> contains (cond_Message cond) ''AuthenticationFailed'')"

lemma contains_nonempty: "contains s ''AuthenticationFailed'' \<Longrightarrow> s \<noteq> ''''"
  by auto

lemma unrecoverableAuthError_empty:
  "unrecoverableAuthError cr = '''' \<longleftrightarrow>
     \<not> (pst_State (cr_Status cr) = AppStateError \<and> contains (pst_Message (cr_Status cr)) ''AuthenticationFailed'') \<and>
     (\<forall>cond \<in> set (pst_Conditions (cr_Status cr)). cond_True cond \<longrightarrow> cond_Type cond = AppStateError \<longrightarrow>
        \<not> contains (cond_Message cond) ''AuthenticationFailed'')"
proof (cases "List.find (\<lambda>cond. cond_True cond \<and> cond_Type cond = AppStateError \<and>
    contains (cond_Message cond) ''AuthenticationFailed'') (pst_Conditions (cr_Status cr))")
  case None
  then have "\<forall>cond \<in> set (pst_Conditions (cr_Status cr)). cond_True cond \<longrightarrow> cond_Type cond = AppStateError \<longrightarrow>
      \<not> contains (cond_Message cond) ''AuthenticationFailed''"
    by (simp add: find_None_iff del: contains.simps)
  with None show ?thesis
    using contains_nonempty [of "pst_Message (cr_Status cr)"]
    by (simp add: unrecoverableAuthError_def del: contains.simps)
next
  case (Some cond)
  then have "cond \<in> set (pst_Conditions (cr_Status cr))" "cond_True cond" "cond_Type cond = AppStateError"
    "contains (cond_Message cond) ''AuthenticationFailed''"
    by (auto simp: find_Some_iff simp del: contains.simps)
  with Some show ?thesis
    by (auto simp: unrecoverableAuthError_def dest: contains_nonempty simp del: contains.simps)
qed

lemma gateOpen_iff:
  "gateOpen live \<longleftrightarrow> unrecoverableAuthError live = '''' \<and>
     \<not> (pst_State (cr_Status live) \<noteq> AppStateReady \<or> pst_BackupVersion (cr_Status live) = '''')"
  by (auto simp: gateOpen_def unrecoverableAuthError_empty simp del: contains.simps)

text \<open>The gate's three outcomes.\<close>

lemma seedDataSource_cases:
  assumes run: "seedDataSource L E c h = (q, h')" and ds: "in_DataSource (c_Instance c) \<noteq> None"
  shows "case env_psmdb E h (c_Name c) of
      Inl e \<Rightarrow> h' = h @ [Get KPSMDB (c_Name c)] \<and> q = Inr False
    | Inr live \<Rightarrow> if gateOpen live then h' = h @ [Get KPSMDB (c_Name c), ReconcileDataSource]
        else \<exists>st. h' = h @ [Get KPSMDB (c_Name c), SetDataSourceStatus st] \<and> q = Inr False"
proof (cases "env_psmdb E h (c_Name c)")
  case (Inl e)
  with run ds show ?thesis by (simp add: seedDataSource_def handleIO_def getPSMDB_def callIO_def returnIO_def)
next
  case (Inr live)
  with run ds show ?thesis
    by (auto simp: gateOpen_iff seedDataSource_def handleIO_def getPSMDB_def callIO_def returnIO_def bindIO_def
        setDataSourceStatus_def wrapIO_def writeCall_def split: if_splits option.splits)
qed

lemma seedDataSource_none:
  assumes "seedDataSource L E c h = (q, h')" "in_DataSource (c_Instance c) = None"
  shows "h' = h"
  using assms by (simp add: seedDataSource_def returnIO_def)

abbreviation notStarted :: "call \<Rightarrow> bool" where
  "notStarted cl \<equiv> cl \<noteq> ReconcileDataSource"

lemma notStarted_build:
  assumes "buildPSMDB L E c h = (q, h')"
  shows "\<exists>cs. h' = h @ cs \<and> list_all notStarted cs"
proof -
  obtain css where css: "h' = h @ concat css" "list_all2 list_all (syncPhases L c) css"
    using phasedD [OF phased_buildPSMDB assms] by blast
  obtain a b d where "concat css = a @ b @ d" "list_all prepCall a"
    "list_all (seedCall c (usersSecretOf (c_Name c))) b" "list_all (pmmCall L (usersSecretOf (c_Name c))) d"
    using css(2) by (rule phases3)
  with css(1) show ?thesis
    by (auto simp: list_all_iff prepCall_def seedCall_def pmmCall_def)
qed

lemma notStarted_volumes: "emits notStarted (deleteUnusedHiddenVolumes L E c)"
  unfolding deleteUnusedHiddenVolumes_def by (auto intro!: emits_bind emits_deleteHiddenVolumes)

text \<open>A sync either stops before the gate or reaches it with the CR applied.\<close>

lemma SyncPSMDB_gate:
  assumes run: "SyncPSMDB L E c h = (r, h')"
  shows "(\<exists>cs e. h' = h @ cs \<and> list_all notStarted cs \<and> r = Inl e) \<or>
    (\<exists>cs cr q. list_all notStarted cs \<and> ApplyPSMDB cr \<in> set cs \<and> seedDataSource L E c (h @ cs) = (q, h'))"
proof -
  obtain q h1 where build: "buildPSMDB L E c h = (q, h1)" by (cases "buildPSMDB L E c h")
  obtain cs1 where cs1: "h1 = h @ cs1" "list_all notStarted cs1" using notStarted_build [OF build] by blast
  show ?thesis
  proof (cases q)
    case (Inl e)
    with run build cs1 show ?thesis by (auto simp: SyncPSMDB_def bindIO_def)
  next
    case (Inr cr)
    let ?last = "\<lambda>more. if more \<and> hiddenStartPending c cr
       then failIO (WaitFor ''hidden members start once the volumes of earlier ones are deleted'') else returnIO ()"
    have ap: "bindIO (writeCall E (ApplyPSMDB cr)) (\<lambda>_. bindIO (deleteUnusedHiddenVolumes L E c) (\<lambda>_.
        bindIO (seedDataSource L E c) ?last)) h1 = (r, h')"
      using run build Inr by (simp add: SyncPSMDB_def bindIO_def [of "buildPSMDB L E c"])
    show ?thesis
    proof (cases "env_write E h1 (ApplyPSMDB cr)")
      case (Some e)
      with ap cs1 show ?thesis by (auto simp: bindIO_writeCall)
    next
      case None
      obtain p h2 where vol: "deleteUnusedHiddenVolumes L E c (h1 @ [ApplyPSMDB cr]) = (p, h2)"
        by (cases "deleteUnusedHiddenVolumes L E c (h1 @ [ApplyPSMDB cr])")
      obtain cs2 where cs2: "h2 = (h1 @ [ApplyPSMDB cr]) @ cs2" "list_all notStarted cs2"
        using emitsD [OF notStarted_volumes vol] by blast
      show ?thesis
      proof (cases p)
        case (Inl e)
        with ap None vol have "r = Inl e" "h' = h2"
          by (simp_all add: bindIO_writeCall bindIO_def [of "deleteUnusedHiddenVolumes L E c"])
        with cs1 cs2 show ?thesis by auto
      next
        case (Inr u)
        obtain s h3 where seed: "seedDataSource L E c h2 = (s, h3)" by (cases "seedDataSource L E c h2")
        have "bindIO (seedDataSource L E c) ?last h2 = (r, h')"
          using ap None vol Inr by (simp add: bindIO_writeCall bindIO_def [of "deleteUnusedHiddenVolumes L E c"])
        with seed have "h' = h3"
          by (auto simp: bindIO_def failIO_def returnIO_def split: sum.splits if_splits)
        with seed cs1 cs2 show ?thesis
          by (intro disjI2 exI [of _ "cs1 @ [ApplyPSMDB cr] @ cs2"] exI [of _ cr] exI [of _ s]) simp
      qed
    qed
  qed
qed

section \<open>Properties\<close>

text \<open>Every CR in the calls of a sync is the one it built.\<close>

lemma SyncPSMDB_applied:
  assumes run: "SyncPSMDB L E c h = (r, h @ cs)" and applied: "ApplyPSMDB cr \<in> set cs"
  shows "appliedFor L E c h cr"
  using run
proof (rule SyncPSMDB_phases)
  fix prep creds pmm ap final
  assume "h @ cs = h @ prep @ creds @ pmm @ ap @ final" "list_all prepCall prep"
    "list_all (seedCall c (usersSecretOf (c_Name c))) creds" "list_all (pmmCall L (usersSecretOf (c_Name c))) pmm"
    "list_all finalCall final" "ap = [] \<and> final = [] \<or> (\<exists>cr. ap = [ApplyPSMDB cr] \<and> appliedFor L E c h cr)"
  then show "appliedFor L E c h cr" using applied not_applied by auto
qed

text \<open>C2. Every CR a sync applies is the Instance's: whatever the cluster answers, a CR that \<^verbatim>\<open>SyncPSMDB\<close> applies has the
  Instance's name and namespace, the finalizers that delete the pods in order and then the volumes, the version convergence
  decided on, exactly the replica sets, config servers and routers the topology asks for with the engine's size, the mode, issuer
  and certificate secrets of the Instance's TLS parameters (so that a later reference check accepts them) with the certificates
  kept as \<^verbatim>\<open>keepCertificates\<close> found, and the canonical users secret.\<close>

theorem sync_applies_instance:
  assumes run: "SyncPSMDB L E c h = (r, h @ cs)" and applied: "ApplyPSMDB cr \<in> set cs"
  shows "cr_Name cr = c_Name c \<and> cr_Namespace cr = c_Namespace c \<and>
     cr_Finalizers cr = [''percona.com/delete-psmdb-pods-in-order'', ''percona.com/delete-psmdb-pvc''] \<and>
     (\<exists>h1. convergedCRVersion L E c h = (Inr (ps_CRVersion (cr_Spec cr)), h1)) \<and>
     map rs_Name (ps_Replsets (cr_Spec cr)) =
       map rsName [0..<if isSharded (c_Instance c) then numShards L (c_Instance c) else 1] \<and>
     (\<forall>rs \<in> set (ps_Replsets (cr_Spec cr)). rs_Size rs = engineSize c) \<and>
     sh_Enabled (ps_Sharding (cr_Spec cr)) = isSharded (c_Instance c) \<and> shardingComplete cr \<and>
     (\<exists>tls keep h1 h2. tlsParametersOf L c = Inr tls \<and> keepCertificates E c tls h1 = (Inr keep, h2) \<and> tlsSynced c tls keep cr \<and>
        uf_TLS (ps_Unsafe (cr_Spec cr)) = (tp_Mode tls = ''disabled'')) \<and>
     (\<exists>s. ps_Secrets (cr_Spec cr) = Some s \<and> ss_Users s = ''everest-secrets-'' @ c_Name c)"
  using SyncPSMDB_applied [OF run applied] unfolding appliedFor_def membersWanted_def tlsEnabled_def TLSModeDisabled_def not_not
  by blast

text \<open>C3. A sync writes in a safe order, wherever it stops: first only stale hidden volumes are deleted; then the users secret may be
  created, before anything else can create it; then only the PMM token of that secret is written; then the CR is
  applied, once; and only after that stale volumes are deleted again and the initial restore is started.\<close>

theorem sync_writes_in_order:
  assumes "SyncPSMDB L E c h = (r, h')"
  shows "\<exists>prep creds pmm ap final. h' = h @ prep @ creds @ pmm @ ap @ final \<and>
    (\<forall>w \<in> set prep. isWrite w \<longrightarrow> (\<exists>n. w = DeleteObject KPVC n)) \<and>
    (\<forall>w \<in> set creds. isWrite w \<longrightarrow> (\<exists>data. w = CreateSecret (managedSecret c (usersSecretOf (c_Name c)) data))) \<and>
    (\<forall>w \<in> set pmm. isWrite w \<longrightarrow> (\<exists>kvs. w = ApplySecret (usersSecretOf (c_Name c)) kvs \<and> set (map fst kvs) \<subseteq> {lib_pmmServerToken L})) \<and>
    (ap = [] \<and> final = [] \<or> (\<exists>cr. ap = [ApplyPSMDB cr])) \<and>
    (\<forall>w \<in> set final. isWrite w \<longrightarrow> w = ReconcileDataSource \<or> (\<exists>n. w = DeleteObject KPVC n))"
  using assms
proof (rule SyncPSMDB_phases)
  fix prep creds pmm ap final
  assume h: "h' = h @ prep @ creds @ pmm @ ap @ final" and prep: "list_all prepCall prep" and
    creds: "list_all (seedCall c (usersSecretOf (c_Name c))) creds" and
    pmm: "list_all (pmmCall L (usersSecretOf (c_Name c))) pmm" and final: "list_all finalCall final" and
    ap: "ap = [] \<and> final = [] \<or> (\<exists>cr. ap = [ApplyPSMDB cr] \<and> appliedFor L E c h cr)"
  have preps: "\<exists>n. w = DeleteObject KPVC n" if "prepCall w" "isWrite w" for w
    using that by (cases w) (auto simp: prepCall_def)
  have seeds: "\<exists>data. w = CreateSecret (managedSecret c n data)" if "seedCall c n w" "isWrite w" for w n
    using that by (cases w) (auto simp: seedCall_def)
  have tokens: "\<exists>kvs. w = ApplySecret n kvs \<and> set (map fst kvs) \<subseteq> {lib_pmmServerToken L}"
    if "pmmCall L n w" "isWrite w" for w n
    using pmmCall_write [OF that] by auto
  have finals: "w = ReconcileDataSource \<or> (\<exists>n. w = DeleteObject KPVC n)" if "finalCall w" "isWrite w" for w
    using that by (cases w) (auto simp: finalCall_def)
  show ?thesis
  proof (rule exI [of _ prep], rule exI [of _ creds], rule exI [of _ pmm], rule exI [of _ ap], rule exI [of _ final],
      intro conjI)
    show "h' = h @ prep @ creds @ pmm @ ap @ final" by (rule h)
    show "\<forall>w \<in> set prep. isWrite w \<longrightarrow> (\<exists>n. w = DeleteObject KPVC n)"
      using prep preps by (simp add: list_all_iff)
    show "\<forall>w \<in> set creds. isWrite w \<longrightarrow> (\<exists>data. w = CreateSecret (managedSecret c (usersSecretOf (c_Name c)) data))"
      using creds seeds by (simp add: list_all_iff)
    show "\<forall>w \<in> set pmm. isWrite w \<longrightarrow>
        (\<exists>kvs. w = ApplySecret (usersSecretOf (c_Name c)) kvs \<and> set (map fst kvs) \<subseteq> {lib_pmmServerToken L})"
      using pmm tokens by (simp add: list_all_iff)
    show "ap = [] \<and> final = [] \<or> (\<exists>cr. ap = [ApplyPSMDB cr])" using ap by blast
    show "\<forall>w \<in> set final. isWrite w \<longrightarrow> w = ReconcileDataSource \<or> (\<exists>n. w = DeleteObject KPVC n)"
      using final finals by (simp add: list_all_iff)
  qed
qed


definition appliesCR :: "call \<Rightarrow> bool" where
  "appliesCR cl = (case cl of ApplyPSMDB _ \<Rightarrow> True | _ \<Rightarrow> False)"

lemma appliesCR_E: "list_ex appliesCR cs \<Longrightarrow> \<exists>cr. ApplyPSMDB cr \<in> set cs"
proof -
  have "appliesCR cl \<longleftrightarrow> (\<exists>cr. cl = ApplyPSMDB cr)" for cl by (cases cl) (simp_all add: appliesCR_def)
  then show "list_ex appliesCR cs \<Longrightarrow> \<exists>cr. ApplyPSMDB cr \<in> set cs" by (auto simp: list_ex_iff)
qed

lemma plain_sync: "\<exists>r cr cs. SyncPSMDB plainLib emptyCluster bareCtx [] = (r, [] @ cs) \<and> ApplyPSMDB cr \<in> set cs"
proof -
  have "list_ex appliesCR (snd (SyncPSMDB plainLib emptyCluster bareCtx []))" by code_simp
  then show ?thesis by (cases "SyncPSMDB plainLib emptyCluster bareCtx []") (auto dest: appliesCR_E)
qed

theorem sync_applies_instance_witness:
  "\<exists>r cs cr. SyncPSMDB plainLib emptyCluster bareCtx [] = (r, [] @ cs) \<and> ApplyPSMDB cr \<in> set cs \<and>
     cr_Name cr = ''my-mongo'' \<and> map rs_Name (ps_Replsets (cr_Spec cr)) = [''rs0''] \<and>
     \<not> sh_Enabled (ps_Sharding (cr_Spec cr)) \<and>
     cr_Finalizers cr = [''percona.com/delete-psmdb-pods-in-order'', ''percona.com/delete-psmdb-pvc''] \<and>
     (\<exists>s. ps_Secrets (cr_Spec cr) = Some s \<and> ss_Users s = ''everest-secrets-my-mongo'')"
proof -
  obtain r cr cs where run: "SyncPSMDB plainLib emptyCluster bareCtx [] = (r, [] @ cs)" "ApplyPSMDB cr \<in> set cs"
    using plain_sync by blast
  note applied = sync_applies_instance [OF run]
  have at: "isSharded (c_Instance bareCtx) = False" "c_Name bareCtx = ''my-mongo''" "map rsName [0..<1] = [''rs0'']"
    "''everest-secrets-'' @ ''my-mongo'' = ''everest-secrets-my-mongo''"
    by code_simp+
  show ?thesis
    using run applied [unfolded at if_False] by (intro exI [of _ r] exI [of _ cs] exI [of _ cr]) simp
qed

theorem sync_writes_in_order_witness:
  "\<exists>prep creds pmm ap final. snd (SyncPSMDB plainLib emptyCluster bareCtx []) = prep @ creds @ pmm @ ap @ final \<and>
     list_all (\<lambda>w. \<not> isWrite w \<or> (\<exists>n. w = DeleteObject KPVC n)) prep"
proof -
  obtain r h' where run: "SyncPSMDB plainLib emptyCluster bareCtx [] = (r, h')"
    by (cases "SyncPSMDB plainLib emptyCluster bareCtx []")
  from sync_writes_in_order [OF this] obtain prep creds pmm ap final where
    "h' = [] @ prep @ creds @ pmm @ ap @ final" "\<forall>w \<in> set prep. isWrite w \<longrightarrow> (\<exists>n. w = DeleteObject KPVC n)"
    by (elim exE conjE) (rule that)
  then have "snd (SyncPSMDB plainLib emptyCluster bareCtx []) = prep @ creds @ pmm @ ap @ final"
    "list_all (\<lambda>w. \<not> isWrite w \<or> (\<exists>n. w = DeleteObject KPVC n)) prep"
    using run by (auto simp: list_all_iff)
  then show ?thesis by blast
qed

text \<open>C5. The initial restore waits for the engine: when a sync starts it, the Instance has a data source, the CR was applied
  earlier in this sync, and the CR read right before was ready, had a backup agent chosen and no \<^verbatim>\<open>True\<close> error
  condition about failed authentication; nothing follows it. Conversely a sync of an Instance with a data source that succeeds
  without starting the restore had read a CR that was not, or could not read it.\<close>

theorem restore_gated:
  assumes run: "SyncPSMDB L E c h = (r, h @ cs)"
  shows "(ReconcileDataSource \<in> set cs \<longrightarrow> in_DataSource (c_Instance c) \<noteq> None \<and>
      (\<exists>before cr live. cs = before @ [Get KPSMDB (c_Name c), ReconcileDataSource] \<and> ApplyPSMDB cr \<in> set before \<and>
         env_psmdb E (h @ before) (c_Name c) = Inr live \<and> gateOpen live)) \<and>
    (ReconcileDataSource \<notin> set cs \<and> in_DataSource (c_Instance c) \<noteq> None \<and> r = Inr () \<longrightarrow>
      (\<exists>before after. cs = before @ [Get KPSMDB (c_Name c)] @ after \<and>
         (\<forall>live. env_psmdb E (h @ before) (c_Name c) = Inr live \<longrightarrow> \<not> gateOpen live)))"
  using SyncPSMDB_gate [OF run]
proof (elim disjE exE conjE)
  fix cs' e
  assume "h @ cs = h @ cs'" "list_all notStarted cs'" "r = Inl e"
  then show ?thesis by (auto simp: list_all_iff)
next
  fix before cr q
  assume before: "list_all notStarted before" "ApplyPSMDB cr \<in> set before"
    and seed: "seedDataSource L E c (h @ before) = (q, h @ cs)"
  show ?thesis
  proof (cases "in_DataSource (c_Instance c) = None")
    case True
    with seedDataSource_none [OF seed] before show ?thesis by (auto simp: list_all_iff)
  next
    case False
    note outcome = seedDataSource_cases [OF seed False]
    show ?thesis
    proof (cases "env_psmdb E (h @ before) (c_Name c)")
      case (Inl e)
      with outcome before show ?thesis by (auto simp: list_all_iff)
    next
      case (Inr live)
      show ?thesis
      proof (cases "gateOpen live")
        case True
        with outcome Inr have "cs = before @ [Get KPSMDB (c_Name c), ReconcileDataSource]" by simp
        with True Inr False before(2) show ?thesis by auto
      next
        case closed: False
        with outcome Inr obtain st where "cs = before @ [Get KPSMDB (c_Name c), SetDataSourceStatus st]" by auto
        with closed Inr before show ?thesis by (auto simp: list_all_iff)
      qed
    qed
  qed
qed

definition seededCtx :: ctx where
  "seededCtx = bareCtx\<lparr>c_Instance := bareInstance\<lparr>in_DataSource :=
     Some \<lparr>ds_Type = DataSourceTypeBackup, ds_Backup = None, ds_PointInTime = None\<rparr>\<rparr>\<rparr>"

definition readyEngine :: psmdb where
  "readyEngine = zeroPSMDB\<lparr>cr_Status := (cr_Status zeroPSMDB)\<lparr>pst_State := AppStateReady, pst_BackupVersion := ''2.5''\<rparr>\<rparr>"

definition seedReadyCluster :: env where
  "seedReadyCluster = emptyCluster\<lparr>env_psmdb := \<lambda>h n. Inr readyEngine\<rparr>"

definition startsRestore :: "call \<Rightarrow> bool" where
  "startsRestore cl = (case cl of ReconcileDataSource \<Rightarrow> True | _ \<Rightarrow> False)"

theorem restore_gated_witness:
  "\<exists>cs before live. snd (SyncPSMDB plainLib seedReadyCluster seededCtx []) = cs \<and>
     cs = before @ [Get KPSMDB ''my-mongo'', ReconcileDataSource] \<and>
     env_psmdb seedReadyCluster before ''my-mongo'' = Inr live \<and> gateOpen live"
proof -
  have "list_ex startsRestore (snd (SyncPSMDB plainLib seedReadyCluster seededCtx []))" by code_simp
  moreover have "startsRestore cl \<Longrightarrow> cl = ReconcileDataSource" for cl by (cases cl) (simp_all add: startsRestore_def)
  ultimately have started: "ReconcileDataSource \<in> set (snd (SyncPSMDB plainLib seedReadyCluster seededCtx []))"
    by (auto simp: list_ex_iff)
  obtain r cs where run: "SyncPSMDB plainLib seedReadyCluster seededCtx [] = (r, [] @ cs)"
    by (cases "SyncPSMDB plainLib seedReadyCluster seededCtx []") simp
  moreover have "c_Name seededCtx = ''my-mongo''" by code_simp
  ultimately show ?thesis using restore_gated [OF run] started by auto
qed

end
