(* ===== verification/Cluster_Status.thy ===== *)
theory Cluster_Status
  imports Cluster_Sync
begin

text \<open>
  The Instance's status (provider.go): \<^verbatim>\<open>StatusPSMDB\<close> reads the phase off the engine CR, the data source and the running
  restores, and \<^verbatim>\<open>buildConnectionDetails\<close> tells clients how to connect to a ready cluster.
\<close>

section \<open>The code\<close>

record connectionDetails =
  cd_Type :: string
  cd_Provider :: string
  cd_Host :: string
  cd_Port :: string
  cd_Username :: string
  cd_Password :: string
  cd_URI :: string
  cd_AdditionalProperties :: "string \<rightharpoonup> string"

datatype status =
    Provisioning string
  | Restoring string
  | Failed string
  | ReadyWithConnectionDetails connectionDetails

text \<open>What \<^verbatim>\<open>string(secret.Data[key])\<close> reads: an absent key is the empty string.\<close>

definition dataAt :: "secret \<Rightarrow> string \<Rightarrow> string" where
  "dataAt s k = (case sec_Data s k of None \<Rightarrow> '''' | Some v \<Rightarrow> v)"

definition formatBool :: "bool \<Rightarrow> string" where
  "formatBool b = (if b then ''true'' else ''false'')"

definition connectionURI :: "string \<Rightarrow> string \<Rightarrow> string \<Rightarrow> bool \<Rightarrow> string" where
  "connectionURI username password host tlsRequired =
     ''mongodb://'' @ username @ '':'' @ password @ ''@'' @ host @ ''/admin?tls='' @ formatBool tlsRequired"

definition buildConnectionDetails :: "lib \<Rightarrow> env \<Rightarrow> ctx \<Rightarrow> psmdb \<Rightarrow> connectionDetails act" where
  "buildConnectionDetails L E c cr =
     (let secretName = ''everest-secrets-'' @ c_Name c
      in bindIO (wrapIO (''failed to get credentials secret '' @ secretName) (getSecret E secretName)) (\<lambda>sec.
         bindIO (withoutHiddenHosts L E cr (pst_Host (cr_Status cr))) (\<lambda>host.
           let username = dataAt sec (lib_databaseAdminUser L);
               password = dataAt sec (lib_databaseAdminPassword L)
           in bindIO (tlsConnection L E c) (\<lambda>(ca, tlsRequired).
              returnIO \<lparr>cd_Type = ''mongodb'', cd_Provider = ''percona-server-mongodb'', cd_Host = host,
                cd_Port = ''27017'', cd_Username = username, cd_Password = password,
                cd_URI = connectionURI username password host tlsRequired,
                cd_AdditionalProperties = (if ca \<noteq> '''' then [caKey \<mapsto> ca] else Map.empty)\<rparr>))))"

definition StatusPSMDB :: "lib \<Rightarrow> env \<Rightarrow> ctx \<Rightarrow> status act" where
  "StatusPSMDB L E c =
     handleIO (getPSMDB E (c_Name c)) (\<lambda>got. case got of
       Inl _ \<Rightarrow> returnIO (Provisioning ''Waiting for PerconaServerMongoDB'')
     | Inr cr \<Rightarrow>
         bindIO (readDataSourceStatus E) (\<lambda>ds.
           if (case ds of Some s \<Rightarrow> \<not> dss_Done s | None \<Rightarrow> False)
           then returnIO (Restoring (dss_Message (the ds)))
           else if (case ds of Some s \<Rightarrow> dss_State s = DataSourceStateFailed | None \<Rightarrow> False)
           then returnIO (Failed (dss_Message (the ds)))
           else bindIO (hasActiveRestoreForInstance E (c_Namespace c) (c_Name c)) (\<lambda>activeRestore.
             if activeRestore then returnIO (Restoring ''Restore is running'')
             else if pst_State (cr_Status cr) = AppStateReady
             then handleIO (buildConnectionDetails L E c cr) (\<lambda>r. case r of
                    Inl e \<Rightarrow> returnIO (Failed (''Failed to build connection details: '' @ errText (lib_errText L) e))
                  | Inr details \<Rightarrow> returnIO (ReadyWithConnectionDetails details))
             else if pst_State (cr_Status cr) = AppStateError then returnIO (Failed (pst_Message (cr_Status cr)))
             else returnIO (Provisioning ''Cluster is being created''))))"

section \<open>Lemmas\<close>

lemma readOnly_buildConnectionDetails [read_only_intros]: "readOnly (buildConnectionDetails L E c cr)"
  unfolding buildConnectionDetails_def Let_def
  by (auto intro!: emits_bind emits_wrap read_only_intros readOnly_withoutHiddenHosts)

lemma readOnly_StatusPSMDB: "readOnly (StatusPSMDB L E c)"
  unfolding StatusPSMDB_def
  by (auto intro!: emits_handle emits_bind read_only_intros split: sum.splits)

text \<open>The answers a status depends on, at the points of the run where they are read.\<close>

abbreviation statusDataSource :: "env \<Rightarrow> ctx \<Rightarrow> history \<Rightarrow> dataSourceStatus option" where
  "statusDataSource E c h \<equiv> env_dataSourceStatus E (h @ [Get KPSMDB (c_Name c)])"

abbreviation statusRestores :: "env \<Rightarrow> ctx \<Rightarrow> history \<Rightarrow> go_error + restore list" where
  "statusRestores E c h \<equiv>
     env_restoresOf E (h @ [Get KPSMDB (c_Name c), ReadDataSourceStatus]) (c_Namespace c) (c_Name c)"

abbreviation statusCalls :: "ctx \<Rightarrow> history" where
  "statusCalls c \<equiv> [Get KPSMDB (c_Name c), ReadDataSourceStatus,
     ListBy KRestore [(''namespace'', c_Namespace c), (''instance'', c_Name c)]]"

text \<open>The initial seeding is neither under way nor failed.\<close>

definition seeded :: "dataSourceStatus option \<Rightarrow> bool" where
  "seeded ds = (case ds of None \<Rightarrow> True | Some s \<Rightarrow> dss_Done s \<and> dss_State s \<noteq> DataSourceStateFailed)"

definition seedingNow :: "dataSourceStatus option \<Rightarrow> bool" where
  "seedingNow ds = (case ds of None \<Rightarrow> False | Some s \<Rightarrow> \<not> dss_Done s)"

lemma status_unreadable:
  assumes "env_psmdb E h (c_Name c) = Inl e"
  shows "fst (StatusPSMDB L E c h) = Inr (Provisioning ''Waiting for PerconaServerMongoDB'')"
  using assms by (simp add: StatusPSMDB_def handleIO_def getPSMDB_def callIO_def returnIO_def)

lemma status_not_seeded:
  assumes "env_psmdb E h (c_Name c) = Inr cr" "\<not> seeded (statusDataSource E c h)"
  shows "fst (StatusPSMDB L E c h) = Inr ((if seedingNow (statusDataSource E c h) then Restoring else Failed)
    (dss_Message (the (statusDataSource E c h))))"
  using assms by (auto simp: StatusPSMDB_def handleIO_def getPSMDB_def callIO_def returnIO_def bindIO_def
      readDataSourceStatus_def seeded_def seedingNow_def split: option.splits)

lemma status_restores:
  assumes "env_psmdb E h (c_Name c) = Inr cr" "seeded (statusDataSource E c h)"
  shows "StatusPSMDB L E c h =
    (case statusRestores E c h of
       Inl e \<Rightarrow> (Inl (Wrap (''list Restore resources for instance '' @ quote (c_Name c)) e), h @ statusCalls c)
     | Inr rs \<Rightarrow>
         if list_ex restoreActive rs then (Inr (Restoring ''Restore is running''), h @ statusCalls c)
         else if pst_State (cr_Status cr) = AppStateReady
         then (case buildConnectionDetails L E c cr (h @ statusCalls c) of
                 (Inl e, h') \<Rightarrow> (Inr (Failed (''Failed to build connection details: '' @ errText (lib_errText L) e)), h')
               | (Inr d, h') \<Rightarrow> (Inr (ReadyWithConnectionDetails d), h'))
         else if pst_State (cr_Status cr) = AppStateError
         then (Inr (Failed (pst_Message (cr_Status cr))), h @ statusCalls c)
         else (Inr (Provisioning ''Cluster is being created''), h @ statusCalls c))"
  using assms by (auto simp: StatusPSMDB_def handleIO_def getPSMDB_def callIO_def returnIO_def bindIO_def wrapIO_def
      readDataSourceStatus_def hasActiveRestoreForInstance_def listRestoresOf_def seeded_def
      split: option.splits sum.splits prod.splits)

section \<open>Properties\<close>

text \<open>C17. The phase of an Instance: computing it changes nothing; the Instance is Ready exactly when the engine reports ready,
  its initial seeding is neither under way nor failed, no restore of it is running and the connection details, read after all of
  this, could be built; it is Restoring exactly while it is being seeded or, once seeded, a restore of it is running,
  whatever the engine says meanwhile; and the only error is that the restores cannot be listed.\<close>

theorem status_phase_exact:
  assumes run: "StatusPSMDB L E c h = (q, h')"
  shows "writes h' = writes h \<and>
    (\<forall>d. q = Inr (ReadyWithConnectionDetails d) \<longleftrightarrow>
       (\<exists>cr rs. env_psmdb E h (c_Name c) = Inr cr \<and> pst_State (cr_Status cr) = AppStateReady \<and>
          seeded (statusDataSource E c h) \<and> statusRestores E c h = Inr rs \<and> \<not> list_ex restoreActive rs \<and>
          buildConnectionDetails L E c cr (h @ statusCalls c) = (Inr d, h'))) \<and>
    ((\<exists>m. q = Inr (Restoring m)) \<longleftrightarrow>
       (\<exists>cr. env_psmdb E h (c_Name c) = Inr cr) \<and>
       (seedingNow (statusDataSource E c h) \<or>
        seeded (statusDataSource E c h) \<and> (\<exists>rs. statusRestores E c h = Inr rs \<and> list_ex restoreActive rs))) \<and>
    ((\<exists>e. q = Inl e) \<longleftrightarrow>
       (\<exists>cr e. env_psmdb E h (c_Name c) = Inr cr \<and> seeded (statusDataSource E c h) \<and> statusRestores E c h = Inl e))"
proof -
  have "writes h' = writes h" using readOnly_writes [OF readOnly_StatusPSMDB run] .
  moreover have seeding: "seeded ds \<Longrightarrow> \<not> seedingNow ds" for ds
    by (auto simp: seeded_def seedingNow_def split: option.splits)
  consider (gone) e where "env_psmdb E h (c_Name c) = Inl e"
    | (unseeded) cr where "env_psmdb E h (c_Name c) = Inr cr" "\<not> seeded (statusDataSource E c h)"
    | (seeded) cr where "env_psmdb E h (c_Name c) = Inr cr" "seeded (statusDataSource E c h)"
    by (cases "env_psmdb E h (c_Name c)") blast+
  then show ?thesis
  proof cases
    case gone
    with run status_unreadable [OF this, of L] \<open>writes h' = writes h\<close> show ?thesis by auto
  next
    case unseeded
    with run status_not_seeded [OF this, of L] \<open>writes h' = writes h\<close> show ?thesis by auto
  next
    case seeded
    obtain b h2 where built: "buildConnectionDetails L E c cr (h @ statusCalls c) = (b, h2)"
      by (cases "buildConnectionDetails L E c cr (h @ statusCalls c)")
    from run seeded built seeding [OF seeded(2)] \<open>writes h' = writes h\<close> show ?thesis
      by (cases "statusRestores E c h"; cases b) (auto simp: status_restores split: if_splits)
  qed
qed

theorem status_phase_exact_witness:
  "\<exists>d h'. StatusPSMDB plainLib (seedReadyCluster\<lparr>env_secret := \<lambda>h n. Inr suppliedSecret\<rparr>) bareCtx [] =
     (Inr (ReadyWithConnectionDetails d), h') \<and> writes h' = []"
proof -
  let ?E = "seedReadyCluster\<lparr>env_secret := \<lambda>h n. Inr suppliedSecret\<rparr>"
  obtain q h' where run: "StatusPSMDB plainLib ?E bareCtx [] = (q, h')" by (cases "StatusPSMDB plainLib ?E bareCtx []")
  obtain b h2 where built: "buildConnectionDetails plainLib ?E bareCtx readyEngine ([] @ statusCalls bareCtx) = (b, h2)"
    by (cases "buildConnectionDetails plainLib ?E bareCtx readyEngine ([] @ statusCalls bareCtx)")
  have "\<not> isl (fst (buildConnectionDetails plainLib ?E bareCtx readyEngine ([] @ statusCalls bareCtx)))" by code_simp
  with built obtain d where d: "b = Inr d" by (cases b) auto
  have ready: "env_psmdb ?E [] (c_Name bareCtx) = Inr readyEngine" "pst_State (cr_Status readyEngine) = AppStateReady"
    "seeded (statusDataSource ?E bareCtx [])" "statusRestores ?E bareCtx [] = Inr []"
    by (simp_all add: seedReadyCluster_def emptyCluster_def readyEngine_def seeded_def)
  then have "StatusPSMDB plainLib ?E bareCtx [] = (Inr (ReadyWithConnectionDetails d), h2)"
    using built d status_restores [OF ready(1) ready(3), of plainLib] by simp
  moreover have "writes h' = []" using conjunct1 [OF status_phase_exact [OF run]] by (simp add: writes_def)
  ultimately show ?thesis using run by auto
qed

lemma tlsConnection_ok:
  assumes "tlsConnection L E c h = (Inr (ca, required), h')"
  shows "\<exists>tls. tlsParametersOf L c = Inr tls \<and> required = (tp_Mode tls = TLSModeRequire) \<and>
    (ca \<noteq> '''' \<longrightarrow> tlsEnabled (tp_Mode tls) \<and>
       (\<exists>sec. env_secret E h (clientCertificateSecretName c tls) = Inr sec \<and> ca = dataAt sec caKey))"
proof -
  obtain tls where tls: "tlsParametersOf L c = Inr tls"
    using assms by (cases "tlsParametersOf L c") (auto simp: tlsConnection_def bindIO_def liftIO_def)
  show ?thesis
  proof (cases "tlsEnabled (tp_Mode tls)")
    case False
    then have "tp_Mode tls \<noteq> TLSModeRequire" by (auto simp: tlsEnabled_def tls_consts)
    with assms tls False show ?thesis by (auto simp: tlsConnection_def bindIO_def liftIO_def returnIO_def)
  next
    case True
    with assms tls show ?thesis
      by (auto simp: tlsConnection_def bindIO_def liftIO_def returnIO_def handleIO_def getSecret_def callIO_def failIO_def
          dataAt_def split: sum.splits if_splits)
  qed
qed

text \<open>The connection details of a ready cluster: they come from the very users secret that the applied CR names, only read;
  the host list is the one without hidden members; the URI is made of just these and asks for TLS exactly when the
  Instance requires it; and a CA is handed out only with TLS on, and then it is the one of the certificate clients are shown.\<close>

theorem connection_details_exact:
  assumes run: "buildConnectionDetails L E c cr h = (Inr d, h')"
    and sec: "env_secret E h (usersSecretOf (c_Name c)) = Inr sec"
  shows "cd_Username d = dataAt sec (lib_databaseAdminUser L) \<and> cd_Password d = dataAt sec (lib_databaseAdminPassword L) \<and>
    (\<exists>h1. withoutHiddenHosts L E cr (pst_Host (cr_Status cr)) (h @ [Get KSecret (usersSecretOf (c_Name c))]) = (Inr (cd_Host d), h1)) \<and>
    (\<exists>tls. tlsParametersOf L c = Inr tls \<and>
       cd_URI d = connectionURI (cd_Username d) (cd_Password d) (cd_Host d) (tp_Mode tls = TLSModeRequire) \<and>
       (cd_AdditionalProperties d \<noteq> Map.empty \<longrightarrow> tlsEnabled (tp_Mode tls) \<and>
          (\<exists>h2 cert. env_secret E h2 (clientCertificateSecretName c tls) = Inr cert \<and> dataAt cert caKey \<noteq> '''' \<and>
             cd_AdditionalProperties d = [caKey \<mapsto> dataAt cert caKey]))) \<and>
    writes h' = writes h"
proof -
  have name: "''everest-secrets-'' @ c_Name c = usersSecretOf (c_Name c)" by (simp add: usersSecretOf_def)
  let ?u = "dataAt sec (lib_databaseAdminUser L)" and ?p = "dataAt sec (lib_databaseAdminPassword L)"
  obtain host h1 ca required h2 where
    host: "withoutHiddenHosts L E cr (pst_Host (cr_Status cr)) (h @ [Get KSecret (usersSecretOf (c_Name c))]) = (Inr host, h1)"
    and tls: "tlsConnection L E c h1 = (Inr (ca, required), h2)"
    and d: "d = \<lparr>cd_Type = ''mongodb'', cd_Provider = ''percona-server-mongodb'', cd_Host = host, cd_Port = ''27017'',
      cd_Username = ?u, cd_Password = ?p, cd_URI = connectionURI ?u ?p host required,
      cd_AdditionalProperties = (if ca \<noteq> '''' then [caKey \<mapsto> ca] else Map.empty)\<rparr>"
    using run sec unfolding buildConnectionDetails_def Let_def name
    by (auto simp: io_simps getSecret_def)
  from tlsConnection_ok [OF tls] obtain p where p: "tlsParametersOf L c = Inr p" "required = (tp_Mode p = TLSModeRequire)"
    "ca \<noteq> '''' \<longrightarrow> tlsEnabled (tp_Mode p) \<and>
       (\<exists>sec. env_secret E h1 (clientCertificateSecretName c p) = Inr sec \<and> ca = dataAt sec caKey)"
    by blast
  have props: "cd_AdditionalProperties d \<noteq> Map.empty \<longrightarrow> tlsEnabled (tp_Mode p) \<and>
     (\<exists>h2 cert. env_secret E h2 (clientCertificateSecretName c p) = Inr cert \<and> dataAt cert caKey \<noteq> '''' \<and>
        cd_AdditionalProperties d = [caKey \<mapsto> dataAt cert caKey])"
  proof (cases "ca = ''''")
    case True
    then show ?thesis by (simp add: d)
  next
    case False
    with p(3) obtain cert where "tlsEnabled (tp_Mode p)" "env_secret E h1 (clientCertificateSecretName c p) = Inr cert"
      "ca = dataAt cert caKey" by blast
    moreover from this False have "dataAt cert caKey \<noteq> ''''" "cd_AdditionalProperties d = [caKey \<mapsto> dataAt cert caKey]"
      by (simp_all add: d)
    ultimately show ?thesis by blast
  qed
  have fields: "cd_Username d = ?u" "cd_Password d = ?p" "cd_Host d = host"
    "cd_URI d = connectionURI (cd_Username d) (cd_Password d) (cd_Host d) (tp_Mode p = TLSModeRequire)"
    by (simp_all add: d p(2))
  show ?thesis
  proof (intro conjI)
    show "\<exists>h1. withoutHiddenHosts L E cr (pst_Host (cr_Status cr)) (h @ [Get KSecret (usersSecretOf (c_Name c))]) = (Inr (cd_Host d), h1)"
      unfolding fields(3) by (rule exI) (rule host)
    show "\<exists>tls. tlsParametersOf L c = Inr tls \<and>
       cd_URI d = connectionURI (cd_Username d) (cd_Password d) (cd_Host d) (tp_Mode tls = TLSModeRequire) \<and>
       (cd_AdditionalProperties d \<noteq> Map.empty \<longrightarrow> tlsEnabled (tp_Mode tls) \<and>
          (\<exists>h2 cert. env_secret E h2 (clientCertificateSecretName c tls) = Inr cert \<and> dataAt cert caKey \<noteq> '''' \<and>
             cd_AdditionalProperties d = [caKey \<mapsto> dataAt cert caKey]))"
      by (rule exI [of _ p], intro conjI) (rule p(1), rule fields(4), rule props)
  qed (rule fields(1), rule fields(2), rule readOnly_writes [OF readOnly_buildConnectionDetails run])
qed

definition adminSecret :: secret where
  "adminSecret = suppliedSecret\<lparr>sec_Data := [''MONGODB_DATABASE_ADMIN_USER'' \<mapsto> ''databaseAdmin'',
     ''MONGODB_DATABASE_ADMIN_PASSWORD'' \<mapsto> ''s3cret'']\<rparr>"

theorem connection_details_exact_witness:
  "\<exists>d h'. buildConnectionDetails plainLib (emptyCluster\<lparr>env_secret := \<lambda>h n. Inr adminSecret\<rparr>) bareCtx readyEngine [] = (Inr d, h') \<and>
     cd_Username d = ''databaseAdmin'' \<and> cd_Password d = ''s3cret'' \<and> writes h' = []"
proof -
  let ?E = "emptyCluster\<lparr>env_secret := \<lambda>h n. Inr adminSecret\<rparr>"
  obtain b h' where built: "buildConnectionDetails plainLib ?E bareCtx readyEngine [] = (b, h')"
    by (cases "buildConnectionDetails plainLib ?E bareCtx readyEngine []")
  have "\<not> isl (fst (buildConnectionDetails plainLib ?E bareCtx readyEngine []))" by code_simp
  with built obtain d where run: "buildConnectionDetails plainLib ?E bareCtx readyEngine [] = (Inr d, h')" by (cases b) auto
  have sec: "env_secret ?E [] (usersSecretOf (c_Name bareCtx)) = Inr adminSecret" by simp
  have "dataAt adminSecret (lib_databaseAdminUser plainLib) = ''databaseAdmin''"
    "dataAt adminSecret (lib_databaseAdminPassword plainLib) = ''s3cret''"
    by (simp_all add: dataAt_def adminSecret_def plainLib_def)
  moreover have "writes [] = []" by (simp add: writes_def)
  ultimately show ?thesis using run connection_details_exact [OF run sec] by metis
qed

text \<open>Reading a connection URI back: the user up to the first colon, the password up to the first at sign, the hosts up to the first
  slash, as a client does.\<close>

definition cutAt :: "char \<Rightarrow> string \<Rightarrow> string \<times> string" where
  "cutAt ch s = (takeWhile (\<lambda>x. x \<noteq> ch) s, drop 1 (dropWhile (\<lambda>x. x \<noteq> ch) s))"

definition readURI :: "string \<Rightarrow> string \<times> string \<times> string \<times> bool" where
  "readURI s =
     (let (username, s1) = cutAt CHR '':'' (trimPrefix s ''mongodb://'');
          (password, s2) = cutAt CHR ''@'' s1;
          (host, s3) = cutAt CHR ''/'' s2
      in (username, password, host, s3 = ''admin?tls=true''))"

lemma cutAt_join: "ch \<notin> set a \<Longrightarrow> cutAt ch (a @ ch # b) = (a, b)"
  by (induction a) (auto simp: cutAt_def)

text \<open>C40. The URI reads back to what it was made of: a client that reads it gets the same user, password, hosts and TLS flag,
  provided that the user has no colon, the password no at sign and the host list no slash, since the code does not escape them.\<close>

theorem connection_uri_roundtrip:
  assumes "CHR '':'' \<notin> set username" "CHR ''@'' \<notin> set password" "CHR ''/'' \<notin> set host"
  shows "readURI (connectionURI username password host tlsRequired) = (username, password, host, tlsRequired)"
proof -
  have "trimPrefix (connectionURI username password host tlsRequired) ''mongodb://'' =
      username @ CHR '':'' # password @ CHR ''@'' # host @ CHR ''/'' # ''admin?tls='' @ formatBool tlsRequired"
    by (simp add: connectionURI_def trimPrefix_def hasPrefix_def)
  moreover have "(''admin?tls='' @ formatBool tlsRequired = ''admin?tls=true'') = tlsRequired"
    by (simp add: formatBool_def)
  ultimately show ?thesis
    using assms by (simp add: readURI_def cutAt_join)
qed

theorem connection_uri_roundtrip_witness:
  "readURI (connectionURI ''databaseAdmin'' ''s3cret'' ''m-0:27017,m-1:27017'' True) =
     (''databaseAdmin'', ''s3cret'', ''m-0:27017,m-1:27017'', True)"
  by (rule connection_uri_roundtrip) simp_all

text \<open>Without the proviso on the password the URI names another host.\<close>

lemma connection_uri_unescaped:
  "readURI (connectionURI ''admin'' ''p@evil/'' ''m-0'' True) = (''admin'', ''p'', ''evil'', False)"
  by code_simp

end
