(* ===== verification/Provider_Main.thy ===== *)
theory Provider_Main
  imports Cluster_Status
begin

text \<open>
  The process around the reconciler: the bundled operator's CRDs (internal/operatorcrds), the provider object with its watches
  (the end of provider.go) and \<^verbatim>\<open>main\<close> (cmd/provider/main.go) with its exit code. The preflight, the manager and
  the decoder of the embedded manifest are the runtime's; their answers come from the environment.
\<close>

section \<open>The bundled operator's CRDs\<close>

definition fieldOwner :: string where
  "fieldOwner = ''provider-percona-server-mongodb''"

text \<open>The documents of the embedded manifest in order, each as the decoder returns it.\<close>

fun collectCRDs :: "lib \<Rightarrow> (go_error + yamlMap) list \<Rightarrow> go_error + yamlMap list" where
  "collectCRDs L [] = Inr []"
| "collectCRDs L (Inl e # docs) = Inl (Wrap ''decode operator CRDs'' e)"
| "collectCRDs L (Inr obj # docs) =
     (if obj = [] then collectCRDs L docs
      else if lib_getKind L obj \<noteq> ''CustomResourceDefinition''
      then Inl (Errorf (''operator CRD manifest holds a '' @ lib_getKind L obj))
      else (case collectCRDs L docs of
              Inl e \<Rightarrow> Inl e
            | Inr crds \<Rightarrow> Inr (lib_removeNestedField L (lib_removeNestedField L obj [''status''])
                                [''metadata'', ''creationTimestamp''] # crds)))"

definition CRDs :: "lib \<Rightarrow> env \<Rightarrow> go_error + yamlMap list" where
  "CRDs L E = collectCRDs L (env_crdDocuments E)"

fun applyAll :: "lib \<Rightarrow> env \<Rightarrow> yamlMap list \<Rightarrow> unit act" where
  "applyAll L E [] = returnIO ()"
| "applyAll L E (crd # crds) =
     bindIO (wrapIO (''apply CRD '' @ lib_getName L crd) (writeCall E (ApplyCRD fieldOwner True crd))) (\<lambda>_. applyAll L E crds)"

definition Apply :: "lib \<Rightarrow> env \<Rightarrow> unit act" where
  "Apply L E = bindIO (liftIO (CRDs L E)) (applyAll L E)"

section \<open>The provider object\<close>

datatype watchConfig = WatchOwned kind | WatchExternal kind "watched \<Rightarrow> request list"

record psmdbProvider =
  pr_ProviderName :: string
  pr_SchemeFuncs :: "string list"
  pr_WatchConfigs :: "watchConfig list"
  pr_Client :: bool

definition NewPSMDBProviderInterface :: psmdbProvider where
  "NewPSMDBProviderInterface =
     \<lparr>pr_ProviderName = ''percona-server-mongodb'',
      pr_SchemeFuncs = [''psmdbv1'', ''monitoringv1alpha1'', ''appsv1''],
      pr_WatchConfigs =
        [WatchOwned KPSMDB,
         WatchExternal KRestore enqueueRestoreInstance,
         WatchExternal KOpBackup enqueueOperatorBackupInstance],
      pr_Client = False\<rparr>"

definition SetClient :: "psmdbProvider \<Rightarrow> psmdbProvider" where
  "SetClient p = p\<lparr>pr_Client := True\<rparr>"

definition providerSync :: "lib \<Rightarrow> env \<Rightarrow> ctx \<Rightarrow> unit act" where
  "providerSync L E c = SyncPSMDB L E c"

definition providerStatus :: "lib \<Rightarrow> env \<Rightarrow> ctx \<Rightarrow> status act" where
  "providerStatus L E c = StatusPSMDB L E c"

definition providerCleanup :: "env \<Rightarrow> ctx \<Rightarrow> unit act" where
  "providerCleanup E c = CleanupPSMDB E c"

text \<open>The kind of the operator's backups that the runtime mirrors.\<close>

definition OperatorBackupType :: kind where
  "OperatorBackupType = KOpBackup"

definition BackupWatches :: "watchConfig list" where
  "BackupWatches = [WatchOwned KOpBackup]"

definition RestoreWatches :: "watchConfig list" where
  "RestoreWatches = [WatchOwned KOpRestore]"

section \<open>The process\<close>

record flags =
  fl_ServerPort :: int
  fl_MetricsBindAddress :: string
  fl_PreflightSpec :: string
  fl_ApplyOperatorCRDs :: bool
  fl_Admission :: bool

definition defaultFlags :: flags where
  "defaultFlags = \<lparr>fl_ServerPort = 8082, fl_MetricsBindAddress = '':8081'', fl_PreflightSpec = '''',
     fl_ApplyOperatorCRDs = False, fl_Admission = True\<rparr>"

definition applyBundledOperatorCRDs :: "lib \<Rightarrow> env \<Rightarrow> unit act" where
  "applyBundledOperatorCRDs L E =
     bindIO (wrapIO ''get kubeconfig'' (liftIO (orError (env_kubeConfig E)))) (\<lambda>_.
     bindIO (wrapIO ''create client'' (liftIO (orError (env_newClient E)))) (\<lambda>_.
     bindIO (Apply L E) (\<lambda>_.
     printLine ''operator CRDs applied'')))"

definition runPreflight :: "env \<Rightarrow> string \<Rightarrow> unit act" where
  "runPreflight E spec = callIO (RunPreflight spec) (\<lambda>h. orError (env_preflight E h spec))"

definition newReconciler :: "env \<Rightarrow> reconcilerOption list \<Rightarrow> unit act" where
  "newReconciler E opts = callIO (NewReconciler opts) (\<lambda>h. orError (env_newReconciler E h opts))"

definition startReconciler :: "env \<Rightarrow> psmdbProvider \<Rightarrow> unit act" where
  "startReconciler E p = callIO (StartReconciler (pr_Client p)) (\<lambda>h. orError (env_startReconciler E h))"

definition reconcilerOptions :: "flags \<Rightarrow> reconcilerOption list" where
  "reconcilerOptions fl =
     [WithServer (fl_ServerPort fl)] @
     (if fl_MetricsBindAddress fl \<noteq> ''0'' then [WithMetrics (fl_MetricsBindAddress fl)] else []) @
     (if fl_Admission fl then [WithAdmission] else [])"

text \<open>The pre-upgrade hook and the reconciler process, each with the exit code it ends with.\<close>

definition preflightMain :: "lib \<Rightarrow> env \<Rightarrow> flags \<Rightarrow> int act" where
  "preflightMain L E fl =
     handleIO (runPreflight E (fl_PreflightSpec fl)) (\<lambda>r. case r of
       Inl e \<Rightarrow> if \<not> lib_isUpgradeBlocked L e
                then bindIO (printLine (''upgrade preflight could not run: '' @ errText (lib_errText L) e)) (\<lambda>_. returnIO 1)
                else returnIO 1
     | Inr _ \<Rightarrow>
         if fl_ApplyOperatorCRDs fl
         then handleIO (applyBundledOperatorCRDs L E) (\<lambda>r. case r of
                Inl e \<Rightarrow> bindIO (printLine (''upgrade preflight could not apply the operator CRDs: '' @ errText (lib_errText L) e))
                           (\<lambda>_. returnIO 1)
              | Inr _ \<Rightarrow> returnIO 0)
         else returnIO 0)"

definition reconcilerMain :: "env \<Rightarrow> flags \<Rightarrow> psmdbProvider \<Rightarrow> int act" where
  "reconcilerMain E fl p =
     handleIO (newReconciler E (reconcilerOptions fl)) (\<lambda>r. case r of
       Inl _ \<Rightarrow> returnIO 1
     | Inr _ \<Rightarrow> handleIO (startReconciler E (SetClient p)) (\<lambda>r. case r of
         Inl _ \<Rightarrow> returnIO 1
       | Inr _ \<Rightarrow> returnIO 0))"

definition mainProgram :: "lib \<Rightarrow> env \<Rightarrow> flags \<Rightarrow> int act" where
  "mainProgram L E fl =
     (if fl_PreflightSpec fl \<noteq> '''' then preflightMain L E fl
      else reconcilerMain E fl NewPSMDBProviderInterface)"
section \<open>Lemmas\<close>

text \<open>What is sent of a document: everything but the fields the API server owns.\<close>

definition strip :: "lib \<Rightarrow> yamlMap \<Rightarrow> yamlMap" where
  "strip L obj = lib_removeNestedField L (lib_removeNestedField L obj [''status'']) [''metadata'', ''creationTimestamp'']"

abbreviation manifestObjects :: "(go_error + yamlMap) list \<Rightarrow> yamlMap list" where
  "manifestObjects docs \<equiv> filter (\<lambda>obj. obj \<noteq> []) (map projr docs)"

lemma collectCRDs_iff:
  "collectCRDs L docs = Inr crds \<longleftrightarrow>
     (\<forall>d \<in> set docs. \<not> isl d) \<and> (\<forall>obj \<in> set (manifestObjects docs). lib_getKind L obj = ''CustomResourceDefinition'') \<and>
     crds = map (strip L) (manifestObjects docs)"
proof (induction L docs arbitrary: crds rule: collectCRDs.induct)
  case (3 L obj docs)
  then show ?case by (auto simp: strip_def split: sum.splits) blast
qed auto

text \<open>Applying stops at the first failure, with that error; without one, every CRD was accepted.\<close>

lemma applyAll_run:
  assumes "applyAll L E crds h = (r, h')"
  shows "(r = Inr () \<and> h' = h @ map (ApplyCRD fieldOwner True) crds) \<or>
    (\<exists>e n. r = Inl e \<and> n < length crds \<and> h' = h @ map (ApplyCRD fieldOwner True) (take (Suc n) crds) \<and>
       env_write E (h @ map (ApplyCRD fieldOwner True) (take n crds)) (ApplyCRD fieldOwner True (crds ! n)) \<noteq> None)"
  using assms
proof (induction crds arbitrary: h)
  case (Cons crd crds)
  show ?case
  proof (cases "env_write E h (ApplyCRD fieldOwner True crd)")
    case (Some e)
    with Cons.prems have "r = Inl (Wrap (''apply CRD '' @ lib_getName L crd) e)" "h' = h @ [ApplyCRD fieldOwner True crd]"
      by (auto simp: bindIO_def wrapIO_def writeCall_def callIO_def)
    with Some show ?thesis by (intro disjI2 exI [of _ "Wrap (''apply CRD '' @ lib_getName L crd) e"] exI [of _ 0]) simp
  next
    case None
    with Cons.prems have "applyAll L E crds (h @ [ApplyCRD fieldOwner True crd]) = (r, h')"
      by (simp add: bindIO_def wrapIO_def writeCall_def callIO_def)
    from Cons.IH [OF this] show ?thesis
    proof (elim disjE exE conjE)
      fix e n
      assume "r = Inl e" "n < length crds"
        "h' = (h @ [ApplyCRD fieldOwner True crd]) @ map (ApplyCRD fieldOwner True) (take (Suc n) crds)"
        "env_write E ((h @ [ApplyCRD fieldOwner True crd]) @ map (ApplyCRD fieldOwner True) (take n crds))
           (ApplyCRD fieldOwner True (crds ! n)) \<noteq> None"
      then show ?thesis by (intro disjI2 exI [of _ e] exI [of _ "Suc n"]) simp
    qed simp
  qed
qed (simp add: returnIO_def)

text \<open>The CRDs are applied in order from the first, all of them on success, none before the client is there.\<close>

lemma applyBundled_run:
  assumes run: "applyBundledOperatorCRDs L E h = (r, h')"
  shows "(r = Inr () \<and> (\<exists>crds. CRDs L E = Inr crds \<and>
       h' = h @ map (ApplyCRD fieldOwner True) crds @ [Print ''operator CRDs applied''])) \<or>
    (\<exists>e. r = Inl e) \<and> (h' = h \<or> (\<exists>crds n. CRDs L E = Inr crds \<and> h' = h @ map (ApplyCRD fieldOwner True) (take n crds)))"
proof (cases "env_kubeConfig E = None \<and> env_newClient E = None")
  case False
  with run show ?thesis
    by (auto simp: applyBundledOperatorCRDs_def bindIO_def wrapIO_def liftIO_def orError_def split: option.splits)
next
  case ready: True
  show ?thesis
  proof (cases "CRDs L E")
    case (Inl e)
    with run ready show ?thesis
      by (auto simp: applyBundledOperatorCRDs_def Apply_def bindIO_def wrapIO_def liftIO_def orError_def)
  next
    case (Inr crds)
    obtain s h1 where all: "applyAll L E crds h = (s, h1)" by (cases "applyAll L E crds h")
    with run ready Inr have "(case s of Inl e \<Rightarrow> (Inl e, h1) | Inr _ \<Rightarrow> (Inr (), h1 @ [Print ''operator CRDs applied''])) = (r, h')"
      by (auto simp: applyBundledOperatorCRDs_def Apply_def bindIO_def wrapIO_def liftIO_def orError_def printLine_def
          callIO_def split: sum.splits)
    with applyAll_run [OF all] Inr show ?thesis by auto
  qed
qed

section \<open>Properties\<close>

text \<open>The CRDs taken from the manifest: reading it succeeds exactly when every document decodes and every non-empty one is a
  CRD; the result is then all of these in the manifest's order, without their status and creation time.\<close>

lemma crds_are_the_manifest:
  "CRDs L E = Inr crds \<longleftrightarrow>
     list_all (\<lambda>d. \<not> isl d) (env_crdDocuments E) \<and>
     list_all (\<lambda>obj. lib_getKind L obj = ''CustomResourceDefinition'') (manifestObjects (env_crdDocuments E)) \<and>
     crds = map (strip L) (manifestObjects (env_crdDocuments E))"
  unfolding CRDs_def collectCRDs_iff list_all_iff by blast

text \<open>How the process ends, and what it has done by then.\<close>

lemma preflightMain_run:
  assumes run: "preflightMain L E fl h = (r, h')"
  shows "(\<exists>e. env_preflight E h (fl_PreflightSpec fl) = Some e \<and> r = Inr 1 \<and>
       (\<exists>ps. h' = h @ RunPreflight (fl_PreflightSpec fl) # map Print ps)) \<or>
    env_preflight E h (fl_PreflightSpec fl) = None \<and>
      (\<exists>cs. h' = h @ RunPreflight (fl_PreflightSpec fl) # cs \<and>
        (if \<not> fl_ApplyOperatorCRDs fl then r = Inr 0 \<and> cs = []
         else (r = Inr 0 \<and> (\<exists>crds. CRDs L E = Inr crds \<and>
                 cs = map (ApplyCRD fieldOwner True) crds @ [Print ''operator CRDs applied''])) \<or>
              (r = Inr 1 \<and> (\<exists>p. cs = [Print p] \<or> (\<exists>crds n. CRDs L E = Inr crds \<and>
                 cs = map (ApplyCRD fieldOwner True) (take n crds) @ [Print p])))))"
proof (cases "env_preflight E h (fl_PreflightSpec fl)")
  case (Some e)
  with run have "r = Inr 1 \<and> (h' = h @ RunPreflight (fl_PreflightSpec fl) # map Print [] \<or>
      h' = h @ RunPreflight (fl_PreflightSpec fl) # map Print [''upgrade preflight could not run: '' @ errText (lib_errText L) e])"
    by (auto simp: preflightMain_def handleIO_def runPreflight_def callIO_def orError_def bindIO_def printLine_def
        returnIO_def split: if_splits)
  with Some show ?thesis by blast
next
  case None
  let ?h = "h @ [RunPreflight (fl_PreflightSpec fl)]"
  show ?thesis
  proof (cases "fl_ApplyOperatorCRDs fl")
    case False
    with run None show ?thesis
      by (auto simp: preflightMain_def handleIO_def runPreflight_def callIO_def orError_def returnIO_def)
  next
    case True
    obtain s h1 where bundled: "applyBundledOperatorCRDs L E ?h = (s, h1)" by (cases "applyBundledOperatorCRDs L E ?h")
    define report where "report e = ''upgrade preflight could not apply the operator CRDs: '' @ errText (lib_errText L) e" for e
    have out: "(case s of Inl e \<Rightarrow> (Inr 1, h1 @ [Print (report e)]) | Inr _ \<Rightarrow> (Inr 0, h1)) = (r, h')"
      using run None True bundled unfolding report_def
      by (auto simp: preflightMain_def handleIO_def runPreflight_def callIO_def orError_def bindIO_def printLine_def
          returnIO_def split: sum.splits)
    from applyBundled_run [OF bundled] show ?thesis
    proof (elim disjE exE conjE)
      fix crds
      assume "s = Inr ()" "CRDs L E = Inr crds"
        "h1 = ?h @ map (ApplyCRD fieldOwner True) crds @ [Print ''operator CRDs applied'']"
      with out have "r = Inr 0"
        "h' = h @ RunPreflight (fl_PreflightSpec fl) # map (ApplyCRD fieldOwner True) crds @ [Print ''operator CRDs applied'']"
        by simp_all
      with None True \<open>CRDs L E = Inr crds\<close> show ?thesis by simp
    next
      fix e
      assume "s = Inl e" "h1 = ?h"
      with out have "r = Inr 1" "h' = h @ RunPreflight (fl_PreflightSpec fl) # [Print (report e)]" by simp_all
      with None True show ?thesis by metis
    next
      fix e crds n
      assume "s = Inl e" and crds: "CRDs L E = Inr crds" and "h1 = ?h @ map (ApplyCRD fieldOwner True) (take n crds)"
      with out have "r = Inr 1"
        "h' = h @ RunPreflight (fl_PreflightSpec fl) # map (ApplyCRD fieldOwner True) (take n crds) @ [Print (report e)]"
        by simp_all
      with None True crds show ?thesis by metis
    qed
  qed
qed

lemma reconcilerMain_run:
  assumes "reconcilerMain E fl p h = (r, h')"
  shows "h' = h @ [NewReconciler (reconcilerOptions fl)] @
      (if env_newReconciler E h (reconcilerOptions fl) = None then [StartReconciler True] else []) \<and>
    r = Inr (if env_newReconciler E h (reconcilerOptions fl) = None \<and>
      env_startReconciler E (h @ [NewReconciler (reconcilerOptions fl)]) = None then 0 else 1)"
  using assms by (auto simp: reconcilerMain_def handleIO_def newReconciler_def startReconciler_def SetClient_def callIO_def
      orError_def returnIO_def split: option.splits)

lemma writes_crds [simp]:
  "writes (map (ApplyCRD f b) crds) = map (ApplyCRD f b) crds" "writes (map Print ps) = []" "writes [] = []"
  "writes (RunPreflight s # cs) = writes cs" "writes (Print p # cs) = writes cs"
  by (simp_all add: writes_def filter_map o_def)

text \<open>C28. What the process does and how it ends: it always ends with exit code 0 or 1. The operator's CRDs are the only thing it writes
  itself; they are written in the manifest's order, under the provider's field owner, only in the preflight run, only when
  asked to and only after the preflight passed, and a preflight run that exits with 0 has passed and, when asked to,
  written all of them. The reconciler starts only outside the preflight run, and with the client already injected.\<close>

theorem crds_only_after_preflight:
  assumes run: "mainProgram L E fl h = (r, h @ cs)"
  shows "(r = Inr 0 \<or> r = Inr 1) \<and>
    (writes cs \<noteq> [] \<longrightarrow> fl_PreflightSpec fl \<noteq> '''' \<and> fl_ApplyOperatorCRDs fl \<and>
       hd cs = RunPreflight (fl_PreflightSpec fl) \<and> env_preflight E h (fl_PreflightSpec fl) = None \<and>
       (\<exists>crds n. CRDs L E = Inr crds \<and> writes cs = map (ApplyCRD fieldOwner True) (take n crds))) \<and>
    (fl_PreflightSpec fl \<noteq> '''' \<and> r = Inr 0 \<longrightarrow> env_preflight E h (fl_PreflightSpec fl) = None \<and>
       (fl_ApplyOperatorCRDs fl \<longrightarrow> (\<exists>crds. CRDs L E = Inr crds \<and> writes cs = map (ApplyCRD fieldOwner True) crds))) \<and>
    (\<forall>b. StartReconciler b \<in> set cs \<longrightarrow> b \<and> fl_PreflightSpec fl = '''')"
proof (cases "fl_PreflightSpec fl = ''''")
  case True
  with run have "reconcilerMain E fl NewPSMDBProviderInterface h = (r, h @ cs)" by (simp add: mainProgram_def)
  from reconcilerMain_run [OF this] True show ?thesis by (auto simp: writes_def split: if_splits)
next
  case False
  with run have "preflightMain L E fl h = (r, h @ cs)" by (simp add: mainProgram_def)
  from preflightMain_run [OF this] show ?thesis
  proof (elim disjE exE conjE)
    fix e ps
    assume "r = Inr 1" "h @ cs = h @ RunPreflight (fl_PreflightSpec fl) # map Print ps"
    then show ?thesis by auto
  next
    fix ds
    assume pass: "env_preflight E h (fl_PreflightSpec fl) = None" and cs: "h @ cs = h @ RunPreflight (fl_PreflightSpec fl) # ds"
      and outcome: "if \<not> fl_ApplyOperatorCRDs fl then r = Inr 0 \<and> ds = []
         else (r = Inr 0 \<and> (\<exists>crds. CRDs L E = Inr crds \<and>
                 ds = map (ApplyCRD fieldOwner True) crds @ [Print ''operator CRDs applied''])) \<or>
              (r = Inr 1 \<and> (\<exists>p. ds = [Print p] \<or> (\<exists>crds n. CRDs L E = Inr crds \<and>
                 ds = map (ApplyCRD fieldOwner True) (take n crds) @ [Print p])))"
    show ?thesis
    proof (cases "fl_ApplyOperatorCRDs fl")
      case False
      with outcome cs pass show ?thesis by simp
    next
      case apply_them: True
      with outcome consider (done_all) crds where "r = Inr 0" "CRDs L E = Inr crds"
          "ds = map (ApplyCRD fieldOwner True) crds @ [Print ''operator CRDs applied'']"
        | (none) p where "r = Inr 1" "ds = [Print p]"
        | (some_of) p crds n where "r = Inr 1" "CRDs L E = Inr crds" "ds = map (ApplyCRD fieldOwner True) (take n crds) @ [Print p]"
        by auto
      then show ?thesis
      proof cases
        case done_all
        with cs have "writes cs = map (ApplyCRD fieldOwner True) crds" "\<And>b. StartReconciler b \<notin> set cs"
          "hd cs = RunPreflight (fl_PreflightSpec fl)"
          by auto
        moreover have "take (length crds) crds = crds" by simp
        ultimately show ?thesis using done_all(1,2) pass apply_them False by metis
      next
        case none
        with cs have "writes cs = []" "\<And>b. StartReconciler b \<notin> set cs" by auto
        with none(1) show ?thesis by simp
      next
        case some_of
        with cs have "writes cs = map (ApplyCRD fieldOwner True) (take n crds)" "\<And>b. StartReconciler b \<notin> set cs"
          "hd cs = RunPreflight (fl_PreflightSpec fl)"
          by auto
        with some_of(1,2) pass apply_them False show ?thesis by auto
      qed
    qed
  qed
qed

definition hookFlags :: flags where
  "hookFlags = defaultFlags\<lparr>fl_PreflightSpec := ''/spec.yaml'', fl_ApplyOperatorCRDs := True\<rparr>"

definition manifestCluster :: env where
  "manifestCluster = emptyCluster\<lparr>env_crdDocuments :=
     [Inr [], Inr [(''kind'', YScalar ''CustomResourceDefinition''), (''status'', YNull)]]\<rparr>"

theorem crds_only_after_preflight_witness:
  "\<exists>cs. mainProgram plainLib manifestCluster hookFlags [] = (Inr 0, cs) \<and>
     writes cs = [ApplyCRD fieldOwner True [(''kind'', YScalar ''CustomResourceDefinition'')]]"
proof -
  obtain r cs where run: "mainProgram plainLib manifestCluster hookFlags [] = (r, [] @ cs)"
    by (cases "mainProgram plainLib manifestCluster hookFlags []") simp
  have "fst (mainProgram plainLib manifestCluster hookFlags []) = Inr 0" by code_simp
  with run have r: "r = Inr 0" by simp
  have crds: "CRDs plainLib manifestCluster = Inr [[(''kind'', YScalar ''CustomResourceDefinition'')]]" by code_simp
  have "fl_PreflightSpec hookFlags \<noteq> ''''" "fl_ApplyOperatorCRDs hookFlags" by (simp_all add: hookFlags_def)
  then have "writes cs = map (ApplyCRD fieldOwner True) [[(''kind'', YScalar ''CustomResourceDefinition'')]]"
    using crds_only_after_preflight [OF run] r crds by auto
  with run r show ?thesis by simp
qed

end
