(* ===== verification/Reconcile_Loop.thy ===== *)
theory Reconcile_Loop
  imports Provider_Main
begin

text \<open>
  The reconcile loop of one Instance. The runtime calls the provider's operations in any order and any number of times, with
  whatever revision of the Instance is current, and between two calls the users and the operator may change the cluster as they
  like (the environment's answers depend on the whole history). \<open>Bs\<close> and \<open>Rs\<close> are the Backups and Restores the runtime hands
  over. \<open>reconciles\<close> holds the histories this can produce; what is shown of them is shown by induction over the calls.
\<close>

section \<open>The loop\<close>

inductive reconciles :: "lib \<Rightarrow> env \<Rightarrow> backup set \<Rightarrow> restore set \<Rightarrow> string \<Rightarrow> string \<Rightarrow> history \<Rightarrow> bool" for L E Bs Rs n ns where
  start: "reconciles L E Bs Rs n ns []"
| sync: "reconciles L E Bs Rs n ns h \<Longrightarrow> c_Name c = n \<Longrightarrow> c_Namespace c = ns \<Longrightarrow>
    providerSync L E c h = (r, h') \<Longrightarrow> reconciles L E Bs Rs n ns h'"
| status: "reconciles L E Bs Rs n ns h \<Longrightarrow> c_Name c = n \<Longrightarrow> c_Namespace c = ns \<Longrightarrow>
    providerStatus L E c h = (s, h') \<Longrightarrow> reconciles L E Bs Rs n ns h'"
| cleanup: "reconciles L E Bs Rs n ns h \<Longrightarrow> c_Name c = n \<Longrightarrow> c_Namespace c = ns \<Longrightarrow>
    providerCleanup E c h = (r, h') \<Longrightarrow> reconciles L E Bs Rs n ns h'"
| references: "reconciles L E Bs Rs n ns h \<Longrightarrow> c_Name c = n \<Longrightarrow> c_Namespace c = ns \<Longrightarrow>
    ValidateReferences L E c h = (f, h') \<Longrightarrow> reconciles L E Bs Rs n ns h'"
| sources: "reconciles L E Bs Rs n ns h \<Longrightarrow> c_Name c = n \<Longrightarrow> c_Namespace c = ns \<Longrightarrow>
    MonitoringSources L E c h = (m, h') \<Longrightarrow> reconciles L E Bs Rs n ns h'"
| storages: "reconciles L E Bs Rs n ns h \<Longrightarrow> c_Name c = n \<Longrightarrow> c_Namespace c = ns \<Longrightarrow>
    BackupStorageStatuses E c h = (t, h') \<Longrightarrow> reconciles L E Bs Rs n ns h'"
| mirror: "reconciles L E Bs Rs n ns h \<Longrightarrow> Mirror E obj h = (b, h') \<Longrightarrow> reconciles L E Bs Rs n ns h'"
| backup: "reconciles L E Bs Rs n ns h \<Longrightarrow> c_Name c = n \<Longrightarrow> c_Namespace c = ns \<Longrightarrow>
    bk \<in> Bs \<Longrightarrow> SyncBackup L E c bk h = (x, h') \<Longrightarrow> reconciles L E Bs Rs n ns h'"
| restore: "reconciles L E Bs Rs n ns h \<Longrightarrow> c_Name c = n \<Longrightarrow> c_Namespace c = ns \<Longrightarrow>
    rs \<in> Rs \<Longrightarrow> SyncRestore L E c rs h = (y, h') \<Longrightarrow> reconciles L E Bs Rs n ns h'"
| backup_gone: "reconciles L E Bs Rs n ns h \<Longrightarrow> bk \<in> Bs \<Longrightarrow> CleanupBackup E bk h = (d, h') \<Longrightarrow> reconciles L E Bs Rs n ns h'"
| restore_gone: "reconciles L E Bs Rs n ns h \<Longrightarrow> rs \<in> Rs \<Longrightarrow> CleanupRestore E rs h = (d, h') \<Longrightarrow> reconciles L E Bs Rs n ns h'"

section \<open>What a call may do\<close>

text \<open>A volume of the Instance's hidden members: one that the cluster lists under the labels of this Instance and of that component.\<close>

definition listedVolume :: "lib \<Rightarrow> env \<Rightarrow> string \<Rightarrow> string \<Rightarrow> bool" where
  "listedVolume L E n m \<longleftrightarrow> (\<exists>h pvcs p.
     env_pvcs E h [(lib_labelKubernetesInstance L, n), (lib_labelKubernetesComponent L, lib_namingComponentHidden L)] = Inr pvcs \<and>
     p \<in> set pvcs \<and> m = pvc_Name p)"

text \<open>The operator's backup of a Backup, respectively its restore of a Restore, as it was found under that name.\<close>

definition backupObject :: "env \<Rightarrow> backup \<Rightarrow> opBackup \<Rightarrow> bool" where
  "backupObject E bk old \<longleftrightarrow> (\<exists>h. env_opBackup E h (bkp_Name bk) = Inr old)"

definition restoreObject :: "env \<Rightarrow> restore \<Rightarrow> opRestore \<Rightarrow> bool" where
  "restoreObject E rs old \<longleftrightarrow> (\<exists>h. env_opRestore E h (res_Name rs) = Inr old)"

text \<open>The calls that stay within the Instance: its own CR, its own users secret, volumes of its own hidden members, and the operator
  backups and restores of its Backups and Restores; no secret is ever deleted.\<close>

definition within :: "lib \<Rightarrow> env \<Rightarrow> backup set \<Rightarrow> restore set \<Rightarrow> string \<Rightarrow> string \<Rightarrow> call \<Rightarrow> bool" where
  "within L E Bs Rs n ns cl = (case cl of
     ApplyPSMDB cr \<Rightarrow> cr_Name cr = n \<and> cr_Namespace cr = ns \<and>
       cr_Finalizers cr = [''percona.com/delete-psmdb-pods-in-order'', ''percona.com/delete-psmdb-pvc''] \<and>
       map_option ss_Users (ps_Secrets (cr_Spec cr)) = Some (''everest-secrets-'' @ n)
   | CreateSecret s \<Rightarrow> sec_Name s = ''everest-secrets-'' @ n \<and> sec_Namespace s = ns
   | ApplySecret m kvs \<Rightarrow> m = ''everest-secrets-'' @ n \<and> set (map fst kvs) \<subseteq> {lib_pmmServerToken L}
   | DeleteObject K m \<Rightarrow>
       K = KPSMDB \<and> m = n \<or> K = KPVC \<and> listedVolume L E n m \<or>
       K = KOpBackup \<and> (\<exists>bk \<in> Bs. \<exists>old. backupObject E bk old \<and> m = ob_Name old) \<or>
       K = KOpRestore \<and> (\<exists>rs \<in> Rs. \<exists>old. restoreObject E rs old \<and> m = or_Name old)
   | CreateOpBackup ob \<Rightarrow> ob_ClusterName ob = n \<and> ''percona.com/delete-backup'' \<in> set (ob_Finalizers ob) \<and>
       (\<exists>bk \<in> Bs. ob_Name ob = bkp_Name bk \<and> ob_Namespace ob = bkp_Namespace bk)
   | UpdateOpBackup ob \<Rightarrow> (\<exists>bk \<in> Bs. \<exists>old. backupObject E bk old \<and> ob_Name ob = ob_Name old \<and> ob_Namespace ob = ob_Namespace old \<and>
       (ob_ClusterName ob = n \<and> ''percona.com/delete-backup'' \<in> set (ob_Finalizers ob) \<or>
        bkp_DeletionPolicy bk = PolicyRetain \<and>
          ob = old\<lparr>ob_Finalizers := filter (\<lambda>f. f \<noteq> ''percona.com/delete-backup'') (ob_Finalizers old)\<rparr>))
   | CreateOpRestore ob \<Rightarrow> or_ClusterName ob = n \<and> (\<exists>rs \<in> Rs. or_Name ob = res_Name rs \<and> or_Namespace ob = res_Namespace rs)
   | UpdateOpRestore ob \<Rightarrow> or_ClusterName ob = n \<and>
       (\<exists>rs \<in> Rs. \<exists>old. restoreObject E rs old \<and> or_Name ob = or_Name old \<and> or_Namespace ob = or_Namespace old)
   | ApplyCRD _ _ _ \<Rightarrow> False | NewReconciler _ \<Rightarrow> False | StartReconciler _ \<Rightarrow> False
   | _ \<Rightarrow> True)"

abbreviation withinQuiet :: "lib \<Rightarrow> env \<Rightarrow> backup set \<Rightarrow> restore set \<Rightarrow> string \<Rightarrow> string \<Rightarrow> call \<Rightarrow> bool" where
  "withinQuiet L E Bs Rs n ns cl \<equiv> within L E Bs Rs n ns cl \<and> notStarted cl"

lemma within_read: "isRead cl \<Longrightarrow> withinQuiet L E Bs Rs n ns cl"
  by (cases cl) (auto simp: within_def)

lemma emits_within_read: "readOnly m \<Longrightarrow> emits (withinQuiet L E Bs Rs n ns) m"
  by (erule emits_mono) (rule within_read)

text \<open>Only listed volumes are deleted.\<close>

definition ownVolume :: "lib \<Rightarrow> env \<Rightarrow> string \<Rightarrow> call \<Rightarrow> bool" where
  "ownVolume L E n cl \<longleftrightarrow> (\<forall>m. cl = DeleteObject KPVC m \<longrightarrow> listedVolume L E n m)"

lemma within_prep: "prepCall cl \<Longrightarrow> ownVolume L E n cl \<Longrightarrow> within L E Bs Rs n ns cl"
  by (cases cl) (auto simp: prepCall_def within_def ownVolume_def)

lemma within_seed: "seedCall c (usersSecretOf (c_Name c)) cl \<Longrightarrow> within L E Bs Rs (c_Name c) (c_Namespace c) cl"
  by (cases cl) (auto simp: seedCall_def within_def managedSecret_def usersSecretOf_def)

lemma within_pmm: "pmmCall L (usersSecretOf n) cl \<Longrightarrow> within L E Bs Rs n ns cl"
  by (cases cl) (auto simp: pmmCall_def within_def usersSecretOf_def)

lemma within_final: "finalCall cl \<Longrightarrow> ownVolume L E n cl \<Longrightarrow> within L E Bs Rs n ns cl"
  by (cases cl) (auto simp: finalCall_def within_def ownVolume_def)

lemma within_applied: "appliedFor L E c h cr \<Longrightarrow> within L E Bs Rs (c_Name c) (c_Namespace c) (ApplyPSMDB cr)"
  by (auto simp: appliedFor_def within_def)

lemma ownVolume_other: "isRead cl \<Longrightarrow> ownVolume L E n cl" "quiet cl \<Longrightarrow> ownVolume L E n cl" "seedCall c t cl \<Longrightarrow> ownVolume L E n cl"
  "pmmCall L t cl \<Longrightarrow> ownVolume L E n cl"
  by (auto simp: ownVolume_def quiet_def seedCall_def pmmCall_def)

lemmas ownVolume_read = emits_mono [OF _ ownVolume_other(1)]
lemmas ownVolume_reads = read_only_intros [THEN ownVolume_read]
lemmas ownVolume_emits = emits_mono [OF _ ownVolume_other(2)] emits_mono [OF emits_seedCredentials ownVolume_other(3)]
  emits_mono [OF emits_applyPMMBindings ownVolume_other(4)]

lemma ownVolume_volumes: "emits (ownVolume L E (c_Name c)) (deleteHiddenVolumes L E c k)"
proof -
  let ?sel = "hiddenSelector L (c_Name c)"
  have "emits (ownVolume L E (c_Name c)) (bindIO (wrapIO ''list hidden pods'' (listPods E ?sel)) (\<lambda>pods. deleteHiddenLoop E pods k pvcs 0))"
    if pvcs: "env_pvcs E h ?sel = Inr pvcs" for pvcs h
  proof (intro emits_bind emits_wrap ownVolume_reads)
    fix pods
    show "emits (ownVolume L E (c_Name c)) (deleteHiddenLoop E pods k pvcs 0)"
      using pvcs by (intro emits_mono [OF deleteHiddenLoop_emits]) (auto simp: ownVolume_def listedVolume_def hiddenSelector_def)
  qed
  then show ?thesis
    unfolding deleteHiddenVolumes_def
    by (intro emits_bind_result emits_wrap ownVolume_reads) (auto simp: call_defs io_simps)
qed

lemma ownVolume_members: "emits (ownVolume L E (c_Name c)) (configureMembers L E c cr)"
proof -
  have "emits (ownVolume L E (c_Name c)) (configureHidden L E c rs)" for rs
    unfolding configureHidden_def Let_def by (auto intro!: emits_bind ownVolume_volumes ownVolume_reads)
  then have "emits (ownVolume L E (c_Name c)) (configureReplsets L E c)"
    unfolding configureReplsets_def Let_def by (auto intro!: emits_bind)
  then show ?thesis
    unfolding configureMembers_def Let_def by (auto intro!: emits_bind ownVolume_reads)
qed

lemma ownVolume_prepare: "emits (ownVolume L E (c_Name c)) (preparePSMDB L E c)"
  unfolding preparePSMDB_def startPSMDB_def Let_def
  by (intro emits_bind emits_return emits_wrap emits_lift ownVolume_members emits_applyScheduling emits_labelPods
      emits_convergedCRVersion [THEN ownVolume_emits(1)] emits_secureClients [THEN ownVolume_emits(1)] ownVolume_reads)

lemma ownVolume_seed: "emits (ownVolume L E n) (seedDataSource L E c)"
proof -
  have "emits (ownVolume L E n) (setDataSourceStatus st)" "emits (ownVolume L E n) (writeCall E ReconcileDataSource)" for st
    unfolding setDataSourceStatus_def writeCall_def by (auto intro!: emits_call simp: ownVolume_def)
  then show ?thesis
    unfolding seedDataSource_def by (auto intro!: emits_handle emits_bind emits_wrap ownVolume_reads split: sum.splits)
qed

lemma ownVolume_sync: "emits (ownVolume L E (c_Name c)) (SyncPSMDB L E c)"
proof -
  have "emits (ownVolume L E (c_Name c)) (buildPSMDB L E c)"
    unfolding buildPSMDB_def
    by (auto intro!: emits_bind ownVolume_prepare ownVolume_emits(2,3) split: prod.splits)
  moreover have "emits (ownVolume L E (c_Name c)) (writeCall E (ApplyPSMDB cr))" for cr
    unfolding writeCall_def by (rule emits_call) (simp add: ownVolume_def)
  moreover have "emits (ownVolume L E (c_Name c)) (deleteUnusedHiddenVolumes L E c)"
    unfolding deleteUnusedHiddenVolumes_def by (auto intro!: emits_bind ownVolume_volumes)
  ultimately show ?thesis
    unfolding SyncPSMDB_def by (auto intro!: emits_bind ownVolume_seed)
qed

section \<open>What each operation keeps\<close>

text \<open>Every start of the initial restore comes after the Instance's CR was applied.\<close>

definition startsAfterApply :: "string \<Rightarrow> history \<Rightarrow> bool" where
  "startsAfterApply n h \<longleftrightarrow>
     (\<forall>i < length h. h ! i = ReconcileDataSource \<longrightarrow> (\<exists>j < i. \<exists>cr. h ! j = ApplyPSMDB cr \<and> cr_Name cr = n))"

lemma startsAfterApply_quiet:
  assumes "startsAfterApply n h" "list_all notStarted cs"
  shows "startsAfterApply n (h @ cs)"
  unfolding startsAfterApply_def
proof (intro allI impI)
  fix i
  assume i: "i < length (h @ cs)" "(h @ cs) ! i = ReconcileDataSource"
  have "i < length h"
  proof (rule ccontr)
    assume "\<not> i < length h"
    with i have "i - length h < length cs" "cs ! (i - length h) = ReconcileDataSource" by (simp_all add: nth_append)
    then have "ReconcileDataSource \<in> set cs" by (metis nth_mem)
    with assms(2) show False by (auto simp: list_all_iff)
  qed
  with i assms(1) obtain j cr where "j < i" "h ! j = ApplyPSMDB cr" "cr_Name cr = n"
    unfolding startsAfterApply_def by (auto simp: nth_append)
  with \<open>i < length h\<close> show "\<exists>j < i. \<exists>cr. (h @ cs) ! j = ApplyPSMDB cr \<and> cr_Name cr = n"
    by (intro exI [of _ j]) (simp add: nth_append)
qed

lemma startsAfterApply_applied:
  assumes "startsAfterApply n h" "ApplyPSMDB cr \<in> set h" "cr_Name cr = n"
  shows "startsAfterApply n (h @ [ReconcileDataSource])"
proof -
  obtain j where j: "j < length h" "h ! j = ApplyPSMDB cr" using assms(2) by (auto simp: in_set_conv_nth)
  have "\<exists>j < i. \<exists>cr. (h @ [ReconcileDataSource]) ! j = ApplyPSMDB cr \<and> cr_Name cr = n"
    if "i < length (h @ [ReconcileDataSource])" "(h @ [ReconcileDataSource]) ! i = ReconcileDataSource" for i
  proof (cases "i < length h")
    case True
    with that assms(1) obtain k cr' where "k < i" "h ! k = ApplyPSMDB cr'" "cr_Name cr' = n"
      unfolding startsAfterApply_def by (auto simp: nth_append)
    with True show ?thesis by (intro exI [of _ k]) (simp add: nth_append)
  next
    case False
    with j assms(3) show ?thesis by (intro exI [of _ j]) (simp add: nth_append)
  qed
  then show ?thesis unfolding startsAfterApply_def by blast
qed

text \<open>The invariant of the loop, and the operations that keep it because they never start the restore.\<close>

definition loopInv :: "lib \<Rightarrow> env \<Rightarrow> backup set \<Rightarrow> restore set \<Rightarrow> string \<Rightarrow> string \<Rightarrow> history \<Rightarrow> bool" where
  "loopInv L E Bs Rs n ns h \<longleftrightarrow> list_all (within L E Bs Rs n ns) h \<and> startsAfterApply n h"

lemma loopInv_quiet:
  assumes "emits (withinQuiet L E Bs Rs n ns) m" "m h = (r, h')" "loopInv L E Bs Rs n ns h"
  shows "loopInv L E Bs Rs n ns h'"
proof -
  obtain cs where "h' = h @ cs" "list_all (withinQuiet L E Bs Rs n ns) cs" using emitsD [OF assms(1,2)] by blast
  moreover from this have "list_all (within L E Bs Rs n ns) cs" "list_all notStarted cs" by (simp_all add: list_all_iff)
  ultimately show ?thesis using assms(3) by (simp add: loopInv_def startsAfterApply_quiet)
qed

lemmas loopInv_read = loopInv_quiet [OF emits_within_read]

lemma readOnly_exec: "readOnly (backupExec E n op e)" "readOnly (restoreExec E n op' e)"
  by (auto simp: backupExec_def restoreExec_def Let_def intro!: emits_bind read_only_intros
      split: opBackupState.splits opRestoreState.splits)

lemma emits_within_write: "withinQuiet L E Bs Rs n ns w \<Longrightarrow> emits (withinQuiet L E Bs Rs n ns) (writeCall E w)"
  unfolding writeCall_def by (rule emits_call)

lemma emits_handle_result:
  assumes "emits P m" "\<And>r h h'. m h = (r, h') \<Longrightarrow> emits P (f r)"
  shows "emits P (handleIO m f)"
  unfolding emits_def
proof
  fix h
  obtain r h1 where m: "m h = (r, h1)" by (cases "m h")
  obtain cs where cs: "h1 = h @ cs" "list_all P cs" using emitsD [OF assms(1) m] by blast
  obtain q h2 where f: "f r h1 = (q, h2)" by (cases "f r h1")
  obtain ds where "h2 = h1 @ ds" "list_all P ds" using emitsD [OF assms(2) [OF m] f] by blast
  with cs m f show "\<exists>cs. snd (handleIO m f h) = h @ cs \<and> list_all P cs" by (auto simp: handleIO_def)
qed

text \<open>\<^verbatim>\<open>CreateOrUpdate\<close> writes a mutation of what it read, or of the fresh object.\<close>

lemma emits_createOrUpdate:
  assumes "emits P getIt" "\<And>ob. mutate fresh = Inr ob \<Longrightarrow> emits P (create ob)"
    "\<And>old ob h h'. getIt h = (Inr old, h') \<Longrightarrow> mutate old = Inr ob \<Longrightarrow> emits P (update ob)"
  shows "emits P (createOrUpdate getIt fresh mutate create update)"
  unfolding createOrUpdate_def
proof (rule emits_handle_result [OF assms(1)])
  fix r h h'
  assume got: "getIt h = (r, h')"
  have new: "emits P (bindIO (liftIO (mutate fresh)) (\<lambda>ob. bindIO (create ob) (\<lambda>_. returnIO ob)))"
    by (intro emits_bind_result emits_lift emits_bind emits_return assms(2)) (auto simp: liftIO_def)
  have "emits P (bindIO (liftIO (mutate old)) (\<lambda>ob. if ob = old then returnIO ob else bindIO (update ob) (\<lambda>_. returnIO ob)))"
    if "r = Inr old" for old
    using got that
    by (intro emits_bind_result emits_lift) (auto simp: liftIO_def intro!: emits_bind emits_return assms(3))
  with new show "emits P (case r of
      Inl e \<Rightarrow> if \<not> isNotFound e then failIO e else bindIO (liftIO (mutate fresh)) (\<lambda>ob. bindIO (create ob) (\<lambda>_. returnIO ob))
    | Inr existing \<Rightarrow> bindIO (liftIO (mutate existing))
        (\<lambda>ob. if ob = existing then returnIO ob else bindIO (update ob) (\<lambda>_. returnIO ob)))"
    by (auto split: sum.splits)
qed

lemma getOpBackup_object: "getOpBackup E (bkp_Name bk) h = (Inr old, h') \<Longrightarrow> backupObject E bk old"
  by (auto simp: backupObject_def call_defs callIO_def)

lemma getOpRestore_object: "getOpRestore E (res_Name rs) h = (Inr old, h') \<Longrightarrow> restoreObject E rs old"
  by (auto simp: restoreObject_def call_defs callIO_def)

lemma mutateOpRestore_written:
  "mutateOpRestore L c r mode pitr ob = Inr ob' \<Longrightarrow>
     or_ClusterName ob' = c_Name c \<and> or_Name ob' = or_Name ob \<and> or_Namespace ob' = or_Namespace ob"
  by (auto simp: mutateOpRestore_def mapRight_def Let_def split: sum.splits restoreMode.splits)

lemmas within_reads = readOnly_exec [THEN emits_within_read] read_only_intros [THEN emits_within_read]

lemma emits_within_putBackup:
  assumes "bk \<in> Bs"
  shows "emits (withinQuiet L E Bs Rs (c_Name c) ns) (createOrUpdate (getOpBackup E (bkp_Name bk)) (newOpBackup bk) (mutateOpBackup L c bk)
    (\<lambda>ob. writeCall E (CreateOpBackup ob)) (\<lambda>ob. writeCall E (UpdateOpBackup ob)))"
proof (intro emits_createOrUpdate within_reads emits_within_write)
  show "withinQuiet L E Bs Rs (c_Name c) ns (CreateOpBackup ob)" if "mutateOpBackup L c bk (newOpBackup bk) = Inr ob" for ob
    using mutateOpBackup_fits [OF that] assms by (auto simp: within_def newOpBackup_def backupFits_def)
  show "withinQuiet L E Bs Rs (c_Name c) ns (UpdateOpBackup ob)"
    if "getOpBackup E (bkp_Name bk) h = (Inr old, h')" "mutateOpBackup L c bk old = Inr ob" for old ob h h'
    using mutateOpBackup_fits [OF that(2)] getOpBackup_object [OF that(1)] assms by (auto simp: within_def backupFits_def)
qed

lemma emits_within_putRestore:
  assumes "rs \<in> Rs"
  shows "emits (withinQuiet L E Bs Rs (c_Name c) ns) (createOrUpdate (getOpRestore E (res_Name rs)) (newOpRestore rs)
    (mutateOpRestore L c rs mode pitr) (\<lambda>ob. writeCall E (CreateOpRestore ob)) (\<lambda>ob. writeCall E (UpdateOpRestore ob)))"
proof (intro emits_createOrUpdate within_reads emits_within_write)
  show "withinQuiet L E Bs Rs (c_Name c) ns (CreateOpRestore ob)" if "mutateOpRestore L c rs mode pitr (newOpRestore rs) = Inr ob" for ob
    using mutateOpRestore_written [OF that] assms by (auto simp: within_def newOpRestore_def)
  show "withinQuiet L E Bs Rs (c_Name c) ns (UpdateOpRestore ob)"
    if "getOpRestore E (res_Name rs) h = (Inr old, h')" "mutateOpRestore L c rs mode pitr old = Inr ob" for old ob h h'
    using mutateOpRestore_written [OF that(2)] getOpRestore_object [OF that(1)] assms by (auto simp: within_def)
qed

lemma emits_SyncBackup: "bk \<in> Bs \<Longrightarrow> emits (withinQuiet L E Bs Rs (c_Name c) ns) (SyncBackup L E c bk)"
  unfolding SyncBackup_def
  by (auto intro!: emits_handle emits_bind emits_wrap emits_within_putBackup within_reads split: sum.splits)

lemma emits_SyncRestore: "rs \<in> Rs \<Longrightarrow> emits (withinQuiet L E Bs Rs (c_Name c) ns) (SyncRestore L E c rs)"
  unfolding SyncRestore_def
  by (auto intro!: emits_bind emits_wrap emits_within_putRestore within_reads split: sum.splits prod.splits)

lemma emits_CleanupBackup:
  assumes "bk \<in> Bs"
  shows "emits (withinQuiet L E Bs Rs n ns) (CleanupBackup E bk)"
  unfolding CleanupBackup_def
proof (intro emits_handle_result within_reads)
  fix r h h'
  assume got: "getOpBackup E (bkp_Name bk) h = (r, h')"
  have "withinQuiet L E Bs Rs n ns (DeleteObject KOpBackup (ob_Name old))" if "r = Inr old" for old
    using getOpBackup_object [of E bk h old h'] got that assms by (auto simp: within_def)
  moreover have "withinQuiet L E Bs Rs n ns (UpdateOpBackup (old\<lparr>ob_Finalizers :=
      filter (\<lambda>f. f \<noteq> psmdbDeleteBackupFinalizer) (ob_Finalizers old)\<rparr>))" if "r = Inr old" "bkp_DeletionPolicy bk = PolicyRetain" for old
    using getOpBackup_object [of E bk h old h'] got that assms by (auto simp: within_def psmdbDeleteBackupFinalizer_def)
  ultimately show "emits (withinQuiet L E Bs Rs n ns) (case r of
      Inl e \<Rightarrow> if isNotFound e then returnIO True else failIO (Wrap ''get PSMDB backup for cleanup'' e)
    | Inr ob \<Rightarrow>
         bindIO (if bkp_DeletionPolicy bk = PolicyRetain \<and> psmdbDeleteBackupFinalizer \<in> set (ob_Finalizers ob)
                 then wrapIO ''remove finalizer from PSMDB backup''
                        (writeCall E (UpdateOpBackup (ob\<lparr>ob_Finalizers :=
                           filter (\<lambda>f. f \<noteq> psmdbDeleteBackupFinalizer) (ob_Finalizers ob)\<rparr>)))
                 else returnIO ()) (\<lambda>_.
         bindIO (if ob_Deleting ob then returnIO ()
                 else wrapIO ''delete PSMDB backup'' (writeCall E (DeleteObject KOpBackup (ob_Name ob)))) (\<lambda>_.
         returnIO False)))"
    by (cases r) (auto intro!: emits_bind emits_wrap emits_within_write)
qed

lemma emits_CleanupRestore:
  assumes "rs \<in> Rs"
  shows "emits (withinQuiet L E Bs Rs n ns) (CleanupRestore E rs)"
  unfolding CleanupRestore_def
proof (intro emits_handle_result within_reads)
  fix r h h'
  assume got: "getOpRestore E (res_Name rs) h = (r, h')"
  have "withinQuiet L E Bs Rs n ns (DeleteObject KOpRestore (or_Name old))" if "r = Inr old" for old
    using getOpRestore_object [of E rs h old h'] got that assms by (auto simp: within_def)
  then show "emits (withinQuiet L E Bs Rs n ns) (case r of
      Inl e \<Rightarrow> if isNotFound e then returnIO True else failIO (Wrap ''get PSMDB restore for cleanup'' e)
    | Inr ob \<Rightarrow>
         bindIO (if or_Deleting ob then returnIO ()
                 else wrapIO ''delete PSMDB restore'' (writeCall E (DeleteObject KOpRestore (or_Name ob)))) (\<lambda>_.
         returnIO False))"
    by (cases r) (auto intro!: emits_bind emits_wrap emits_within_write)
qed

lemma emits_CleanupPSMDB: "emits (withinQuiet L E Bs Rs (c_Name c) ns) (CleanupPSMDB E c)"
  unfolding CleanupPSMDB_def by (rule emits_within_write) (simp add: within_def)

text \<open>A sync keeps the invariant: its phases stay within the Instance, and its gate comes after the CR.\<close>

lemma within_sync:
  assumes run: "SyncPSMDB L E c h = (r, h')"
  shows "\<exists>cs. h' = h @ cs \<and> list_all (within L E Bs Rs (c_Name c) (c_Namespace c)) cs"
  using run
proof (rule SyncPSMDB_phases)
  fix prep creds pmm ap final
  let ?W = "within L E Bs Rs (c_Name c) (c_Namespace c)"
  assume h': "h' = h @ prep @ creds @ pmm @ ap @ final" and prep: "list_all prepCall prep" and
    creds: "list_all (seedCall c (usersSecretOf (c_Name c))) creds" and
    pmm: "list_all (pmmCall L (usersSecretOf (c_Name c))) pmm" and final: "list_all finalCall final" and
    ap: "ap = [] \<and> final = [] \<or> (\<exists>cr. ap = [ApplyPSMDB cr] \<and> appliedFor L E c h cr)"
  have own: "list_all (ownVolume L E (c_Name c)) (prep @ creds @ pmm @ ap @ final)"
    using emitsD [OF ownVolume_sync run] h' by auto
  have "list_all ?W prep" using prep own within_prep by (auto simp: list_all_iff)
  moreover have "list_all ?W creds" using creds within_seed by (auto simp: list_all_iff)
  moreover have "list_all ?W pmm" using pmm within_pmm by (auto simp: list_all_iff)
  moreover have "list_all ?W final" using final own within_final by (auto simp: list_all_iff)
  moreover have "list_all ?W ap" using ap within_applied by auto
  ultimately show ?thesis using h' by simp
qed

lemma startsAfterApply_seed:
  assumes seed: "seedDataSource L E c h = (q, h')" and inv: "startsAfterApply n h"
    and ap: "ApplyPSMDB cr \<in> set h" "cr_Name cr = n"
  shows "startsAfterApply n h'"
proof (cases "in_DataSource (c_Instance c) = None")
  case True
  with seedDataSource_none [OF seed] inv show ?thesis by simp
next
  case False
  let ?get = "[Get KPSMDB (c_Name c)]"
  have got: "startsAfterApply n (h @ ?get)" using inv by (rule startsAfterApply_quiet) simp
  note outcome = seedDataSource_cases [OF seed False]
  show ?thesis
  proof (cases "env_psmdb E h (c_Name c)")
    case (Inl e)
    with outcome got show ?thesis by simp
  next
    case (Inr live)
    show ?thesis
    proof (cases "gateOpen live")
      case True
      with outcome Inr have "h' = (h @ ?get) @ [ReconcileDataSource]" by simp
      moreover have "ApplyPSMDB cr \<in> set (h @ ?get)" using ap(1) by simp
      ultimately show ?thesis using startsAfterApply_applied [OF got _ ap(2)] by blast
    next
      case False
      with outcome Inr obtain st where "h' = (h @ ?get) @ [SetDataSourceStatus st]" by auto
      then show ?thesis using startsAfterApply_quiet [OF got] by simp
    qed
  qed
qed

lemma loopInv_sync:
  assumes run: "SyncPSMDB L E c h = (r, h')" and inv: "loopInv L E Bs Rs (c_Name c) (c_Namespace c) h"
  shows "loopInv L E Bs Rs (c_Name c) (c_Namespace c) h'"
proof -
  obtain cs where cs: "h' = h @ cs" "list_all (within L E Bs Rs (c_Name c) (c_Namespace c)) cs" using within_sync [OF run] by blast
  have order: "startsAfterApply (c_Name c) h" using inv by (simp add: loopInv_def)
  have "startsAfterApply (c_Name c) h'"
    using SyncPSMDB_gate [OF run]
  proof (elim disjE exE conjE)
    fix cs' e
    assume "h' = h @ cs'" "list_all notStarted cs'"
    then show ?thesis using startsAfterApply_quiet [OF order] by simp
  next
    fix ds cr q
    assume ds: "list_all notStarted ds" "ApplyPSMDB cr \<in> set ds" and seed: "seedDataSource L E c (h @ ds) = (q, h')"
    obtain es where "h' = (h @ ds) @ es" using emitsD [OF emits_seedDataSource seed] by blast
    with cs have "cs = ds @ es" by simp
    with cs(2) ds(2) have "within L E Bs Rs (c_Name c) (c_Namespace c) (ApplyPSMDB cr)" by (auto simp: list_all_iff)
    then have "cr_Name cr = c_Name c" by (simp add: within_def)
    with seed startsAfterApply_quiet [OF order ds(1)] ds(2) show ?thesis
      using startsAfterApply_seed [of L E c "h @ ds" q h' "c_Name c" cr] by simp
  qed
  with cs inv show ?thesis by (simp add: loopInv_def)
qed

lemma loopInv_reachable:
  assumes "reconciles L E Bs Rs n ns h"
  shows "loopInv L E Bs Rs n ns h"
  using assms
proof (induction rule: reconciles.induct)
  case start
  then show ?case by (simp add: loopInv_def startsAfterApply_def)
next
  case (sync h c r h')
  then show ?case using loopInv_sync [of L E c h r h'] by (simp add: providerSync_def)
next
  case (status h c s h')
  then show ?case using loopInv_read [OF readOnly_StatusPSMDB] by (simp add: providerStatus_def)
next
  case (cleanup h c r h')
  then show ?case using loopInv_quiet [OF emits_CleanupPSMDB] by (auto simp: providerCleanup_def)
next
  case (references h c f h')
  then show ?case using loopInv_read [OF readOnly_ValidateReferences] by blast
next
  case (sources h c m h')
  then show ?case using loopInv_read [OF readOnly_MonitoringSources] by blast
next
  case (storages h c t h')
  then show ?case using loopInv_read [OF readOnly_BackupStorageStatuses] by blast
next
  case (mirror h obj b h')
  then show ?case using loopInv_read [OF readOnly_Mirror] by blast
next
  case (backup h c bk x h')
  then show ?case using loopInv_quiet [OF emits_SyncBackup] by blast
next
  case (restore h c rs y h')
  then show ?case using loopInv_quiet [OF emits_SyncRestore] by blast
next
  case (backup_gone h bk d h')
  then show ?case using loopInv_quiet [OF emits_CleanupBackup] by blast
next
  case (restore_gone h rs d h')
  then show ?case using loopInv_quiet [OF emits_CleanupRestore] by blast
qed

section \<open>Properties\<close>

text \<open>C4. The reconcile loop stays within its Instance: in every history that the provider's operations can produce, in any order, with
  any revision of the Instance and any answers, every CR applied is the Instance's own and names its users secret; no secret but
  that one is created, nothing but the PMM token is changed in it and no secret is deleted; the only CR deleted is the Instance's,
  the only volumes those the cluster lists under the Instance's label as hidden members', the only operator backups and restores
  those found under the names of the Backups and Restores handed over. Every operator backup or restore created or updated is for the
  Instance's cluster and under the name of such a Backup or Restore, backups with the finalizer that keeps their data, apart from
  the clean-up of a retained Backup, which takes just that finalizer out. CRDs are never touched; and the initial restore is never
  started before the CR was applied.\<close>

theorem reconcile_loop_safe:
  assumes "reconciles L E Bs Rs n ns h"
  shows "(\<forall>cr. ApplyPSMDB cr \<in> set h \<longrightarrow> cr_Name cr = n \<and> cr_Namespace cr = ns \<and>
       cr_Finalizers cr = [''percona.com/delete-psmdb-pods-in-order'', ''percona.com/delete-psmdb-pvc''] \<and>
       (\<exists>s. ps_Secrets (cr_Spec cr) = Some s \<and> ss_Users s = ''everest-secrets-'' @ n)) \<and>
    (\<forall>s. CreateSecret s \<in> set h \<longrightarrow> sec_Name s = ''everest-secrets-'' @ n \<and> sec_Namespace s = ns) \<and>
    (\<forall>m kvs. ApplySecret m kvs \<in> set h \<longrightarrow> m = ''everest-secrets-'' @ n \<and> set (map fst kvs) \<subseteq> {lib_pmmServerToken L}) \<and>
    (\<forall>K m. DeleteObject K m \<in> set h \<longrightarrow>
       K = KPSMDB \<and> m = n \<or> K = KPVC \<and> listedVolume L E n m \<or>
       K = KOpBackup \<and> (\<exists>bk \<in> Bs. \<exists>old. backupObject E bk old \<and> m = ob_Name old) \<or>
       K = KOpRestore \<and> (\<exists>rs \<in> Rs. \<exists>old. restoreObject E rs old \<and> m = or_Name old)) \<and>
    (\<forall>ob. CreateOpBackup ob \<in> set h \<longrightarrow> ob_ClusterName ob = n \<and> ''percona.com/delete-backup'' \<in> set (ob_Finalizers ob) \<and>
       (\<exists>bk \<in> Bs. ob_Name ob = bkp_Name bk \<and> ob_Namespace ob = bkp_Namespace bk)) \<and>
    (\<forall>ob. UpdateOpBackup ob \<in> set h \<longrightarrow>
       (\<exists>bk \<in> Bs. \<exists>old. backupObject E bk old \<and> ob_Name ob = ob_Name old \<and> ob_Namespace ob = ob_Namespace old \<and>
          (ob_ClusterName ob = n \<and> ''percona.com/delete-backup'' \<in> set (ob_Finalizers ob) \<or>
           bkp_DeletionPolicy bk = PolicyRetain \<and>
             ob = old\<lparr>ob_Finalizers := filter (\<lambda>f. f \<noteq> ''percona.com/delete-backup'') (ob_Finalizers old)\<rparr>))) \<and>
    (\<forall>ob. CreateOpRestore ob \<in> set h \<longrightarrow> or_ClusterName ob = n \<and>
       (\<exists>rs \<in> Rs. or_Name ob = res_Name rs \<and> or_Namespace ob = res_Namespace rs)) \<and>
    (\<forall>ob. UpdateOpRestore ob \<in> set h \<longrightarrow> or_ClusterName ob = n \<and>
       (\<exists>rs \<in> Rs. \<exists>old. restoreObject E rs old \<and> or_Name ob = or_Name old \<and> or_Namespace ob = or_Namespace old)) \<and>
    (\<forall>f b crd. ApplyCRD f b crd \<notin> set h) \<and>
    (\<forall>i < length h. h ! i = ReconcileDataSource \<longrightarrow> (\<exists>j < i. \<exists>cr. h ! j = ApplyPSMDB cr \<and> cr_Name cr = n))"
proof -
  have inv: "cl \<in> set h \<Longrightarrow> within L E Bs Rs n ns cl" for cl
    using loopInv_reachable [OF assms] by (auto simp: loopInv_def list_all_iff)
  have order: "startsAfterApply n h" using loopInv_reachable [OF assms] by (simp add: loopInv_def)
  show ?thesis
  proof (intro conjI allI impI)
    fix f b crd
    show "ApplyCRD f b crd \<notin> set h" using inv [of "ApplyCRD f b crd"] by (auto simp: within_def)
  next
    fix i assume "i < length h" "h ! i = ReconcileDataSource"
    then show "\<exists>j < i. \<exists>cr. h ! j = ApplyPSMDB cr \<and> cr_Name cr = n"
      using order unfolding startsAfterApply_def by blast
  qed (drule inv, simp add: within_def; fail)+
qed

theorem reconcile_loop_safe_witness:
  "(\<exists>h cr. reconciles plainLib emptyCluster {} {} ''my-mongo'' ''db'' h \<and> ApplyPSMDB cr \<in> set h \<and>
     cr_Finalizers cr = [''percona.com/delete-psmdb-pods-in-order'', ''percona.com/delete-psmdb-pvc'']) \<and>
   (\<exists>h old. reconciles plainLib backupCluster {doneBackup} {} ''my-mongo'' ''db'' h \<and> DeleteObject KOpBackup ''b1'' \<in> set h \<and>
     backupObject backupCluster doneBackup old \<and> ob_Name old = ''b1'')"
proof (rule conjI)
  obtain r cr h where run: "SyncPSMDB plainLib emptyCluster bareCtx [] = (r, h)" and ap: "ApplyPSMDB cr \<in> set h"
    using plain_sync by auto
  have "reconciles plainLib emptyCluster {} {} ''my-mongo'' ''db'' h"
    by (rule sync [OF start, of bareCtx]) (simp_all add: bareCtx_def providerSync_def run [unfolded bareCtx_def])
  with ap reconcile_loop_safe [OF this]
  show "\<exists>h cr. reconciles plainLib emptyCluster {} {} ''my-mongo'' ''db'' h \<and> ApplyPSMDB cr \<in> set h \<and>
     cr_Finalizers cr = [''percona.com/delete-psmdb-pods-in-order'', ''percona.com/delete-psmdb-pvc'']" by blast
next
  obtain h where run: "CleanupBackup backupCluster doneBackup [] = (Inr False, h)" and del: "DeleteObject KOpBackup ''b1'' \<in> set h"
    by (simp add: CleanupBackup_def backupCluster_def onceBackedUp_def emptyCluster_def syncedBackup_def
        readyBackup_def doneBackup_def externalBackup_def call_defs io_defs)
  have loop: "reconciles plainLib backupCluster {doneBackup} {} ''my-mongo'' ''db'' h"
    by (rule backup_gone [OF start _ run]) simp
  note safe = reconcile_loop_safe [OF loop, THEN conjunct2, THEN conjunct2, THEN conjunct2, THEN conjunct1, rule_format, OF del]
  obtain old where "backupObject backupCluster doneBackup old" "''b1'' = ob_Name old" using safe by auto
  with loop del show "\<exists>h old. reconciles plainLib backupCluster {doneBackup} {} ''my-mongo'' ''db'' h \<and>
      DeleteObject KOpBackup ''b1'' \<in> set h \<and> backupObject backupCluster doneBackup old \<and> ob_Name old = ''b1''" by metis
qed

end
