(* ===== verification/Sync_Panics.thy ===== *)
theory Sync_Panics
  imports Cluster_Sync
begin

text \<open>
  Nil dereferences in a sync. The stages of \<^verbatim>\<open>SyncPSMDB\<close> follow pointers they trust an earlier stage to have set (config servers and
  routers of a sharded CR) and one that the API's schema is trusted with (the count of a count retention). Each stage is
  shown not to panic where what it trusts holds, and the stages before it are shown to establish that.
\<close>

section \<open>Stages that trust nothing\<close>

lemma operatorVersion_no_panic [no_panic_intros]:
  assumes "calm E"
  shows "neverPanics (operatorVersion E)"
proof -
  have "\<not> isPanic e" if "currentNamespace E = Inl e" for e
    using that assms by (auto simp: currentNamespace_def calm_def calmAnswer_def split: if_splits sum.splits)
  moreover have "\<not> isPanic e" if "scanImages ns imgs v = Inl e" for ns imgs v e
    using that by (induction ns imgs v rule: scanImages.induct) (auto split: option.splits if_splits)
  ultimately show ?thesis
    unfolding operatorVersion_def using assms by (auto intro!: no_panic_intros)
qed

lemma convergedCRVersion_no_panic [no_panic_intros]: "calm E \<Longrightarrow> neverPanics (convergedCRVersion L E c)"
  unfolding convergedCRVersion_def Let_def by (auto intro!: no_panic_intros)

lemma engineImage_no_panic [no_panic_intros]: "calm E \<Longrightarrow> neverPanics (engineImage L E c)"
  unfolding engineImage_def Let_def by (auto intro!: no_panic_intros)

lemma deleteHiddenVolumes_no_panic [no_panic_intros]:
  assumes "calm E"
  shows "neverPanics (deleteHiddenVolumes L E c k)"
proof -
  have "neverPanics (deleteHiddenLoop E pods k ps r)" for pods ps r
    using assms by (induction ps arbitrary: r) (auto simp: deleteHiddenLoop.simps intro!: no_panic_intros split: option.splits)
  then show ?thesis unfolding deleteHiddenVolumes_def using assms by (auto intro!: no_panic_intros)
qed

lemma configureReplsets_no_panic [no_panic_intros]: "calm E \<Longrightarrow> neverPanics (configureReplsets L E c)"
  unfolding configureReplsets_def configureHidden_def Let_def by (auto intro!: no_panic_intros)

lemma configureConfigServer_no_panic [no_panic_intros]: "calm E \<Longrightarrow> neverPanics (configureConfigServerReplset L E c)"
  unfolding configureConfigServerReplset_def keepCurrentConfigServerStorageClass_def Let_def
  by (auto intro!: no_panic_intros split: bool.splits option.splits)

lemma configureMembers_no_panic [no_panic_intros]: "calm E \<Longrightarrow> neverPanics (configureMembers L E c cr)"
  unfolding configureMembers_def Let_def by (auto intro!: no_panic_intros)

lemma startPSMDB_no_panic [no_panic_intros]: "calm E \<Longrightarrow> neverPanics (startPSMDB L E c)"
  unfolding startPSMDB_def Let_def by (intro no_panic_intros)

lemma seedCredentials_no_panic [no_panic_intros]:
  assumes "calm E"
  shows "neverPanics (seedCredentials L E c)"
proof -
  have create: "neverPanics (createSecret E c t d)" for t d
    unfolding createSecret_def using assms by (auto intro!: no_panic_intros)
  have "neverPanics (dataSourceInstanceName E ds)" for ds
    unfolding dataSourceInstanceName_def using assms
    by (auto intro!: no_panic_intros split: option.splits dataSourceType.splits)
  with create have "neverPanics (ensureDataSourceCredentials L E c ds t)" "neverPanics (ensureUserSecret E c src t)" for ds t src
    unfolding ensureDataSourceCredentials_def ensureUserSecret_def Let_def using assms
    by (auto intro!: no_panic_intros)
  then show ?thesis unfolding seedCredentials_def by (auto split: option.splits)
qed

lemma seedDataSource_no_panic [no_panic_intros]: "calm E \<Longrightarrow> neverPanics (seedDataSource L E c)"
  unfolding seedDataSource_def by (auto intro!: no_panic_intros)

lemma tlsParametersOf_no_panic [no_panic_intros]: "calmLib L \<Longrightarrow> neverPanics (liftIO (tlsParametersOf L c))"
  unfolding tlsParametersOf_def by (auto intro!: neverPanics_lift dest: instanceTLSParameters_no_panic)

lemma keepCertificates_no_panic [no_panic_intros]: "calm E \<Longrightarrow> neverPanics (keepCertificates E c tls)"
  unfolding keepCertificates_def by (auto intro!: no_panic_intros)

section \<open>Stages that trust the sharding part\<close>

lemma deref_no_panic: "p \<noteq> None \<Longrightarrow> neverPanics (derefIO p)"
  by auto

lemma scheduling_no_panic [no_panic_intros]:
  "shardingComplete cr \<Longrightarrow> neverPanics (applyScheduling L c cr)"
  "shardingComplete cr \<Longrightarrow> neverPanics (labelPods L c cr)"
  unfolding applyScheduling_def labelPods_def shardingComplete_def Let_def
  by (auto intro!: no_panic_intros deref_no_panic)

lemma withClientCertificatesOptional_no_panic:
  "calmLib L \<Longrightarrow> withClientCertificatesOptional L conf = Inl e \<Longrightarrow> \<not> isPanic e"
  by (auto simp: withClientCertificatesOptional_def Let_def calmLib_def calmAnswer_def split: sum.splits if_splits option.splits)

lemma optionalReplsets_no_panic: "calmLib L \<Longrightarrow> optionalReplsets L rss = Inl e \<Longrightarrow> \<not> isPanic e"
  by (induction rss arbitrary: e)
    (auto simp: mapRight_def dest: withClientCertificatesOptional_no_panic split: sum.splits)

lemma makeCertificatesOptional_no_panic [no_panic_intros]:
  assumes "calmLib L" "shardingComplete cr"
  shows "neverPanics (makeCertificatesOptional L cr)"
  unfolding makeCertificatesOptional_def Let_def
  using assms
  by (auto simp: shardingComplete_def intro!: no_panic_intros deref_no_panic
      dest: withClientCertificatesOptional_no_panic optionalReplsets_no_panic)

lemma acceptClients_no_panic [no_panic_intros]:
  "calm E \<Longrightarrow> calmLib L \<Longrightarrow> shardingComplete cr \<Longrightarrow> neverPanics (acceptClientsWithoutCertificates L E c tls cr)"
  unfolding acceptClientsWithoutCertificates_def by (auto intro!: no_panic_intros)

lemma configureMetricsExporter_no_panic [no_panic_intros]:
  "calm E \<Longrightarrow> shardingComplete cr \<Longrightarrow> neverPanics (configureMetricsExporter L E c n cr)"
  unfolding configureMetricsExporter_def metricsExporterRequired_def shardingComplete_def Let_def
  by (auto intro!: no_panic_intros deref_no_panic)

section \<open>PMM\<close>

lemma orRenderFailure_no_panic:
  "(\<And>e. r = Inl e \<Longrightarrow> \<not> isPanic e) \<Longrightarrow> neverPanics (orRenderFailure p r)"
  by (auto simp: orRenderFailure_def intro!: no_panic_intros split: sum.splits)

lemma calm_destination: "calmLib L \<Longrightarrow> calmAnswer (destinationURL L rb)"
proof -
  have "calmFields destinationFields" by (simp add: calmFields_def destinationFields_def)
  then show "calmLib L \<Longrightarrow> calmAnswer (destinationURL L rb)"
    using calm_decodeStruct [of destinationFields]
    by (auto simp: destinationURL_def calmLib_def calmAnswer_def [of "lib_jsonParse _ _"] split: option.splits sum.splits)
qed

lemma calm_resources:
  "calmLib L \<Longrightarrow> calmAnswer (entryResources L rb)" "calmAnswer (getPMMResources L c requested)"
proof -
  show "calmLib L \<Longrightarrow> calmAnswer (entryResources L rb)"
    by (auto simp: entryResources_def calmLib_def split: option.splits)
  have "calmAnswer (capRequests L requested ns res)" for ns res
    by (induction L requested ns res rule: capRequests.induct) (auto split: option.splits)
  then show "calmAnswer (getPMMResources L c requested)"
    unfolding getPMMResources_def mergeResources_def by blast
qed

text \<open>The class of a binding for PMM is one the provider manages: \<^verbatim>\<open>renderPMMBinding\<close> reads the image through that pointer without
  a check, so it relies on the runtime to hand over no other.\<close>

definition managedBinding :: "resolvedBinding \<Rightarrow> bool" where
  "managedBinding rb \<longleftrightarrow> (rb_Apply rb \<longrightarrow> rb_Integration rb = pmmIntegration \<longrightarrow> rb_ProviderManaged rb \<noteq> None)"

definition managedBindings :: "env \<Rightarrow> bool" where
  "managedBindings E \<longleftrightarrow> (\<forall>h rbs. env_monitoringBindings E h = Inr rbs \<longrightarrow> list_all managedBinding rbs)"

lemma renderPMMBinding_no_panic [no_panic_intros]:
  assumes "calm E" "calmLib L" "rb_ProviderManaged rb \<noteq> None"
  shows "neverPanics (renderPMMBinding L E c n rb cr)"
proof -
  have "neverPanics (pmmAgentImage rb)"
    unfolding pmmAgentImage_def using assms(3) by (auto intro!: no_panic_intros deref_no_panic)
  moreover have "neverPanics (pmmToken E rb)" unfolding pmmToken_def Let_def using assms(1) by (auto intro!: no_panic_intros)
  moreover have "neverPanics (pmmServerHost L rb)"
    unfolding pmmServerHost_def Let_def
    by (auto intro!: no_panic_intros orRenderFailure_no_panic dest: calmAnswerD [OF calm_destination [OF assms(2)]])
  ultimately show ?thesis
    unfolding renderPMMBinding_def using assms
    by (intro no_panic_intros orRenderFailure_no_panic) (auto dest: calmAnswerD [OF calm_resources(1)] calmAnswerD [OF calm_resources(2)])
qed

lemma applyPMMBindings_no_panic [no_panic_intros]:
  assumes "calm E" "calmLib L" "managedBindings E"
  shows "neverPanics (applyPMMBindings L E c n cr)"
proof -
  have "neverPanics (renderBindings L E c n live rbs cr)" if "list_all managedBinding rbs" for live rbs cr
    using that assms(1,2) by (induction rbs arbitrary: cr) (auto simp: managedBinding_def intro!: no_panic_intros)
  then have "neverPanics (bindIO (readMonitoringBindings E) (\<lambda>rbs. renderBindings L E c n live rbs cr))" for live
    using assms by (intro neverPanics_bind_result no_panic_intros) (auto simp: managedBindings_def call_defs callIO_def)
  moreover have "neverPanics (removeSecretData E n key)" for key
    unfolding removeSecretData_def using assms(1) by (auto intro!: no_panic_intros)
  ultimately show ?thesis
    unfolding applyPMMBindings_def Let_def using assms by (auto intro!: no_panic_intros)
qed

section \<open>Backups\<close>

text \<open>Every retention by count of the Instance's schedules has its count, as the API's schema demands.\<close>

definition retentionsCounted :: "instance_t \<Rightarrow> bool" where
  "retentionsCounted i =
     (case in_Backup i of None \<Rightarrow> True | Some b \<Rightarrow>
        list_all (\<lambda>(st, s). case sch_Retention s of None \<Rightarrow> True
          | Some r \<Rightarrow> ret_Type r = RetentionCount \<longrightarrow> ret_Count r \<noteq> None) (schedulesOf (ib_Storages b)))"

lemma orConfigError_no_panic: "neverPanics m \<Longrightarrow> neverPanics (orConfigError L r m)"
  unfolding orConfigError_def by (auto intro!: no_panic_intros)

lemma buildStorages_no_panic: "calm E \<Longrightarrow> neverPanics (buildStoragesLoop E m ss out)"
  by (induction ss arbitrary: out) (auto intro!: no_panic_intros split: option.splits)

lemma buildTasks_no_panic:
  assumes "buildPSMDBTasks storages = Inl e" "retentionsCounted i" "in_Backup i = Some b" "storages = ib_Storages b"
  shows "\<not> isPanic e"
proof -
  obtain st s where s: "(st, s) \<in> set (schedulesOf storages)" "buildTask st s = Inl e"
    using assms(1) by (auto simp: buildPSMDBTasks_schedules dest!: collectRight_Inl)
  with assms(2-4) buildTask_Inl [OF s(2)] show ?thesis
    by (auto simp: retentionsCounted_def list_all_iff)
qed

lemma buildBackupSpec_no_panic [no_panic_intros]:
  assumes "calm E" "retentionsCounted (c_Instance c)"
  shows "neverPanics (buildBackupSpec L E c)"
proof -
  have pitr: "\<not> isPanic e" if "buildPSMDBPITRSpec storages = Inl e" for storages e
    using that by (auto simp: buildPSMDBPITRSpec_def pitrStorage_def mapRight_def Let_def split: sum.splits if_splits)
  show ?thesis
    unfolding buildBackupSpec_def buildPSMDBStorages_def Let_def using assms pitr buildTasks_no_panic
    by (auto intro!: no_panic_intros orConfigError_no_panic buildStorages_no_panic split: option.splits)
qed

section \<open>The whole sync\<close>

lemma secureClients_no_panic [no_panic_intros]:
  assumes "calm E" "calmLib L" "shardingComplete cr"
  shows "neverPanics (secureClients L E c tls cr)"
proof -
  have "shardingComplete ((configureTLS cr tls keep)\<lparr>cr_Spec := (cr_Spec (configureTLS cr tls keep))\<lparr>ps_Unsafe := u\<rparr>\<rparr>)" for keep u
    using assms(3) by (simp add: shardingComplete_def configureTLS_def Let_def)
  then show ?thesis
    unfolding secureClients_def Let_def using assms(1,2) by (intro no_panic_intros)
qed

text \<open>From the stage that sets the sharding part on, it stays complete: it is enough to know how each stage fails on a complete
  CR.\<close>

lemma preparePSMDB_failsOnly:
  assumes start: "failsOnly P (startPSMDB L E c)" and mem: "\<And>cr. failsOnly P (configureMembers L E c cr)"
    and pods: "\<And>cr. shardingComplete cr \<Longrightarrow> failsOnly P (applyScheduling L c cr)"
      "\<And>cr. shardingComplete cr \<Longrightarrow> failsOnly P (labelPods L c cr)"
    and backups: "\<And>cr. failsOnly P (configureBackups L E c cr)" and tls: "failsOnly P (liftIO (tlsParametersOf L c) :: tlsParameters act)"
    and clients: "\<And>tls cr. shardingComplete cr \<Longrightarrow> failsOnly P (secureClients L E c tls cr)"
    and exporter: "\<And>p n cr. shardingComplete cr \<Longrightarrow> failsOnly P (wrapIO p (configureMetricsExporter L E c n cr))"
  shows "failsOnly P (preparePSMDB L E c)"
proof -
  have secured: "failsOnly P (bindIO (secureClients L E c tls cr) (\<lambda>cr5.
      bindIO (wrapIO p (configureMetricsExporter L E c n cr5)) (\<lambda>cr6. returnIO (f cr6 :: psmdb \<times> tlsParameters))))"
    if "shardingComplete cr" for tls cr p n f
    using that secureClients_ok shardingComplete_members
    by (intro failsOnly_bind_result [OF clients] failsOnly_bind [OF exporter] failsOnly_return) blast+
  have stored: "failsOnly P (bindIO (configureBackups L E c cr) (\<lambda>cr4. bindIO (liftIO (tlsParametersOf L c)) (\<lambda>tls.
      bindIO (secureClients L E c tls cr4) (\<lambda>cr5.
      bindIO (wrapIO p (configureMetricsExporter L E c n cr5)) (\<lambda>cr6. returnIO (f tls cr6 :: psmdb \<times> tlsParameters))))))"
    if "shardingComplete cr" for cr p n f
    using that configureBackups_ok shardingComplete_members
    by (intro failsOnly_bind_result [OF backups] failsOnly_bind [OF tls] secured) blast
  have decorated: "failsOnly P (bindIO (applyScheduling L c cr) (\<lambda>cr2. bindIO (labelPods L c cr2) (\<lambda>cr3.
      bindIO (configureBackups L E c cr3) (\<lambda>cr4. bindIO (liftIO (tlsParametersOf L c)) (\<lambda>tls.
      bindIO (secureClients L E c tls cr4) (\<lambda>cr5.
      bindIO (wrapIO p (configureMetricsExporter L E c n cr5)) (\<lambda>cr6. returnIO (f tls cr6 :: psmdb \<times> tlsParameters))))))))"
    if "shardingComplete cr" for cr p n f
  proof (rule failsOnly_bind_result [OF pods(1) [OF that]])
    fix cr2 h h'
    assume "applyScheduling L c cr h = (Inr cr2, h')"
    with that have two: "shardingComplete cr2" using scheduling.keeps_members shardingComplete_members by blast
    show "failsOnly P (bindIO (labelPods L c cr2) (\<lambda>cr3. bindIO (configureBackups L E c cr3) (\<lambda>cr4.
      bindIO (liftIO (tlsParametersOf L c)) (\<lambda>tls. bindIO (secureClients L E c tls cr4) (\<lambda>cr5.
      bindIO (wrapIO p (configureMetricsExporter L E c n cr5)) (\<lambda>cr6. returnIO (f tls cr6)))))))"
      using two labelling.keeps_members shardingComplete_members
      by (intro failsOnly_bind_result [OF pods(2) [OF two]] stored) blast
  qed
  show ?thesis
    unfolding preparePSMDB_def
  proof (rule failsOnly_bind_result [OF start], rule failsOnly_bind_result [OF mem], rule decorated)
    fix cr0 h h' cr1 h1 h2
    assume "startPSMDB L E c h = (Inr cr0, h')" "configureMembers L E c cr0 h1 = (Inr cr1, h2)"
    then show "shardingComplete cr1"
      using startPSMDB_ok configureMembers_wanted unfolding membersWanted_def by blast
  qed
qed

lemma preparePSMDB_no_panic:
  assumes "calm E" "calmLib L" "retentionsCounted (c_Instance c)"
  shows "neverPanics (preparePSMDB L E c)"
proof -
  have "neverPanics (configureBackups L E c cr)" for cr
    unfolding configureBackups_def using assms by (intro no_panic_intros)
  with assms show ?thesis by (intro preparePSMDB_failsOnly no_panic_intros) simp_all
qed

lemma SyncPSMDB_no_panic:
  assumes "calm E" "calmLib L" "retentionsCounted (c_Instance c)" "managedBindings E"
  shows "neverPanics (SyncPSMDB L E c)"
proof -
  have "neverPanics (buildPSMDB L E c)"
    unfolding buildPSMDB_def using assms preparePSMDB_no_panic [OF assms(1-3)]
    by (auto intro!: no_panic_intros split: prod.splits)
  then show ?thesis
    unfolding SyncPSMDB_def deleteUnusedHiddenVolumes_def using assms(1) by (auto intro!: no_panic_intros)
qed

end
