(* ===== verification/Operation_Panics.thy ===== *)
theory Operation_Panics
  imports Sync_Panics Provider_Main
begin

text \<open>
  When the operations of the provider panic. A panic in one reconcile would end the process that serves every Instance, so what each
  operation trusts is collected here: for most operations beside the sync it is nothing; the check of references trusts that
  \<^verbatim>\<open>Validate\<close> accepted the Instance, the upgrade check that the version library returns two segments, and the import that there is no
  client for a storage without S3 settings.
\<close>

section \<open>Backups and restores\<close>

lemma createOrUpdate_no_panic:
  assumes "neverPanics getIt" "\<And>ob. neverPanics (create ob)" "\<And>ob. neverPanics (update ob)"
    and "\<And>ob e. mutate ob = Inl e \<Longrightarrow> \<not> isPanic e"
  shows "neverPanics (createOrUpdate getIt fresh mutate create update)"
  unfolding createOrUpdate_def using assms by (auto intro!: no_panic_intros)

lemma mutate_no_panic:
  assumes "calmLib L"
  shows "mutateOpBackup L c b ob = Inl e \<Longrightarrow> \<not> isPanic e" "mutateOpRestore L c r mode pitr ob' = Inl e \<Longrightarrow> \<not> isPanic e"
proof -
  have owned: "\<not> isPanic e" if "lib_setControllerReference L n ctl = Inl e" for n ctl e
  proof -
    have "calmAnswer (lib_setControllerReference L n ctl)" using assms by (simp add: calmLib_def)
    with that show ?thesis by simp
  qed
  show "mutateOpBackup L c b ob = Inl e \<Longrightarrow> \<not> isPanic e" "mutateOpRestore L c r mode pitr ob' = Inl e \<Longrightarrow> \<not> isPanic e"
    by (auto simp: mutateOpBackup_def mutateOpRestore_def mapRight_def Let_def dest: owned split: sum.splits)
qed

lemma exec_no_panic:
  "neverPanics (backupExec E n op err)" "neverPanics (restoreExec E n op' err)"
  by (auto simp: backupExec_def restoreExec_def Let_def intro!: no_panic_intros split: opBackupState.splits opRestoreState.splits)

lemma SyncBackup_no_panic:
  assumes "calm E" "calmLib L"
  shows "neverPanics (SyncBackup L E c b)"
  unfolding SyncBackup_def using assms
  by (auto intro!: no_panic_intros createOrUpdate_no_panic exec_no_panic dest: mutate_no_panic(1) [OF assms(2)])

lemma resolveRestoreSource_no_panic [no_panic_intros]:
  assumes "calm E"
  shows "neverPanics (resolveRestoreSource L E r)"
proof -
  have "neverPanics (resolveBackupSource E r)"
    unfolding resolveBackupSource_def using assms by (auto intro!: no_panic_intros split: option.splits)
  moreover have "neverPanics (selectPITRBaseBackup L E ns n st d)" for ns n st d
    unfolding selectPITRBaseBackup_def Let_def using assms by (auto intro!: no_panic_intros split: option.splits)
  ultimately show ?thesis
    unfolding resolveRestoreSource_def resolvePointInTimeSource_def Let_def
    by (auto intro!: no_panic_intros split: dataSourceType.splits option.splits)
qed

lemma restoreModeOf_no_panic [no_panic_intros]: "calm E \<Longrightarrow> neverPanics (restoreModeOf E c src)"
  unfolding restoreModeOf_def buildExternalBackupSource_def Let_def
  by (auto intro!: no_panic_intros split: originType.splits option.splits)

lemma SyncRestore_no_panic:
  assumes "calm E" "calmLib L"
  shows "neverPanics (SyncRestore L E c r)"
  unfolding SyncRestore_def using assms
  by (auto intro!: no_panic_intros createOrUpdate_no_panic exec_no_panic split: sum.splits) (metis mutate_no_panic(2))

lemma cleanups_no_panic:
  assumes "calm E"
  shows "neverPanics (CleanupBackup E b)" "neverPanics (CleanupRestore E r)" "neverPanics (CleanupPSMDB E c)"
  unfolding CleanupBackup_def CleanupRestore_def CleanupPSMDB_def using assms by (auto intro!: no_panic_intros)

section \<open>Status, monitoring and mirrored backups\<close>

lemma withoutHiddenHosts_no_panic [no_panic_intros]: "calm E \<Longrightarrow> neverPanics (withoutHiddenHosts L E cr hosts)"
  unfolding withoutHiddenHosts_def hiddenPrefixesOf_def by (auto intro!: no_panic_intros)

lemma tlsConnection_no_panic [no_panic_intros]: "calm E \<Longrightarrow> calmLib L \<Longrightarrow> neverPanics (tlsConnection L E c)"
  unfolding tlsConnection_def by (auto intro!: no_panic_intros)

lemma StatusPSMDB_no_panic: "calm E \<Longrightarrow> calmLib L \<Longrightarrow> neverPanics (StatusPSMDB L E c)"
  unfolding StatusPSMDB_def buildConnectionDetails_def hasActiveRestoreForInstance_def Let_def
  by (auto intro!: no_panic_intros split: prod.splits)

lemma reports_no_panic:
  assumes "calm E"
  shows "neverPanics (MonitoringSources L E c)" "neverPanics (BackupStorageStatuses E c)" "neverPanics (Mirror E obj)"
  unfolding MonitoringSources_def BackupStorageStatuses_def Mirror_def hiddenMembersServing_def Let_def
  using assms by (auto intro!: no_panic_intros split: watched.splits option.splits)

section \<open>The upgrade check\<close>

text \<open>\<^verbatim>\<open>goversion\<close> pads a version to three segments.\<close>

definition paddedVersions :: "lib \<Rightarrow> bool" where
  "paddedVersions L \<longleftrightarrow> (\<forall>s v. lib_newVersion L s = Some v \<longrightarrow> 2 \<le> length (ver_Segments v))"

lemma outsideSkewWindow_some:
  "2 \<le> length (ver_Segments a) \<Longrightarrow> 2 \<le> length (ver_Segments b) \<Longrightarrow> outsideSkewWindow a b \<noteq> None"
  by (auto simp: outsideSkewWindow_def Suc_le_length_iff numeral_2_eq_2)

lemma CheckUpgrade_no_panic:
  assumes "calm E" "paddedVersions L"
  shows "neverPanics (CheckUpgrade L E is)"
proof -
  have one: "neverPanics (checkInstanceSkew L E i v)" if "2 \<le> length (ver_Segments v)" for i v
    unfolding checkInstanceSkew_def Let_def using assms that outsideSkewWindow_some
    by (fastforce intro!: no_panic_intros simp: paddedVersions_def split: option.splits bool.splits)
  have "neverPanics (checkInstances L E v is)" if "2 \<le> length (ver_Segments v)" for v
    using one [OF that] by (induction "is") (auto intro!: no_panic_intros)
  with assms(2) show ?thesis
    unfolding CheckUpgrade_def Let_def by (auto simp: paddedVersions_def split: option.splits)
qed

section \<open>Imports\<close>

text \<open>The S3 service returns no panic.\<close>

definition calmS3 :: "s3api \<Rightarrow> bool" where
  "calmS3 S \<longleftrightarrow> (\<forall>s e. s3_NewClient S s = Some e \<longrightarrow> \<not> isPanic e) \<and> (\<forall>b. \<forall>p \<in> set (s3_Pages S b). calmAnswer p) \<and>
     (\<forall>b k. calmAnswer (s3_Object S b k))"

lemma importPages_no_panic:
  assumes "\<forall>p \<in> set pages. calmAnswer p" "\<And>k. calmAnswer (s3_Object S bucket k)"
  shows "calmAnswer (importPages L S imp bucket pages)"
proof -
  have page: "\<not> isPanic e" if "importPage L S imp bucket keys = Inl e" for keys e
    using that
  proof (induction keys)
    case (Cons key keys)
    then show ?case
      using assms(2) [of key]
      by (auto simp: getObject_def mapRight_def calmAnswer_def split: if_splits sum.splits option.splits)
  qed simp
  have "\<not> isPanic e" if "importPages L S imp bucket pages = Inl e" for e
    using that assms(1)
  proof (induction pages)
    case (Cons p ps)
    then show ?case using page by (auto simp: mapRight_def calmAnswer_def split: sum.splits)
  qed simp
  then show ?thesis by (simp add: calmAnswer_def split: sum.splits)
qed

lemma ImportBackups_no_panic:
  assumes "calmS3 S" "bst_S3 storage \<noteq> None \<or> s3_NewClient S storage \<noteq> None"
  shows "calmAnswer (ImportBackups L S imp storage)"
proof (cases "s3_NewClient S storage")
  case None
  then obtain s3 where "bst_S3 storage = Some s3" using assms(2) by auto
  with None show ?thesis
    using assms(1) by (auto simp: ImportBackups_def calmS3_def intro!: importPages_no_panic)
next
  case (Some e)
  with assms(1) show ?thesis by (simp add: ImportBackups_def calmS3_def calmAnswer_def)
qed

section \<open>Properties\<close>

text \<open>C11. The provider does not panic. Whatever the API server, the runtime and the libraries answer, as long as they do not panic
  themselves, no operation of the provider dereferences nil or indexes out of range: the status, the clean-ups, backups, restores,
  mirrored backups, monitoring and backup reports need nothing else. A sync needs the count of every retention by count in the
  Instance's schedules and the managed part of the class of every binding for PMM, which the code reads unchecked, and otherwise
  finds config servers and routers set wherever four of its stages dereference them; the check of references needs an Instance that
  \<^verbatim>\<open>Validate\<close> accepted; the upgrade check needs versions with two segments; an import needs a storage with S3 settings, or a client
  that is refused for one without.\<close>

theorem operations_never_panic:
  assumes "calm E" "calmLib L"
  shows "(retentionsCounted (c_Instance c) \<longrightarrow> managedBindings E \<longrightarrow> neverPanics (SyncPSMDB L E c)) \<and>
    (calmS3 S \<longrightarrow> (bst_S3 storage \<noteq> None \<or> s3_NewClient S storage \<noteq> None) \<longrightarrow> calmAnswer (ImportBackups L S imp storage)) \<and>
    neverPanics (StatusPSMDB L E c) \<and> neverPanics (CleanupPSMDB E c) \<and>
    (Validate L (c_Instance c) old = [] \<longrightarrow> neverPanics (ValidateReferences L E c)) \<and>
    neverPanics (MonitoringSources L E c) \<and> neverPanics (BackupStorageStatuses E c) \<and>
    neverPanics (SyncBackup L E c b) \<and> neverPanics (CleanupBackup E b) \<and>
    neverPanics (SyncRestore L E c r) \<and> neverPanics (CleanupRestore E r) \<and> neverPanics (Mirror E obj) \<and>
    (paddedVersions L \<longrightarrow> neverPanics (CheckUpgrade L E instances))"
proof -
  have "neverPanics (ValidateReferences L E c)" if "Validate L (c_Instance c) old = []"
    using that assms by (intro ValidateReferences_no_panic) (simp_all add: Validate_iff rulesMet_def)
  moreover have "calmS3 S \<longrightarrow> (bst_S3 storage \<noteq> None \<or> s3_NewClient S storage \<noteq> None) \<longrightarrow>
      calmAnswer (ImportBackups L S imp storage)" using ImportBackups_no_panic by blast
  ultimately show ?thesis
    using SyncPSMDB_no_panic [OF assms] StatusPSMDB_no_panic [OF assms] cleanups_no_panic [OF assms(1)]
      reports_no_panic [OF assms(1)] SyncBackup_no_panic [OF assms] SyncRestore_no_panic [OF assms]
      CheckUpgrade_no_panic [OF assms(1)] by blast
qed

definition shardedBareCtx :: ctx where
  "shardedBareCtx = bareCtx\<lparr>c_Instance := bareInstance\<lparr>
     in_Topology := Some \<lparr>top_Type = TopologyTypeSharded, top_Parameters = None\<rparr>\<rparr>\<rparr>"

theorem operations_never_panic_witness:
  "neverPanics (SyncPSMDB plainLib emptyCluster shardedBareCtx) \<and> neverPanics (ValidateReferences plainLib emptyCluster soundCtx) \<and>
   calmAnswer (ImportBackups plainLib sampleS3 sampleImport sampleStorage)"
proof -
  have "calmS3 sampleS3" "bst_S3 sampleStorage \<noteq> None \<or> s3_NewClient sampleS3 sampleStorage \<noteq> None"
    by (auto simp: calmS3_def sampleS3_def sampleStorage_def)
  then have "calmAnswer (ImportBackups plainLib sampleS3 sampleImport sampleStorage)"
    using operations_never_panic [OF calm_samples] by blast
  moreover have "managedBindings emptyCluster" by (simp add: managedBindings_def emptyCluster_def)
  moreover
  have "retentionsCounted (c_Instance shardedBareCtx)"
    by (simp add: retentionsCounted_def shardedBareCtx_def bareInstance_def)
  ultimately show ?thesis using operations_never_panic [OF calm_samples] soundCtx_valid by blast
qed

end
