(* ===== verification/Sync_Progress.thy ===== *)
theory Sync_Progress
  imports Sync_Panics
begin

text \<open>
  Progress of a sync. Safety says what \<^verbatim>\<open>SyncPSMDB\<close> never does; here it is shown what it achieves when nothing is in its way: on an
  API server that answers, for an Instance that \<^verbatim>\<open>Validate\<close> accepts and whose references exist, every sync applies the CR, and
  repeating the sync starts the initial restore once the operator reports a ready cluster.
\<close>

section \<open>Nothing in the way\<close>

text \<open>An API server and a runtime that answer: objects may be absent, creating a secret may find that it exists by now, and the
  bindings for PMM are of a class the provider manages.\<close>

definition healthy :: "env \<Rightarrow> bool" where
  "healthy E \<longleftrightarrow>
     (\<forall>h n. readable (env_psmdb E h n)) \<and> (\<forall>h n. readable (env_secret E h n)) \<and> (\<forall>h n. readable (env_backup E h n)) \<and>
     (\<forall>h sel. answered (env_pvcs E h sel)) \<and> (\<forall>h sel. answered (env_pods E h sel)) \<and>
     (\<forall>h. answered (env_providerSpec E h)) \<and> (\<forall>h. answered (env_requiredSources E h)) \<and>
     (\<forall>h. answered (env_monitoringBindings E h)) \<and> managedBindings E \<and>
     (\<forall>h rb e. env_monitoringCredentials E h rb = Inl e \<longrightarrow> isStatusError e \<longrightarrow> isNotFound e) \<and>
     (\<forall>h w e. env_write E h w = Some e \<longrightarrow> isAlreadyExists e \<and> (\<exists>s. w = CreateSecret s))"

text \<open>A library that renders every YAML document.\<close>

definition rendering :: "lib \<Rightarrow> bool" where
  "rendering L \<longleftrightarrow> (\<forall>m. answered (lib_yamlMarshal L m))"

text \<open>Whenever an exporter is required, the provider spec that is read then has an image for it; the code fails where it has none.\<close>

definition exporterImage :: "lib \<Rightarrow> env \<Rightarrow> ctx \<Rightarrow> bool" where
  "exporterImage L E c \<longleftrightarrow> (\<forall>h h' spec. metricsExporterRequired L E c h = (Inr True, h') \<longrightarrow> env_providerSpec E h' = Inr spec \<longrightarrow>
     lib_getDefaultImage L spec metricsExporterComponentType \<noteq> '''')"

text \<open>The users secret of an Instance is there.\<close>

definition credentialsOf :: "env \<Rightarrow> string \<Rightarrow> bool" where
  "credentialsOf E name \<longleftrightarrow> (\<forall>h. answered (env_secret E h (''everest-secrets-'' @ name)))"

definition sourceReady :: "env \<Rightarrow> dataSource \<Rightarrow> bool" where
  "sourceReady E ds = (case ds_Type ds of
     DataSourceTypeBackup \<Rightarrow> (\<forall>name h b. ds_Backup ds = Some name \<and> env_backup E h name = Inr b \<longrightarrow>
       (\<exists>ref. bkp_InstanceRef b = Some ref \<and> credentialsOf E ref))
   | DataSourceTypePointInTime \<Rightarrow>
       (\<forall>pit ref. ds_PointInTime ds = Some pit \<and> pit_InstanceRef pit = Some ref \<longrightarrow> credentialsOf E ref)
   | DataSourceTypeOther _ \<Rightarrow> True)"

definition retentionSupported :: "schedule \<Rightarrow> bool" where
  "retentionSupported s =
     (case sch_Retention s of None \<Rightarrow> True | Some r \<Rightarrow> ret_Type r = RetentionCount \<and> ret_Count r \<noteq> None)"

definition backupsReady :: "env \<Rightarrow> instanceBackup \<Rightarrow> bool" where
  "backupsReady E b \<longleftrightarrow>
     list_all (\<lambda>st. \<forall>h. answered (env_backupStorage E h (ibs_StorageRef st))) (ib_Storages b) \<and>
     length (filter pitrEnabled (ib_Storages b)) \<le> 1 \<and>
     list_all (\<lambda>(st, s). retentionSupported s) (schedulesOf (ib_Storages b))"

text \<open>What the Instance refers to exists: the user's secret, else the credentials of the data source, and the backup storages.\<close>

definition referencesReady :: "env \<Rightarrow> instance_t \<Rightarrow> bool" where
  "referencesReady E i \<longleftrightarrow>
     (case in_UserSecretRef i of
        Some ref \<Rightarrow> (\<forall>h. answered (env_secret E h ref))
      | None \<Rightarrow> (case in_DataSource i of None \<Rightarrow> True | Some ds \<Rightarrow> sourceReady E ds)) \<and>
     (case in_Backup i of None \<Rightarrow> True | Some b \<Rightarrow> ib_Enabled b \<longrightarrow> backupsReady E b)"

section \<open>Calls on a healthy server\<close>

named_theorems progress_intros \<open>actions that succeed\<close>

lemmas succeeds_rules [progress_intros] = failsOnly_return [where P = "\<lambda>_. False"] failsOnly_bind [where P = "\<lambda>_. False"]
  failsOnly_wrap [where P = "\<lambda>_. False"] failsOnly_for [where P = "\<lambda>_. False"]

lemma healthy_reads:
  assumes "healthy E"
  shows "failsOnly isNotFound (getPSMDB E n)" "failsOnly isNotFound (getSecret E n)" "failsOnly isNotFound (getBackup E n)"
proof -
  have "readable (env_psmdb E h n)" "readable (env_secret E h n)" "readable (env_backup E h n)" for h n
    using assms by (simp_all add: healthy_def)
  then show "failsOnly isNotFound (getPSMDB E n)" "failsOnly isNotFound (getSecret E n)" "failsOnly isNotFound (getBackup E n)"
    unfolding call_defs by (metis failsOnly_call readableD)+
qed

lemma healthy_answers [progress_intros]:
  assumes "healthy E"
  shows "succeeds (listPVCs E sel)" "succeeds (listPods E sel)" "succeeds (readProviderSpec E)"
    "succeeds (readRequiredSources E)" "succeeds (readMonitoringBindings E)"
  using assms unfolding healthy_def call_defs answered_iff by (auto intro!: failsOnly_call) (metis Inl_Inr_False)+

lemma plain_answers [progress_intros]:
  "succeeds (requestMaintenance E t m mk)" "succeeds (setDataSourceStatus s)" "succeeds (setMonitoringBindingResult b r m')"
  by (auto simp: call_defs intro!: failsOnly_call)

lemma healthy_writes:
  assumes "healthy E"
  shows "\<nexists>s. w = CreateSecret s \<Longrightarrow> succeeds (writeCall E w)" "failsOnly isAlreadyExists (writeCall E w')"
proof -
  have rejected: "isAlreadyExists e \<and> (\<exists>s. w = CreateSecret s)" if "env_write E h w = Some e" for h w e
    using that assms by (simp add: healthy_def)
  show "\<nexists>s. w = CreateSecret s \<Longrightarrow> succeeds (writeCall E w)" "failsOnly isAlreadyExists (writeCall E w')"
    unfolding call_defs by (auto intro!: failsOnly_call dest!: rejected split: option.splits)
qed

lemmas handled_reads = healthy_reads [THEN failsOnly_handle]

lemma liveEngine_succeeds [progress_intros]: "healthy E \<Longrightarrow> succeeds (liveEngine E c)"
  unfolding liveEngine_def by (rule handled_reads) (auto intro: progress_intros)

section \<open>The stages\<close>

lemma startPSMDB_succeeds [progress_intros]:
  assumes "healthy E"
  shows "succeeds (startPSMDB L E c)"
proof -
  have "failsOnly (\<lambda>_. True) (operatorVersion E)" by (simp add: failsOnly_def)
  then have "succeeds (convergedCRVersion L E c)"
    unfolding convergedCRVersion_def Let_def using assms
    by (intro handled_reads(1) [OF assms]) (auto intro!: progress_intros failsOnly_handle [where Q = "\<lambda>_. True"])
  moreover have "succeeds (engineImage L E c)"
    unfolding engineImage_def Let_def using assms by (auto intro!: progress_intros)
  ultimately show ?thesis unfolding startPSMDB_def Let_def by (intro progress_intros)
qed

lemma deleteHiddenVolumes_succeeds [progress_intros]:
  assumes "healthy E"
  shows "succeeds (deleteHiddenVolumes L E c k)"
proof -
  have "succeeds (deleteHiddenLoop E pods k ps r)" for pods ps r
    using assms by (induction ps arbitrary: r)
      (auto simp: deleteHiddenLoop.simps intro!: progress_intros healthy_writes(1) split: option.splits)
  then show ?thesis unfolding deleteHiddenVolumes_def using assms by (auto intro!: progress_intros)
qed

lemma configureMembers_succeeds [progress_intros]:
  assumes "healthy E"
  shows "succeeds (configureMembers L E c cr)"
proof -
  have "succeeds (configureReplsets L E c)"
    unfolding configureReplsets_def configureHidden_def Let_def using assms by (auto intro!: progress_intros)
  moreover have "succeeds (keepCurrentConfigServerStorageClass E c rs)" for rs
    unfolding keepCurrentConfigServerStorageClass_def
    by (rule handled_reads(1) [OF assms]) (auto split: bool.splits option.splits)
  ultimately show ?thesis
    unfolding configureMembers_def configureConfigServerReplset_def Let_def by (auto intro!: progress_intros)
qed


lemma buildStorages_succeed:
  assumes "\<forall>st \<in> set ss. \<forall>h. \<exists>bs. env_backupStorage E h (ibs_StorageRef st) = Inr bs"
  shows "succeeds (buildStoragesLoop E m ss out)"
  using assms
proof (induction ss arbitrary: out)
  case (Cons st ss)
  have "succeeds (getBackupStorage E (ibs_StorageRef st))"
    unfolding getBackupStorage_def using Cons.prems by (intro failsOnly_call) (metis Inl_Inr_False list.set_intros(1))
  with Cons show ?case by (auto intro!: failsOnly_handle split: option.splits)
qed simp

lemma backups_succeed:
  assumes "backupsReady E b"
  shows "succeeds (buildPSMDBStorages E (ib_Storages b))" "buildPSMDBPITRSpec (ib_Storages b) \<noteq> Inl e"
    "buildPSMDBTasks (ib_Storages b) \<noteq> Inl e"
proof -
  show "succeeds (buildPSMDBStorages E (ib_Storages b))"
    unfolding buildPSMDBStorages_def using assms
    by (intro buildStorages_succeed) (simp add: backupsReady_def list_all_iff)
  show "buildPSMDBPITRSpec (ib_Storages b) \<noteq> Inl e"
    using assms by (simp add: backupsReady_def buildPSMDBPITRSpec_def pitrStorage_def mapRight_def Let_def)
  show "buildPSMDBTasks (ib_Storages b) \<noteq> Inl e"
  proof
    assume "buildPSMDBTasks (ib_Storages b) = Inl e"
    then obtain st s where s: "(st, s) \<in> set (schedulesOf (ib_Storages b))" "buildTask st s = Inl e"
      by (auto simp: buildPSMDBTasks_schedules dest!: collectRight_Inl)
    with assms buildTask_Inl [OF s(2)] show False
      by (auto simp: backupsReady_def retentionSupported_def list_all_iff)
  qed
qed

lemma orConfigError_succeeds: "succeeds m \<Longrightarrow> succeeds (orConfigError L r m)"
  unfolding orConfigError_def by (erule failsOnly_handle) auto

lemma configureBackups_succeeds [progress_intros]:
  assumes "healthy E" "referencesReady E (c_Instance c)"
  shows "succeeds (configureBackups L E c cr)"
proof -
  have ready: "backupsReady E b" if "in_Backup (c_Instance c) = Some b" "ib_Enabled b" for b
    using that assms(2) by (simp add: referencesReady_def)
  have "succeeds (buildBackupSpec L E c)"
    unfolding buildBackupSpec_def Let_def using assms(1)
    by (auto intro!: progress_intros orConfigError_succeeds failsOnly_lift backups_succeed(1)
        dest!: ready dest: backups_succeed(2,3) split: option.splits)
  then show ?thesis unfolding configureBackups_def by (intro progress_intros)
qed

text \<open>TLS: the parameters of an accepted Instance decode, and rendering does not fail.\<close>

lemma accepted_tls_decodes:
  assumes "Validate L (c_Instance c) old = []"
  shows "\<exists>tls. tlsParametersOf L c = Inr tls"
  using assms by (cases "instanceTLSParameters L (c_Instance c)") (auto simp: Validate_def validateTLS_def tlsParametersOf_def)

lemma withClientCertificatesOptional_succeeds: "rendering L \<Longrightarrow> withClientCertificatesOptional L conf \<noteq> Inl e"
proof -
  have "lib_yamlMarshal L m \<noteq> Inl e'" if "rendering L" for m e'
    using that unfolding rendering_def answered_iff by (metis Inl_Inr_False)
  then show "rendering L \<Longrightarrow> withClientCertificatesOptional L conf \<noteq> Inl e"
    by (auto simp: withClientCertificatesOptional_def Let_def split: sum.splits if_splits option.splits)
qed

lemma optionalReplsets_succeeds: "rendering L \<Longrightarrow> optionalReplsets L rss \<noteq> Inl e"
  by (induction rss arbitrary: e)
    (auto simp: mapRight_def dest: withClientCertificatesOptional_succeeds split: sum.splits)

lemma secureClients_succeeds [progress_intros]:
  assumes "healthy E" "rendering L" "shardingComplete cr"
  shows "succeeds (secureClients L E c tls cr)"
proof -
  have optional: "succeeds (makeCertificatesOptional L cr')" if "shardingComplete cr'" for cr'
    unfolding makeCertificatesOptional_def Let_def using that assms(2)
    by (auto simp: shardingComplete_def intro!: progress_intros failsOnly_lift
        dest: withClientCertificatesOptional_succeeds optionalReplsets_succeeds)
  have "succeeds (keepCertificates E c tls)"
    unfolding keepCertificates_def using assms(1) by (auto intro!: handled_reads)
  moreover have "shardingComplete ((configureTLS cr tls keep)\<lparr>cr_Spec := (cr_Spec (configureTLS cr tls keep))\<lparr>ps_Unsafe := u\<rparr>\<rparr>)" for keep u
    using assms(3) by (simp add: shardingComplete_def configureTLS_def Let_def)
  moreover have "succeeds (acceptClientsWithoutCertificates L E c tls cr')" if "shardingComplete cr'" for cr'
    unfolding acceptClientsWithoutCertificates_def using assms(1) that
    by (auto intro!: handled_reads progress_intros optional)
  ultimately show ?thesis unfolding secureClients_def Let_def by (intro progress_intros) blast+
qed

lemma configureMetricsExporter_succeeds [progress_intros]:
  assumes healthy: "healthy E" and img: "exporterImage L E c" and complete: "shardingComplete cr"
  shows "succeeds (configureMetricsExporter L E c n cr)"
proof -
  have "\<exists>cr' h'. configureMetricsExporter L E c n cr h = (Inr cr', h')" for h
  proof -
    have "succeeds (metricsExporterRequired L E c)"
      unfolding metricsExporterRequired_def using healthy by (auto intro!: progress_intros)
    then obtain required h1 where req: "metricsExporterRequired L E c h = (Inr required, h1)" using succeedsD by blast
    obtain spec where spec: "env_providerSpec E h1 = Inr spec"
      using healthy unfolding healthy_def answered_iff by blast
    have "lib_getDefaultImage L spec metricsExporterComponentType \<noteq> ''''" if required
      using img req spec that unfolding exporterImage_def by auto
    then show ?thesis
      using req spec complete
      by (cases "sh_Configsvr (ps_Sharding (cr_Spec cr))"; cases "sh_Mongos (ps_Sharding (cr_Spec cr))")
        (auto simp: configureMetricsExporter_def shardingComplete_def bindIO_def wrapIO_def readProviderSpec_def callIO_def
          returnIO_def Let_def)
  qed
  then show ?thesis unfolding failsOnly_def by (metis Inl_Inr_False fst_conv)
qed


text \<open>Credentials: the source is there, and a secret that exists by now is fine.\<close>

lemma dataSourceInstanceName_ready:
  assumes healthy: "healthy E" and ready: "sourceReady E ds"
  shows "succeeds (dataSourceInstanceName E ds)"
    and "dataSourceInstanceName E ds h = (Inr n, h') \<Longrightarrow> n = '''' \<or> credentialsOf E n"
proof -
  have backup: "case env_backup E h name of Inl e \<Rightarrow> isNotFound e
      | Inr b \<Rightarrow> \<exists>ref. bkp_InstanceRef b = Some ref \<and> credentialsOf E ref"
    if "ds_Type ds = DataSourceTypeBackup" "ds_Backup ds = Some name" for h name
  proof -
    have "readable (env_backup E h name)" using healthy by (simp add: healthy_def)
    with that ready show ?thesis by (auto simp: sourceReady_def readable_def split: sum.splits)
  qed
  have "\<exists>n. fst (dataSourceInstanceName E ds h) = Inr n \<and> (n = '''' \<or> credentialsOf E n)" for h
  proof (cases "ds_Type ds")
    case DataSourceTypeBackup
    show ?thesis
    proof (cases "ds_Backup ds")
      case (Some name)
      with backup [OF DataSourceTypeBackup Some, of h] DataSourceTypeBackup show ?thesis
        by (auto simp: dataSourceInstanceName_def handleIO_def getBackup_def callIO_def returnIO_def split: sum.splits)
    qed (simp add: dataSourceInstanceName_def DataSourceTypeBackup returnIO_def)
  next
    case DataSourceTypePointInTime
    with ready show ?thesis
      by (auto simp: dataSourceInstanceName_def sourceReady_def returnIO_def split: option.splits)
  qed (simp add: dataSourceInstanceName_def returnIO_def)
  note found = this
  show "succeeds (dataSourceInstanceName E ds)"
    unfolding failsOnly_def using found by (metis Inl_Inr_False)
  show "dataSourceInstanceName E ds h = (Inr n, h') \<Longrightarrow> n = '''' \<or> credentialsOf E n"
    using found [of h] by auto
qed

lemma seedCredentials_succeeds [progress_intros]:
  assumes "healthy E" "referencesReady E (c_Instance c)"
  shows "succeeds (seedCredentials L E c)"
proof -
  have create: "succeeds (createSecret E c t d)" for t d
    unfolding createSecret_def by (rule healthy_writes(2) [OF assms(1), THEN failsOnly_handle]) auto
  have got: "succeeds (getSecret E n)" if "\<forall>h. \<exists>s. env_secret E h n = Inr s" for n
    unfolding getSecret_def using that by (intro failsOnly_call) (metis Inl_Inr_False)
  have user: "succeeds (ensureUserSecret E c ref t)" if "\<forall>h. \<exists>s. env_secret E h ref = Inr s" for ref t
    unfolding ensureUserSecret_def
    by (rule handled_reads(2) [OF assms(1)]) (auto intro!: progress_intros create got simp: that)
  have ds: "succeeds (ensureDataSourceCredentials L E c ds t)" if ready: "sourceReady E ds" for ds t
  proof -
    note named = dataSourceInstanceName_ready [OF assms(1) ready]
    have copy: "succeeds (if n = '''' then returnIO () else handleIO (getSecret E (''everest-secrets-'' @ n)) f)"
      if "n = '''' \<or> credentialsOf E n" "\<And>s. succeeds (f (Inr s))" for n and f :: "go_error + secret \<Rightarrow> unit act"
    proof (cases "n = ''''")
      case False
      with that(1) have "succeeds (getSecret E (''everest-secrets-'' @ n))"
        by (intro got) (simp add: credentialsOf_def)
      then have "succeeds (handleIO (getSecret E (''everest-secrets-'' @ n)) f)"
        by (rule failsOnly_handle) (simp_all add: that(2))
      with False show ?thesis by (simp only: if_False)
    qed simp
    show ?thesis
      unfolding ensureDataSourceCredentials_def Let_def
    proof (rule handled_reads(2) [OF assms(1)], unfold sum.case)
      show "succeeds (bindIO (dataSourceInstanceName E ds) (\<lambda>n. if n = '''' then returnIO ()
          else handleIO (getSecret E (''everest-secrets-'' @ n)) (case_sum (g n) (\<lambda>s. createSecret E c t (sec_Data s)))))" for g
        by (rule failsOnly_bind_result [OF named(1)], drule named(2), erule copy) (simp add: create)
    qed (rule failsOnly_return)
  qed
  show ?thesis
    using assms(2) user ds unfolding seedCredentials_def referencesReady_def by (auto split: option.splits)
qed

lemma renderPMMBinding_fails:
  assumes "healthy E" "rb_ProviderManaged rb \<noteq> None"
  shows "failsOnly isRenderFailure (renderPMMBinding L E c n rb cr)"
proof -
  have "isNotFound e" if "env_monitoringCredentials E h rb = Inl e" "isStatusError e" for h e
    using that assms by (simp add: healthy_def)
  then have "failsOnly (\<lambda>e. isStatusError e \<longrightarrow> isNotFound e) (readMonitoringCredentials E rb)"
    unfolding readMonitoringCredentials_def by (intro failsOnly_call) blast
  then have "failsOnly isRenderFailure (pmmToken E rb)"
    unfolding pmmToken_def Let_def by (rule failsOnly_handle) (auto intro!: failsOnly_fail)
  moreover have render: "failsOnly isRenderFailure (orRenderFailure p r)" for p and r :: "go_error + 'x"
    unfolding orRenderFailure_def by (auto intro!: failsOnly_fail split: sum.splits)
  moreover have "failsOnly isRenderFailure (pmmServerHost L rb)"
    unfolding pmmServerHost_def Let_def by (auto intro!: failsOnly_fail failsOnly_bind render)
  moreover have "failsOnly isRenderFailure (pmmAgentImage rb)"
    unfolding pmmAgentImage_def using assms(2) by (auto intro!: failsOnly_fail failsOnly_bind)
  moreover have "failsOnly isRenderFailure (wrapIO p (writeCall E (ApplySecret s kvs)))" for p s kvs
    by (rule failsOnly_wrap, rule failsOnly_mono [OF healthy_writes(1) [OF assms(1)]]) auto
  ultimately show ?thesis unfolding renderPMMBinding_def by (intro failsOnly_bind failsOnly_return)
qed

lemma applyPMMBindings_succeeds [progress_intros]:
  assumes "healthy E"
  shows "succeeds (applyPMMBindings L E c n cr)"
proof -
  have "succeeds (renderBindings L E c n live rbs cr)" if "list_all managedBinding rbs" for live rbs cr
    using that
    by (induction rbs arbitrary: cr)
      (auto simp: managedBinding_def intro!: progress_intros failsOnly_handle [OF renderPMMBinding_fails [OF assms]])
  moreover have "managedBindings E" using assms by (simp add: healthy_def)
  ultimately have "succeeds (bindIO (readMonitoringBindings E) (\<lambda>rbs. renderBindings L E c n live rbs cr))" for live
    using assms by (intro failsOnly_bind_result progress_intros) (auto simp: managedBindings_def call_defs callIO_def)
  moreover have "succeeds (removeSecretData E n key)" for key
    unfolding removeSecretData_def by (rule handled_reads(2) [OF assms]) (auto intro!: healthy_writes(1) [OF assms])
  ultimately show ?thesis
    unfolding applyPMMBindings_def Let_def using assms by (auto intro!: progress_intros)
qed


section \<open>The whole sync\<close>

lemma preparePSMDB_succeeds:
  assumes "healthy E" "rendering L" "Validate L (c_Instance c) old = []" "referencesReady E (c_Instance c)" "exporterImage L E c"
  shows "succeeds (preparePSMDB L E c)"
proof -
  have "succeeds (applyScheduling L c cr)" "succeeds (labelPods L c cr)" if "shardingComplete cr" for cr
    using applyScheduling_total [OF that] labelPods_total [OF that] unfolding failsOnly_def
    by (metis Inl_Inr_False fst_conv)+
  moreover have "succeeds (liftIO (tlsParametersOf L c) :: tlsParameters act)"
    using accepted_tls_decodes [OF assms(3)] by (intro failsOnly_lift) auto
  ultimately show ?thesis using assms by (intro preparePSMDB_failsOnly progress_intros) simp_all
qed

lemma buildPSMDB_succeeds:
  assumes "healthy E" "rendering L" "Validate L (c_Instance c) old = []" "referencesReady E (c_Instance c)" "exporterImage L E c"
  shows "succeeds (buildPSMDB L E c)"
  unfolding buildPSMDB_def using assms preparePSMDB_succeeds [OF assms]
  by (auto intro!: progress_intros split: prod.splits)

text \<open>The sync as a run: it builds the CR, applies it, cleans up and reaches the gate of the initial restore.\<close>

definition hiddenWait :: go_error where
  "hiddenWait = WaitFor ''hidden members start once the volumes of earlier ones are deleted''"

lemma seedDataSource_succeeds: "healthy E \<Longrightarrow> succeeds (seedDataSource L E c)"
  unfolding seedDataSource_def
  by (auto intro!: handled_reads(1) progress_intros healthy_writes(1))

lemma SyncPSMDB_run:
  assumes "healthy E" "rendering L" "Validate L (c_Instance c) old = []" "referencesReady E (c_Instance c)" "exporterImage L E c"
  obtains cr ds more r h' where "SyncPSMDB L E c h = (r, h')" "ApplyPSMDB cr \<in> set ds" "list_all notStarted ds"
    "seedDataSource L E c (h @ ds) = (Inr more, h')"
    "r = (if more \<and> hiddenStartPending c cr then Inl hiddenWait else Inr ())"
proof -
  obtain cr h1 where build: "buildPSMDB L E c h = (Inr cr, h1)" using succeedsD [OF buildPSMDB_succeeds [OF assms]] by blast
  obtain cs1 where cs1: "h1 = h @ cs1" "list_all notStarted cs1" using notStarted_build [OF build] by blast
  have "succeeds (writeCall E (ApplyPSMDB cr))" by (rule healthy_writes(1) [OF assms(1)]) simp
  then obtain u where ap: "writeCall E (ApplyPSMDB cr) h1 = (Inr u, h1 @ [ApplyPSMDB cr])"
    using succeedsD [of "writeCall E (ApplyPSMDB cr)" h1] by (auto simp: writeCall_def callIO_def)
  have "succeeds (deleteUnusedHiddenVolumes L E c)"
    unfolding deleteUnusedHiddenVolumes_def using assms(1) by (intro progress_intros)
  then obtain u' h2 where del: "deleteUnusedHiddenVolumes L E c (h1 @ [ApplyPSMDB cr]) = (Inr u', h2)"
    using succeedsD by blast
  obtain cs2 where cs2: "h2 = (h1 @ [ApplyPSMDB cr]) @ cs2" "list_all notStarted cs2" using emitsD [OF notStarted_volumes del] by blast
  obtain more h' where seed: "seedDataSource L E c h2 = (Inr more, h')"
    using succeedsD [OF seedDataSource_succeeds [OF assms(1)]] by blast
  show thesis
  proof (rule that)
    show "SyncPSMDB L E c h = (if more \<and> hiddenStartPending c cr then Inl hiddenWait else Inr (), h')"
      using build ap del seed by (simp add: SyncPSMDB_def bindIO_def hiddenWait_def failIO_def returnIO_def)
    show "ApplyPSMDB cr \<in> set (cs1 @ [ApplyPSMDB cr] @ cs2)" by simp
    show "list_all notStarted (cs1 @ [ApplyPSMDB cr] @ cs2)" using cs1(2) cs2(2) by simp
    show "seedDataSource L E c (h @ (cs1 @ [ApplyPSMDB cr] @ cs2)) = (Inr more, h')" using seed cs1(1) cs2(1) by simp
  qed simp
qed


text \<open>A sync always calls the cluster: its first step reads the CR.\<close>

lemma emits_any: "emits P m \<Longrightarrow> emits (\<lambda>_. True) m"
  by (erule emits_mono) simp

lemma phased_any: "phased Ps m \<Longrightarrow> emits (\<lambda>_. True) m"
  unfolding phased_def emits_def by (metis list_all_iff)

lemma preparePSMDB_calls: "retried (preparePSMDB L E c)"
proof -
  have "retried (convergedCRVersion L E c)"
    unfolding convergedCRVersion_def getPSMDB_def Let_def
    by (rule retried_handle [OF retried_call, where P = quiet])
      (auto intro!: emits_handle emits_bind emits_wrap emits_quiet_maintenance read_only_intros [THEN emits_quiet_read]
        split: sum.splits)
  then have "retried (startPSMDB L E c)"
    unfolding startPSMDB_def Let_def
    by (rule retried_bind [where P = isRead]) (intro emits_bind emits_return read_only_intros)
  then show ?thesis
    unfolding preparePSMDB_def
    by (rule retried_bind [where P = prepCall])
      (intro emits_bind emits_return emits_wrap emits_lift emits_prep_members emits_applyScheduling emits_labelPods
        emits_secureClients [THEN emits_prep_quiet] read_only_intros [THEN emits_prep_read])
qed

interpretation sync_loop: retried "SyncPSMDB L E c" for L E c
proof -
  have any: "emits (\<lambda>_. True) (writeCall E w)" for w
    unfolding writeCall_def by (rule emits_call) simp
  have "emits (\<lambda>_. True) (seedCredentials L E c)" "emits (\<lambda>_. True) (applyPMMBindings L E c n cr)" for n cr
    by (rule emits_any, rule emits_seedCredentials) (rule emits_any, rule emits_applyPMMBindings)
  then have "retried (buildPSMDB L E c)"
    unfolding buildPSMDB_def by (intro retried_bind [OF preparePSMDB_calls]) (auto intro!: emits_bind split: prod.splits)
  then show "retried (SyncPSMDB L E c)"
    unfolding SyncPSMDB_def
    by (rule retried_bind)
      (auto intro!: emits_bind any notStarted_volumes [THEN emits_any] emits_seedDataSource [THEN emits_any])
qed

section \<open>Properties\<close>

text \<open>C7. A sync makes progress. When the API server and the runtime answer, YAML is rendered, the Instance is one that
  \<^verbatim>\<open>Validate\<close> accepts, the secrets and storages it refers to exist, at most one of its storages has point-in-time recovery and its
  retentions are counts (neither of which \<^verbatim>\<open>Validate\<close> checks), the bindings for PMM are of a managed class, and the provider spec
  has an exporter image whenever one is required, \<^verbatim>\<open>SyncPSMDB\<close> applies the CR whatever the history is, and returns nil, or
  asks to be called again while volumes of earlier hidden members are in the way. With a data source it then reads the CR back and
  starts the initial restore exactly when that CR is ready to be restored into.\<close>

theorem sync_makes_progress:
  assumes "healthy E" "rendering L" "Validate L (c_Instance c) old = []" "referencesReady E (c_Instance c)" "exporterImage L E c"
  shows "\<exists>r cs cr. SyncPSMDB L E c h = (r, h @ cs) \<and> ApplyPSMDB cr \<in> set cs \<and>
    (r = Inr () \<or> r = Inl hiddenWait \<and> hiddenStartPending c cr) \<and>
    (in_DataSource (c_Instance c) \<noteq> None \<longrightarrow>
       (\<exists>before after. cs = before @ Get KPSMDB (c_Name c) # after \<and> ApplyPSMDB cr \<in> set before \<and>
          (ReconcileDataSource \<in> set cs \<longleftrightarrow>
             (\<exists>live. env_psmdb E (h @ before) (c_Name c) = Inr live \<and> gateOpen live))))"
proof -
  obtain cr ds more r h' where run: "SyncPSMDB L E c h = (r, h')" and ds: "ApplyPSMDB cr \<in> set ds" "list_all notStarted ds"
    and seed: "seedDataSource L E c (h @ ds) = (Inr more, h')"
    and r: "r = (if more \<and> hiddenStartPending c cr then Inl hiddenWait else Inr ())"
    using SyncPSMDB_run [OF assms] by metis
  obtain es where es: "h' = (h @ ds) @ es" using emitsD [OF emits_seedDataSource seed] by blast
  have "\<exists>after. ds @ es = ds @ Get KPSMDB (c_Name c) # after \<and> (ReconcileDataSource \<in> set (ds @ es) \<longleftrightarrow>
      (\<exists>live. env_psmdb E (h @ ds) (c_Name c) = Inr live \<and> gateOpen live))" if "in_DataSource (c_Instance c) \<noteq> None"
    using seedDataSource_cases [OF seed that] es ds(2)
    by (cases "env_psmdb E (h @ ds) (c_Name c)") (auto simp: list_all_iff split: if_splits)
  then show ?thesis
    using run ds(1) r es by (intro exI [of _ r] exI [of _ "ds @ es"] exI [of _ cr]) auto
qed

text \<open>C8. The initial restore starts. The runtime repeats the sync. If, under the conditions of a sync that makes progress, the
  operator brings the cluster up, so that from the \<open>N\<close>-th call on the CR reads as ready with a backup version and without an
  authentication error, then one of the first \<open>N + 1\<close> syncs ends by starting the initial restore, without an
  error other than the wait for hidden members.\<close>

theorem restore_eventually_starts:
  assumes ok: "healthy E" "rendering L" "Validate L (c_Instance c) old = []" "referencesReady E (c_Instance c)" "exporterImage L E c"
    and ds: "in_DataSource (c_Instance c) \<noteq> None"
    and up: "\<And>h. N \<le> length h \<Longrightarrow> \<exists>live. env_psmdb E h (c_Name c) = Inr live \<and> gateOpen live"
  shows "\<exists>k \<le> N. \<exists>r h'. SyncPSMDB L E c (rounds (SyncPSMDB L E c) k h) = (r, h') \<and> last h' = ReconcileDataSource \<and>
    r \<in> {Inr (), Inl hiddenWait}"
proof -
  have "\<exists>r h'. SyncPSMDB L E c h = (r, h') \<and> last h' = ReconcileDataSource \<and> r \<in> {Inr (), Inl hiddenWait}"
    if "N \<le> length h" for h
  proof -
    obtain cr cs more r h' where run: "SyncPSMDB L E c h = (r, h')"
      and seed: "seedDataSource L E c (h @ cs) = (Inr more, h')" and r: "r = (if more \<and> hiddenStartPending c cr then Inl hiddenWait else Inr ())"
      using SyncPSMDB_run [OF ok] by metis
    obtain live where "env_psmdb E (h @ cs) (c_Name c) = Inr live" "gateOpen live" using up [of "h @ cs"] \<open>N \<le> length h\<close> by auto
    with seedDataSource_cases [OF seed ds] have "h' = h @ cs @ [Get KPSMDB (c_Name c), ReconcileDataSource]" by simp
    with run r show ?thesis by (intro exI [of _ r] exI [of _ h']) simp
  qed
  from sync_loop.some_round [of N "\<lambda>(r, h'). last h' = ReconcileDataSource \<and> r \<in> {Inr (), Inl hiddenWait}" L E c h] this
  show ?thesis by fastforce
qed


section \<open>Witnesses\<close>

text \<open>A cluster that the operator brings up during the first calls, and an accepted Instance to be restored from a backup.\<close>

definition risingCluster :: env where
  "risingCluster = emptyCluster\<lparr>env_secret := \<lambda>h n. Inr fullSecret,
     env_psmdb := \<lambda>h n. if length h < 3 then Inl (APINotFound n) else Inr readyEngine\<rparr>"

lemma rising_ok:
  "healthy risingCluster" "rendering plainLib" "referencesReady risingCluster (c_Instance soundCtx)"
  "exporterImage plainLib risingCluster soundCtx"
  by (auto simp: healthy_def managedBindings_def risingCluster_def emptyCluster_def readable_def rendering_def exporterImage_def
      plainLib_def metricsExporterComponentType_def referencesReady_def sound_defs bareInstance_def)

lemma rising_gate: "3 \<le> length h \<Longrightarrow> \<exists>live. env_psmdb risingCluster h n = Inr live \<and> gateOpen live"
  by (simp add: risingCluster_def gateOpen_def readyEngine_def zeroPSMDB_def zeroStatus_def)

theorem sync_makes_progress_witness:
  "\<exists>r cs cr. SyncPSMDB plainLib risingCluster soundCtx [] = (r, cs) \<and> ApplyPSMDB cr \<in> set cs \<and>
     (r = Inr () \<or> r = Inl hiddenWait)"
  using sync_makes_progress [OF rising_ok(1,2) soundCtx_valid rising_ok(3,4), of "[]"] by auto

theorem restore_eventually_starts_witness:
  "\<exists>k \<le> 3. \<exists>r h'. SyncPSMDB plainLib risingCluster soundCtx (rounds (SyncPSMDB plainLib risingCluster soundCtx) k []) = (r, h') \<and>
     last h' = ReconcileDataSource"
proof -
  have "in_DataSource (c_Instance soundCtx) \<noteq> None" by (simp add: soundCtx_def soundInstance_def)
  then show ?thesis
    using restore_eventually_starts [OF rising_ok(1,2) soundCtx_valid rising_ok(3,4) _ rising_gate, where h = "[]"] by blast
qed

end
