(* ===== verification/Applied_CR.thy ===== *)
theory Applied_CR
  imports Sync_Progress
begin

text \<open>
  Well-formedness of the applied CR. \<^verbatim>\<open>Validate\<close> looks at the Instance, the operator at the CR; here the two are put together: what
  the whole sync of an accepted Instance applies meets the operator's minimums, and the flags that allow unsafe sizes are set
  exactly where a size needs them.
\<close>

section \<open>The members that a sync configures\<close>

text \<open>The operator's minimums for the volume and the limits of a data-bearing member.\<close>

definition meetsMinimums :: "volumeSpec option \<Rightarrow> resourceRequirements \<Rightarrow> bool" where
  "meetsMinimums vol res \<longleftrightarrow>
     (\<exists>v. vol = Some (Some v) \<and> minStorage \<le> qtyOf (pvcs_Requests v ''storage'')) \<and>
     minCPU \<le> qtyOf (rlGet (rr_Limits res) ''cpu'') \<and> minMemory \<le> qtyOf (rlGet (rr_Limits res) ''memory'')"

text \<open>A replica set as \<^verbatim>\<open>configureReplsets\<close> makes it: the engine's size, volume and resources, and hidden members only as the
  Instance asks for them.\<close>

definition replsetConfigured :: "ctx \<Rightarrow> replsetShape \<Rightarrow> bool" where
  "replsetConfigured c shape = (case shape of (name, sz, vol, hidOn, hidSize, hidVol, res, hidRes) \<Rightarrow>
     (let engine = compAt (c_Components c) ComponentEngine
      in sz = engineSize c \<and> vol = Some (mongodVolume (comp_Storage engine)) \<and> res = mongodResources (comp_Resources engine) \<and>
         (hidOn \<longrightarrow> 0 < i32 (hiddenReplicas c) \<and> (\<exists>live. hidSize = hiddenReplicas c \<and>
            hidVol = hid_VolumeSpec (hiddenSpecFor c live) \<and> hidRes = az_Resources (hid_MultiAZ (hiddenSpecFor c live))))))"

lemma configureReplset_shape:
  "rsShape (configureReplset L n replicas res st ex conf svc) =
     (n, case replicas of None \<Rightarrow> 3 | Some k \<Rightarrow> k, Some (mongodVolume st), hid_Enabled zeroHidden, hid_Size zeroHidden,
      hid_VolumeSpec zeroHidden, mongodResources res, az_Resources (hid_MultiAZ zeroHidden))"
  by (simp add: configureReplset_def rsShape_def Let_def split: option.splits)

lemma zeroHidden_off [simp]: "\<not> hid_Enabled zeroHidden"
  by (simp add: zeroHidden_def)

lemma hiddenSpecFor_size [simp]: "hid_Size (hiddenSpecFor c live) = hiddenReplicas c"
  by (simp add: hiddenSpecFor_def Let_def split: bool.splits option.splits)

lemma configureHidden_cases:
  assumes "configureHidden L E c rs h = (Inr rs', h')"
  shows "rs' = rs \<or> (0 < i32 (hiddenReplicas c) \<and> (\<exists>live. rs' = rs\<lparr>rs_Hidden := hiddenSpecFor c live\<rparr>))"
proof (cases "i32 (hiddenReplicas c) \<le> 0")
  case True
  with assms show ?thesis by (simp add: configureHidden_off io_simps)
next
  case False
  with configureHidden_result [OF assms] show ?thesis by auto
qed

lemma configureReplsets_shapes:
  assumes "configureReplsets L E c h = (Inr rss, h')" "rs \<in> set rss"
  shows "replsetConfigured c (rsShape rs)"
proof -
  let ?engine = "compAt (c_Components c) ComponentEngine"
  have base: "replsetConfigured c (rsShape (configureReplset L n (comp_Replicas ?engine) (comp_Resources ?engine)
      (comp_Storage ?engine) ex conf svc))" for n ex conf svc
    unfolding configureReplset_shape replsetConfigured_def engineSize_def by simp
  have hidden: "replsetConfigured c (rsShape (rs0\<lparr>rs_Hidden := hiddenSpecFor c live\<rparr>))"
    if "replsetConfigured c (rsShape rs0)" "0 < i32 (hiddenReplicas c)" for rs0 live
    using that by (auto simp: replsetConfigured_def rsShape_def Let_def)
  show ?thesis
    using assms base hidden
    by (auto simp: configureReplsets_def Let_def io_simps dest!: configureHidden_cases split: if_splits)
qed

lemma configureConfigServer_size:
  "configureConfigServerReplset L E c h = (Inr r, h') \<Longrightarrow> isSharded (c_Instance c) \<Longrightarrow>
     \<exists>cfg. r = Some cfg \<and> rs_Size cfg =
       (case comp_Replicas (compAt (c_Components c) ComponentConfigServer) of None \<Rightarrow> 3 | Some n \<Rightarrow> n)"
  by (auto simp: configureConfigServerReplset_def keepCurrentConfigServerStorageClass_def configureReplset_def Let_def
      io_simps handleIO_def call_defs split: sum.splits if_splits option.splits bool.splits prod.splits)

lemma configureMongos_size:
  "mos_Size (configureMongos L c) = (case comp_Replicas (compAt (c_Components c) ComponentProxy) of None \<Rightarrow> 3 | Some n \<Rightarrow> n)"
  by (simp add: configureMongos_def Let_def split: option.splits)


lemma configureMembers_shapes:
  assumes run: "configureMembers L E c cr h = (Inr cr', h')" and plain: "ps_Sharding (cr_Spec cr) = zeroSharding"
  shows "list_all (replsetConfigured c) (map rsShape (ps_Replsets (cr_Spec cr')))"
    and "map_option rs_Size (sh_Configsvr (ps_Sharding (cr_Spec cr'))) = (if isSharded (c_Instance c)
      then Some (case comp_Replicas (compAt (c_Components c) ComponentConfigServer) of None \<Rightarrow> 3 | Some n \<Rightarrow> n) else None)"
    and "map_option mos_Size (sh_Mongos (ps_Sharding (cr_Spec cr'))) = (if isSharded (c_Instance c)
      then Some (case comp_Replicas (compAt (c_Components c) ComponentProxy) of None \<Rightarrow> 3 | Some n \<Rightarrow> n) else None)"
proof -
  obtain rss h1 where rss: "configureReplsets L E c h = (Inr rss, h1)"
    using run by (auto simp: configureMembers_def io_simps)
  have shapes: "list_all (replsetConfigured c) (map rsShape rss)"
    using configureReplsets_shapes [OF rss] by (simp add: list_all_iff)
  let ?after = "\<lambda>sh. ps_Replsets (cr_Spec cr') = rss \<and> ps_Sharding (cr_Spec cr') = sh"
  show "list_all (replsetConfigured c) (map rsShape (ps_Replsets (cr_Spec cr')))"
    using run rss shapes
    by (cases "isSharded (c_Instance c)") (auto simp: configureMembers_def bindIO_def [of "configureReplsets L E c"] Let_def io_simps)
  have sharded: "\<exists>cfg. sh_Configsvr (ps_Sharding (cr_Spec cr')) = Some cfg \<and> rs_Size cfg =
        (case comp_Replicas (compAt (c_Components c) ComponentConfigServer) of None \<Rightarrow> 3 | Some n \<Rightarrow> n) \<and>
      sh_Mongos (ps_Sharding (cr_Spec cr')) = Some (configureMongos L c)" if "isSharded (c_Instance c)"
    using run rss that
    by (auto simp: configureMembers_def bindIO_def [of "configureReplsets L E c"] Let_def io_simps
        dest!: configureConfigServer_size)
  have plain': "ps_Sharding (cr_Spec cr') = zeroSharding" if "\<not> isSharded (c_Instance c)"
    using run rss that plain by (auto simp: configureMembers_def bindIO_def Let_def returnIO_def)
  show "map_option rs_Size (sh_Configsvr (ps_Sharding (cr_Spec cr'))) = (if isSharded (c_Instance c)
      then Some (case comp_Replicas (compAt (c_Components c) ComponentConfigServer) of None \<Rightarrow> 3 | Some n \<Rightarrow> n) else None)"
    using sharded plain' by (cases "isSharded (c_Instance c)") (auto simp: zeroSharding_def)
  show "map_option mos_Size (sh_Mongos (ps_Sharding (cr_Spec cr'))) = (if isSharded (c_Instance c)
      then Some (case comp_Replicas (compAt (c_Components c) ComponentProxy) of None \<Rightarrow> 3 | Some n \<Rightarrow> n) else None)"
    using sharded plain' by (cases "isSharded (c_Instance c)") (auto simp: zeroSharding_def configureMongos_size)
qed

text \<open>The same of the applied CR, whose members are those.\<close>

lemma membersConfigured_shapes:
  assumes "membersConfigured L E c cr"
  shows "rs \<in> set (ps_Replsets (cr_Spec cr)) \<Longrightarrow> replsetConfigured c (rsShape rs)"
    and "sh_Configsvr (ps_Sharding (cr_Spec cr)) = Some cfg \<Longrightarrow> isSharded (c_Instance c) \<and> rs_Size cfg =
      (case comp_Replicas (compAt (c_Components c) ComponentConfigServer) of None \<Rightarrow> 3 | Some n \<Rightarrow> n)"
    and "sh_Mongos (ps_Sharding (cr_Spec cr)) = Some mos \<Longrightarrow>
      mos_Size mos = (case comp_Replicas (compAt (c_Components c) ComponentProxy) of None \<Rightarrow> 3 | Some n \<Rightarrow> n)"
proof -
  obtain cr0 h0 cr1 h1 where run: "configureMembers L E c cr0 h0 = (Inr cr1, h1)" and plain: "ps_Sharding (cr_Spec cr0) = zeroSharding"
    and same: "members cr = members cr1"
    using assms unfolding membersConfigured_def by blast
  note shapes = configureMembers_shapes [OF run plain]
  have parts: "map rsShape (ps_Replsets (cr_Spec cr)) = map rsShape (ps_Replsets (cr_Spec cr1))"
    "map_option rsShape (sh_Configsvr (ps_Sharding (cr_Spec cr))) = map_option rsShape (sh_Configsvr (ps_Sharding (cr_Spec cr1)))"
    "map_option mos_Size (sh_Mongos (ps_Sharding (cr_Spec cr))) = map_option mos_Size (sh_Mongos (ps_Sharding (cr_Spec cr1)))"
    using same by (simp_all add: members_def Let_def)
  have "rs_Size = (fst \<circ> snd) \<circ> rsShape" by (simp add: fun_eq_iff rsShape_def)
  then have sizes: "map_option rs_Size o' = map_option (fst \<circ> snd) (map_option rsShape o')" for o'
    by (metis option.map_comp)
  show "replsetConfigured c (rsShape rs)" if "rs \<in> set (ps_Replsets (cr_Spec cr))"
    using shapes(1) parts(1) that by (metis (no_types, lifting) list_all_iff image_eqI set_map)
  show "isSharded (c_Instance c) \<and> rs_Size cfg =
      (case comp_Replicas (compAt (c_Components c) ComponentConfigServer) of None \<Rightarrow> 3 | Some n \<Rightarrow> n)"
    if "sh_Configsvr (ps_Sharding (cr_Spec cr)) = Some cfg"
    using shapes(2) parts(2) that unfolding sizes
    by (cases "isSharded (c_Instance c)") (auto simp: rsShape_def)
  show "mos_Size mos = (case comp_Replicas (compAt (c_Components c) ComponentProxy) of None \<Rightarrow> 3 | Some n \<Rightarrow> n)"
    if "sh_Mongos (ps_Sharding (cr_Spec cr)) = Some mos"
    using shapes(3) parts(3) that by (cases "isSharded (c_Instance c)") auto
qed

section \<open>Members of an accepted Instance\<close>

lemma accepted_engine:
  assumes "Validate L (c_Instance c) old = []"
  shows "comp_Replicas (compAt (c_Components c) ComponentEngine) = Some (engineSize c)" "1 \<le> i32 (engineSize c)" "odd (i32 (engineSize c))"
    and "meetsMinimums (Some (mongodVolume (comp_Storage (compAt (c_Components c) ComponentEngine))))
      (mongodResources (comp_Resources (compAt (c_Components c) ComponentEngine)))"
proof -
  obtain engine where engine: "c_Components c ''engine'' = Some engine" "engineAcceptable engine"
    using assms by (auto simp: Validate_iff rulesMet_def)
  have at: "compAt (c_Components c) ComponentEngine = engine" using engine by (simp add: compAt_def component_defs)
  obtain n where n: "comp_Replicas engine = Some n" "1 \<le> i32 n" "odd (i32 n)" using engine(2) by (auto simp: engineAcceptable_def)
  then show "comp_Replicas (compAt (c_Components c) ComponentEngine) = Some (engineSize c)" "1 \<le> i32 (engineSize c)"
    "odd (i32 (engineSize c))" by (simp_all add: engineSize_def at)
  obtain r l cpu mem st where r: "comp_Resources engine = Some r" "rr_Limits r = Some l" "l ''cpu'' = Some cpu"
    "minCPU \<le> cpu" "l ''memory'' = Some mem" "minMemory \<le> mem" "comp_Storage engine = Some st" "minStorage \<le> st_Size st"
    using engine(2) by (auto simp: engineAcceptable_def minCPU_def minMemory_def minStorage_def)
  have pos: "0 < minCPU" "0 < minMemory" "0 < minStorage" by (simp_all add: minCPU_def minMemory_def minStorage_def)
  then show "meetsMinimums (Some (mongodVolume (comp_Storage (compAt (c_Components c) ComponentEngine))))
      (mongodResources (comp_Resources (compAt (c_Components c) ComponentEngine)))"
    using r unfolding meetsMinimums_def at
    by (auto simp: mongodVolume_def mongodResources_def putNonZero_def rlGet_def qtyOf_def Let_def)
qed


lemma accepted_config_servers:
  assumes "Validate L (c_Instance c) old = []" "lib_topologyType L (c_Instance c) = ''sharded''"
  shows "\<exists>n. comp_Replicas (compAt (c_Components c) ComponentConfigServer) = Some n \<and> 1 \<le> i32 n \<and> odd (i32 n) \<and>
    (i32 (engineSize c) \<le> 1 \<or> 3 \<le> i32 n)"
proof -
  have "shardedAcceptable (c_Components c)" using assms by (simp add: Validate_iff rulesMet_def)
  then show ?thesis
    using accepted_engine(1) [OF assms(1)] by (auto simp: shardedAcceptable_def component_defs)
qed

lemma accepted_hidden_voting:
  assumes ok: "Validate L (c_Instance c) old = []" and hid: "0 < i32 (hiddenReplicas c)"
    and exact: "i32 (engineSize c) + i32 (hiddenReplicas c) < 2 ^ 31"
  shows "i32 (engineSize c) + i32 (hiddenReplicas c) \<le> 7"
proof -
  obtain hidden h where hidden: "c_Components c ''hidden'' = Some hidden" "comp_Replicas hidden = Some h" "hiddenReplicas c = h"
    using hid by (auto simp: hiddenReplicas_def component_defs split: option.splits)
  then have "hiddenAcceptable wrappedFits (c_Components c) hidden h" using ok by (auto simp: Validate_iff rulesMet_def)
  then have "i32 (engineSize c + h) \<le> 7"
    using accepted_engine(1) [OF ok] by (auto simp: hiddenAcceptable_def component_defs)
  moreover have "i32 (engineSize c + h) = i32 (engineSize c) + i32 h"
    using exact hid accepted_engine(2) [OF ok] hidden(3) by (intro i32_add_exact) simp_all
  ultimately show ?thesis using hidden(3) by simp
qed

section \<open>Properties\<close>

text \<open>C6. The CR of an accepted Instance is well formed. When \<^verbatim>\<open>Validate\<close> accepts the Instance and the runtime's topology type says
  sharded for every Instance whose topology does, every replica set of the CR that a sync
  applies has an odd, positive size and members with at least \<^verbatim>\<open>1Gi\<close> of storage, \<^verbatim>\<open>600m\<close> of CPU and \<^verbatim>\<open>512Mi\<close> of memory, its hidden
  members too; with them there are at most seven voting members, provided the two counts add up below \<open>2\<^sup>3\<^sup>1\<close> (beyond, \<^verbatim>\<open>Validate\<close>'s own
  sum wraps around); config servers
  are an odd, positive number. The flag that allows unsafe replica set sizes is set exactly when a replica set has fewer than three
  members, and then whenever the config servers need it; the flag for routers is set exactly when there are fewer than three.\<close>

theorem applied_cr_well_formed:
  assumes run: "SyncPSMDB L E c h = (r, h @ cs)" and applied: "ApplyPSMDB (cr :: psmdb) \<in> set cs"
    and ok: "Validate L (c_Instance c) old = []"
    and topology: "isSharded (c_Instance c) \<Longrightarrow> lib_topologyType L (c_Instance c) = ''sharded''"
  shows "(\<forall>rs \<in> set (ps_Replsets (cr_Spec cr)).
       1 \<le> i32 (rs_Size rs) \<and> odd (i32 (rs_Size rs)) \<and>
       meetsMinimums (rs_VolumeSpec rs) (az_Resources (rs_MultiAZ rs)) \<and>
       (uf_ReplsetSize (ps_Unsafe (cr_Spec cr)) \<longleftrightarrow> i32 (rs_Size rs) < 3) \<and>
       (hid_Enabled (rs_Hidden rs) \<longrightarrow>
          meetsMinimums (hid_VolumeSpec (rs_Hidden rs)) (az_Resources (hid_MultiAZ (rs_Hidden rs))) \<and>
          (i32 (rs_Size rs) + i32 (hid_Size (rs_Hidden rs)) < 2 ^ 31 \<longrightarrow>
             i32 (rs_Size rs) + i32 (hid_Size (rs_Hidden rs)) \<le> 7))) \<and>
    (\<forall>cfg. sh_Configsvr (ps_Sharding (cr_Spec cr)) = Some cfg \<longrightarrow> 1 \<le> i32 (rs_Size cfg) \<and> odd (i32 (rs_Size cfg)) \<and>
       (i32 (rs_Size cfg) < 3 \<longrightarrow> uf_ReplsetSize (ps_Unsafe (cr_Spec cr)))) \<and>
    (\<forall>mos. sh_Mongos (ps_Sharding (cr_Spec cr)) = Some mos \<longrightarrow>
       (uf_MongosSize (ps_Unsafe (cr_Spec cr)) \<longleftrightarrow> i32 (mos_Size mos) < 3))"
proof -
  have "appliedFor L E c h cr" by (rule SyncPSMDB_applied [OF run applied])
  then have conf: "membersConfigured L E c cr" and
    flags: "uf_ReplsetSize (ps_Unsafe (cr_Spec cr)) = uf_ReplsetSize (unsafeFlagsOf c)"
      "uf_MongosSize (ps_Unsafe (cr_Spec cr)) = uf_MongosSize (unsafeFlagsOf c)"
    unfolding appliedFor_def by blast+
  note engine = accepted_engine [OF ok]
  have small: "uf_ReplsetSize (ps_Unsafe (cr_Spec cr)) \<longleftrightarrow> i32 (engineSize c) < 3"
    using engine(1) by (simp add: flags unsafeFlagsOf_def Let_def)
  show ?thesis
  proof (intro conjI ballI allI impI)
    fix rs assume "rs \<in> set (ps_Replsets (cr_Spec cr))"
    then have shape: "replsetConfigured c (rsShape rs)" by (rule membersConfigured_shapes(1) [OF conf])
    then have size: "rs_Size rs = engineSize c" by (simp add: replsetConfigured_def rsShape_def Let_def)
    show "1 \<le> i32 (rs_Size rs)" "odd (i32 (rs_Size rs))" using engine(2,3) size by simp_all
    show "meetsMinimums (rs_VolumeSpec rs) (az_Resources (rs_MultiAZ rs))"
      using engine(4) shape by (simp add: replsetConfigured_def rsShape_def Let_def)
    show "uf_ReplsetSize (ps_Unsafe (cr_Spec cr)) \<longleftrightarrow> i32 (rs_Size rs) < 3" using small size by simp
    assume "hid_Enabled (rs_Hidden rs)"
    with shape obtain live where hid: "0 < i32 (hiddenReplicas c)" "hid_Size (rs_Hidden rs) = hiddenReplicas c"
      "hid_VolumeSpec (rs_Hidden rs) = hid_VolumeSpec (hiddenSpecFor c live)"
      "az_Resources (hid_MultiAZ (rs_Hidden rs)) = az_Resources (hid_MultiAZ (hiddenSpecFor c live))"
      by (auto simp: replsetConfigured_def rsShape_def Let_def)
    show "meetsMinimums (hid_VolumeSpec (rs_Hidden rs)) (az_Resources (hid_MultiAZ (rs_Hidden rs)))"
      using accepted_hidden_members_meet_minimums [OF ok hid(1), of live] by (simp add: meetsMinimums_def hid(3,4))
    show "i32 (rs_Size rs) + i32 (hid_Size (rs_Hidden rs)) \<le> 7"
      if "i32 (rs_Size rs) + i32 (hid_Size (rs_Hidden rs)) < 2 ^ 31"
      using accepted_hidden_voting [OF ok hid(1)] that by (simp add: size hid(2))
  next
    fix cfg assume "sh_Configsvr (ps_Sharding (cr_Spec cr)) = Some cfg"
    note cfg = membersConfigured_shapes(2) [OF conf this]
    then have "isSharded (c_Instance c)" by blast
    from accepted_config_servers [OF ok topology [OF this]] cfg obtain n where
      n: "rs_Size cfg = n" "1 \<le> i32 n" "odd (i32 n)" "i32 (engineSize c) \<le> 1 \<or> 3 \<le> i32 n" by auto
    then show "1 \<le> i32 (rs_Size cfg)" "odd (i32 (rs_Size cfg))" by simp_all
    show "uf_ReplsetSize (ps_Unsafe (cr_Spec cr))" if "i32 (rs_Size cfg) < 3" using that n small by auto
  next
    fix mos assume "sh_Mongos (ps_Sharding (cr_Spec cr)) = Some mos"
    from membersConfigured_shapes(3) [OF conf this]
    show "uf_MongosSize (ps_Unsafe (cr_Spec cr)) \<longleftrightarrow> i32 (mos_Size mos) < 3"
      by (simp add: flags unsafeFlagsOf_def Let_def split: option.splits)
  qed
qed

section \<open>Witness\<close>

lemma sound_sync: "\<exists>r cr cs. SyncPSMDB plainLib risingCluster soundCtx [] = (r, [] @ cs) \<and> ApplyPSMDB cr \<in> set cs"
proof -
  obtain cr ds more r h' where run: "SyncPSMDB plainLib risingCluster soundCtx [] = (r, h')" "ApplyPSMDB cr \<in> set ds"
    "seedDataSource plainLib risingCluster soundCtx ([] @ ds) = (Inr more, h')"
    using SyncPSMDB_run [OF rising_ok(1,2) soundCtx_valid rising_ok(3,4), of "[]"] by metis
  moreover obtain es where "h' = ([] @ ds) @ es" using emitsD [OF emits_seedDataSource run(3)] by blast
  ultimately show ?thesis by auto
qed

theorem applied_cr_well_formed_witness:
  "Validate plainLib (c_Instance soundCtx) None = [] \<and>
   (\<exists>r cs (cr :: psmdb) rs. SyncPSMDB plainLib risingCluster soundCtx [] = (r, cs) \<and> ApplyPSMDB cr \<in> set cs \<and>
     ps_Replsets (cr_Spec cr) = [rs] \<and> odd (i32 (rs_Size rs)) \<and>
     meetsMinimums (rs_VolumeSpec rs) (az_Resources (rs_MultiAZ rs)) \<and> \<not> uf_ReplsetSize (ps_Unsafe (cr_Spec cr)))"
proof -
  obtain r cr cs where run: "SyncPSMDB plainLib risingCluster soundCtx [] = (r, [] @ cs)" and ap: "ApplyPSMDB cr \<in> set cs"
    using sound_sync by blast
  have plain: "\<not> isSharded (c_Instance soundCtx)" by code_simp
  have wanted: "membersWanted plainLib soundCtx cr" using SyncPSMDB_applied [OF run ap] by (simp add: appliedFor_def)
  then have "length (map rs_Name (ps_Replsets (cr_Spec cr))) = 1" using plain by (simp add: membersWanted_def)
  then obtain rs where rs: "ps_Replsets (cr_Spec cr) = [rs]" by (auto simp: length_Suc_conv)
  moreover have "engineSize soundCtx = 3" by code_simp
  with wanted rs have "rs_Size rs = 3" by (simp add: membersWanted_def)
  ultimately show ?thesis
    using applied_cr_well_formed [OF run ap soundCtx_valid] plain run ap soundCtx_valid
    by (intro conjI exI [of _ r] exI [of _ cs] exI [of _ cr] exI [of _ rs]) simp_all
qed

end
