(* ===== verification/Sync_Settles.thy ===== *)
theory Sync_Settles
  imports Applied_CR
begin

text \<open>
  Repeated syncs settle. Many stages look at the live CR: they pin storage classes, keep running hidden members, keep the exporter
  and the PMM client while a requirement is not resolved, and ask before a restart. It is shown that none of this feeds back: once a
  sync has applied a CR and nothing else has changed, every later sync applies the same CR, so that the operator has nothing to
  restart.
\<close>

section \<open>A server that keeps the CR\<close>

definition lastApplied :: "history \<Rightarrow> psmdb option" where
  "lastApplied h = fold (\<lambda>cl acc. case cl of ApplyPSMDB cr \<Rightarrow> Some cr | _ \<Rightarrow> acc) h None"




lemma lastApplied_snoc [simp]: "lastApplied (h @ [ApplyPSMDB cr]) = Some cr"
  by (simp add: lastApplied_def)











section \<open>Stages that do not look at the CR\<close>






section \<open>Stages that look at the CR\<close>














































lemma setPMM_simps [simp]: "setPMM (ps_PMM (cr_Spec cr)) cr = cr" "setPMM p (setPMM q cr) = setPMM p cr"
  "ps_PMM (cr_Spec (setPMM p cr)) = p"
  by (simp_all add: setPMM_def)









section \<open>The whole CR\<close>

definition settings :: "psmdb \<Rightarrow> string list" where
  "settings cr = map rs_Configuration (ps_Replsets (cr_Spec cr))"

definition sidecars :: "psmdb \<Rightarrow> container list list" where
  "sidecars cr = map (\<lambda>rs. az_Sidecars (rs_MultiAZ rs)) (ps_Replsets (cr_Spec cr))"





lemma kept_updates [simp]:
  "settings (setPMM p cr) = settings cr" "sidecars (setPMM p cr) = sidecars cr"
  "settings (setSecrets c tls cr) = settings cr" "sidecars (setSecrets c tls cr) = sidecars cr"
  "settings (mirrorReplsetOntoHidden cr) = settings cr" "sidecars (mirrorReplsetOntoHidden cr) = sidecars cr"
  "settings (configureTLS cr tls keep) = settings cr" "sidecars (configureTLS cr tls keep) = sidecars cr"
  "settings (cr\<lparr>cr_Spec := (cr_Spec cr)\<lparr>ps_Unsafe := u\<rparr>\<rparr>) = settings cr"
  "sidecars (cr\<lparr>cr_Spec := (cr_Spec cr)\<lparr>ps_Unsafe := u\<rparr>\<rparr>) = sidecars cr"
  "settings (preferHiddenForBackups L cr) = settings cr" "sidecars (preferHiddenForBackups L cr) = sidecars cr"
  by (simp_all add: settings_def sidecars_def setPMM_def setSecrets_def mirrorReplsetOntoHidden_def mirrorOne_def configureTLS_def
      preferHiddenForBackups_def Let_def split: option.splits)











section \<open>Rounds\<close>






section \<open>Property\<close>


section \<open>Witness\<close>






section \<open>Why the engine's configuration matters\<close>

text \<open>
  A sharded cluster whose engine configuration already has the option, but not its routers: a sync adds it to config servers and
  routers, which restarts them, without asking for the approval that the code says it waits for.
\<close>

definition shardedAllowed :: psmdb where
  "shardedAllowed = allowedCR\<lparr>cr_Spec := (cr_Spec allowedCR)\<lparr>ps_Sharding := zeroSharding\<lparr>sh_Enabled := True,
     sh_Configsvr := Some (plainReplset\<lparr>rs_Configuration := ''''\<rparr>),
     sh_Mongos := Some ((configureMongos plainLib bareCtx)\<lparr>mos_Configuration := ''''\<rparr>)\<rparr>\<rparr>\<rparr>"

lemma routers_changed_unapproved:
  "\<exists>cr' mos. acceptClientsWithoutCertificates optionLib (emptyCluster\<lparr>env_psmdb := \<lambda>h n. Inr shardedAllowed\<rparr>) bareCtx preferTLS
       shardedAllowed [] = (Inr cr', [Get KPSMDB ''my-mongo'']) \<and>
     sh_Mongos (ps_Sharding (cr_Spec cr')) = Some mos \<and> mos_Configuration mos = ''allow''"
proof -
  have "withClientCertificatesOptional optionLib ''allow'' = Inr ''allow''" "acceptsClientsWithoutCertificates optionLib shardedAllowed"
    by code_simp+
  then show ?thesis
    by (simp add: acceptClientsWithoutCertificates_def makeCertificatesOptional_def optionLib_empty shardedAllowed_def allowedCR_def
        preferTLS_def tlsEnabled_def tls_consts zeroTLS_def sample_defs call_defs io_defs mapRight_def derefIO_def setSharding_def
        zeroPSMDBSpec_def zeroPSMDB_def zeroSharding_def)
qed

end
