(* ===== verification/Journeys.thy ===== *)
theory Journeys
  imports Backup_Import Cluster_Status
begin

text \<open>
  What several components achieve together for one user action. Each section follows an object through the provider: a backup
  found in a bucket until it is restored, a backup taken until it is restored, the advertised recovery window until a recovery
  resolves its base, and supplied credentials until clients are told them. Where the runtime or the API server stands between two
  steps (it stores the status a step returned, it keeps a created secret), that is a hypothesis of the theorem.
\<close>

section \<open>The operator restore a run leaves\<close>

text \<open>The run reports \<open>ob\<close>, and \<open>ob\<close> is what it wrote, or was there as wanted.\<close>

definition restoreLeft :: "env \<Rightarrow> restore \<Rightarrow> restoreState execStatus \<Rightarrow> history \<Rightarrow> history \<Rightarrow> opRestore \<Rightarrow> bool" where
  "restoreLeft E r x h h' ob \<longleftrightarrow> es_OperatorRef x = Some (or_Name ob) \<and>
     (writes h' = writes h \<and> (\<exists>h1. env_opRestore E h1 (res_Name r) = Inr ob) \<or>
      writes h' = writes h @ [CreateOpRestore ob] \<or> writes h' = writes h @ [UpdateOpRestore ob])"

lemma restoreExec_ref: "restoreExec E n op err h = (Inr x, h') \<Longrightarrow> es_OperatorRef x = Some n"
  by (cases op) (auto simp: restoreExec_def Let_def io_simps)

lemma SyncRestore_leaves:
  assumes run: "SyncRestore L E c r h = (Inr x, h')"
    and res: "resolveRestoreSource L E r h = (Inr (Inr (src, pitr)), h1)"
    and mode: "restoreModeOf E c src h1 = (Inr (Inr md), h2)"
  obtains ob old where "restoreLeft E r x h h' ob" "mutateOpRestore L c r md pitr old = Inr ob"
proof -
  obtain ob h3 where put: "createOrUpdate (getOpRestore E (res_Name r)) (newOpRestore r) (mutateOpRestore L c r md pitr)
      (\<lambda>ob. writeCall E (CreateOpRestore ob)) (\<lambda>ob. writeCall E (UpdateOpRestore ob)) h2 = (Inr ob, h3)"
    and exec: "restoreExec E (or_Name ob) (or_State ob) (or_Error ob) h3 = (Inr x, h')"
    using run res mode by (auto simp: SyncRestore_def io_simps)
  have same: "writes h2 = writes h" "writes h' = writes h3"
    using readOnly_writes [OF readOnly_resolveRestoreSource res] readOnly_writes [OF readOnly_restoreModeOf mode]
      readOnly_writes [OF restore_status.exec_readOnly exec] by simp_all
  obtain old where old: "mutateOpRestore L c r md pitr old = Inr ob"
    "writes h3 = writes h2 \<and> env_opRestore E h2 (res_Name r) = Inr ob \<or>
     writes h3 = writes h2 @ [CreateOpRestore ob] \<or> writes h3 = writes h2 @ [UpdateOpRestore ob]"
    using createOrUpdate_result [OF put] by (auto simp: call_defs io_simps writes_def split: if_splits option.splits)
  show thesis
    using that [of ob old] old same restoreExec_ref [OF exec] unfolding restoreLeft_def by metis
qed

text \<open>A restore that names a Backup.\<close>

definition restoresBackup :: "restore \<Rightarrow> string \<Rightarrow> bool" where
  "restoresBackup r n \<longleftrightarrow> n \<noteq> '''' \<and> ds_Type (res_DataSource r) = DataSourceTypeBackup \<and> ds_Backup (res_DataSource r) = Some n"

lemma resolves_named_backup:
  assumes "restoresBackup r n" "env_backup E h n = Inr b" "bkp_State b \<noteq> BackupFailed"
  shows "resolveRestoreSource L E r h = (Inr (Inr (b, None)), h @ [Get KBackup n])"
  using assms by (simp add: restoresBackup_def resolveRestoreSource_def resolveBackupSource_def call_defs io_defs)

section \<open>From a bucket to a restore\<close>

lemma imported_member:
  assumes "ImportBackups L S imp storage = Inr bs" "b \<in> set bs"
  obtains s3 keys key data m where "bst_S3 storage = Some s3" "Inr keys \<in> set (s3_Pages S (s3s_Bucket s3))" "key \<in> set keys"
    "getObject S (s3s_Bucket s3) key = Inr data" "unmarshalMeta L data = Inr m" "pm_Status m = pbmStatusDone"
    "hasSuffix key pbmMetadataSuffix" "b = importedBackup imp (trimSuffix key pbmMetadataSuffix) m"
proof -
  obtain s3 where s3: "bst_S3 storage = Some s3"
    "importPages L S imp (s3s_Bucket s3) (s3_Pages S (s3s_Bucket s3)) = Inr bs"
    using assms(1) by (auto simp: ImportBackups_def split: option.splits)
  obtain pages where pages: "s3_Pages S (s3s_Bucket s3) = map Inr pages"
    "bs = List.map_filter (importOf L S imp (s3s_Bucket s3)) (concat pages)"
    using importPages_ok [OF s3(2)] by blast
  obtain key where key: "key \<in> set (concat pages)" "importOf L S imp (s3s_Bucket s3) key = Some b"
    using assms(2) unfolding pages(2) by (elim map_filter_member [THEN bexE])
  then obtain keys where "Inr keys \<in> set (s3_Pages S (s3s_Bucket s3))" "key \<in> set keys" using pages(1) by auto
  moreover obtain data m where "getObject S (s3s_Bucket s3) key = Inr data" "unmarshalMeta L data = Inr m"
    "pm_Status m = pbmStatusDone" "hasSuffix key pbmMetadataSuffix"
    "b = importedBackup imp (trimSuffix key pbmMetadataSuffix) m"
    using key(2) by (auto simp: importOf_def parsePBM_def split: if_splits sum.splits option.splits)
  ultimately show thesis using that s3(1) by blast
qed

text \<open>The Backup that the runtime stores for an imported one: the specification is kept, the status is the runtime's.\<close>

definition sameOrigin :: "backup \<Rightarrow> backup \<Rightarrow> bool" where
  "sameOrigin b b' \<longleftrightarrow> bkp_OriginType b' = bkp_OriginType b \<and> bkp_External b' = bkp_External b \<and>
     bkp_InstanceRef b' = bkp_InstanceRef b \<and> bkp_StorageRef b' = bkp_StorageRef b"

lemma external_mode:
  assumes "bkp_OriginType b = OriginExternal" "bkp_External b = Some ext" "oe_Path ext \<noteq> ''''"
    and "env_backupStorage E h (bkp_StorageRef b) = Inr storage" "bst_S3 storage = Some s3"
  obtains s h1 where "buildExternalBackupSource E b h = (Inr (Inr s), h1)"
    "restoreModeOf E c b h = (Inr (Inr (FromExternal s)), h1)"
  using assms that by (auto simp: restoreModeOf_def buildExternalBackupSource_def call_defs io_defs Let_def)

lemma mutateOpRestore_external:
  assumes "mutateOpRestore L c r (FromExternal s) pitr old = Inr ob"
  shows "or_ClusterName ob = c_Name c" "or_BackupSource ob = Some s" "or_BackupName ob = ''''"
  using assms by (auto simp: mutateOpRestore_def mapRight_def Let_def split: sum.splits)

lemma trimByte_clean:
  assumes "hd s \<noteq> d" "last s \<noteq> d" "s \<noteq> ''''"
  shows "trimByte s d = s"
proof -
  have "dropWhile (\<lambda>c. c = d) xs = xs" if "hd xs \<noteq> d" "xs \<noteq> ''''" for xs
    using that by (cases xs) simp_all
  then show ?thesis using assms by (simp add: trimByte_def hd_rev)
qed

text \<open>Where a path lies: the prefix and the last segment, joined as a storage client joins them.\<close>

definition underPrefix :: "string \<Rightarrow> string \<Rightarrow> string" where
  "underPrefix pre segment = (if pre = '''' then segment else pre @ ''/'' @ segment)"

text \<open>A restore source that makes PBM look for the metadata document under \<open>key\<close>.\<close>

definition readsDocument :: "opBackupStatus \<Rightarrow> s3Storage \<Rightarrow> string \<Rightarrow> bool" where
  "readsDocument s s3 key \<longleftrightarrow> (\<exists>pre segment. obs_S3 s = Some (s3SpecOf s3 pre) \<and> CHR ''/'' \<notin> set segment \<and>
     obs_Destination s = ''s3://'' @ s3s_Bucket s3 @ ''/'' @ trimByte (trimSuffix key ''.pbm.json'') CHR ''/'' \<and>
     (hd key \<noteq> CHR ''/'' \<and> \<not> hasSuffix key ''/.pbm.json'' \<longrightarrow>
        underPrefix pre segment @ ''.pbm.json'' = key \<and>
        obs_Destination s @ ''.pbm.json'' = ''s3://'' @ s3s_Bucket s3 @ ''/'' @ key))"

text \<open>A key without slashes at the ends of its path: the path is not trimmed.\<close>

lemma trimmed_path:
  assumes "p @ ''.pbm.json'' = key" "p \<noteq> ''''" "hd key \<noteq> CHR ''/''" "\<not> hasSuffix key ''/.pbm.json''"
  shows "hd p \<noteq> CHR ''/''" "trimByte p CHR ''/'' = p"
proof -
  show first: "hd p \<noteq> CHR ''/''" using assms by (metis hd_append2)
  have "last p \<noteq> CHR ''/''"
  proof
    assume "last p = CHR ''/''"
    then have "key = butlast p @ ''/.pbm.json''" using assms(1,2) by (metis append.assoc append_Cons append_Nil append_butlast_last_id)
    then show False using assms(4) hasSuffix_iff by blast
  qed
  with first show "trimByte p CHR ''/'' = p" using assms(2) by (rule trimByte_clean)
qed

lemma external_reads_document:
  assumes run: "buildExternalBackupSource E b h = (Inr (Inr s), h')"
    and path: "bkp_External b = Some ext" "oe_Path ext @ ''.pbm.json'' = key" "oe_Path ext = trimSuffix key ''.pbm.json''"
    and storage: "env_backupStorage E h (bkp_StorageRef b) = Inr storage" "bst_S3 storage = Some s3"
  shows "readsDocument s s3 key"
proof -
  let ?p = "trimByte (oe_Path ext) CHR ''/''"
  obtain pre segment where loc: "obs_S3 s = Some (s3SpecOf s3 pre)" "obs_Destination s = ''s3://'' @ s3s_Bucket s3 @ ''/'' @ ?p"
    "oe_Path ext \<noteq> ''''" and segment: "CHR ''/'' \<notin> set segment" "pre = '''' \<and> ?p = segment \<or> ?p = pre @ ''/'' @ segment"
    using external_backup_location [OF run] path(1) storage by auto
  have "underPrefix pre segment @ ''.pbm.json'' = key \<and> obs_Destination s @ ''.pbm.json'' = ''s3://'' @ s3s_Bucket s3 @ ''/'' @ key"
    if "hd key \<noteq> CHR ''/''" "\<not> hasSuffix key ''/.pbm.json''"
  proof -
    note clean = trimmed_path [OF path(2) loc(3) that]
    then have "underPrefix pre segment = oe_Path ext" using segment(2) by (auto simp: underPrefix_def)
    then show ?thesis using loc(2) path(2) clean(2) by simp
  qed
  then show ?thesis unfolding readsDocument_def path(3) [symmetric] using loc(1,2) segment(1) by blast
qed

lemma external_without_path:
  assumes "bkp_OriginType b = OriginExternal" "bkp_External b = Some ext" "oe_Path ext = ''''"
  shows "\<exists>m. restoreModeOf E c b h = (Inr (Inl (noExec RestoreFailed m)), h)"
  using assms by (auto simp: restoreModeOf_def buildExternalBackupSource_def io_defs Let_def)

lemma SyncRestore_waits:
  assumes "SyncRestore L E c r h = (Inr x, h')" "resolveRestoreSource L E r h = (Inr (Inr (src, pitr)), h1)"
    and "restoreModeOf E c src h1 = (Inr (Inl y), h2)"
  shows "x = y \<and> writes h' = writes h"
  using assms readOnly_writes [OF readOnly_resolveRestoreSource assms(2)] readOnly_writes [OF readOnly_restoreModeOf assms(3)]
  by (auto simp: SyncRestore_def io_simps)

text \<open>C14. A backup found in a bucket is restored from where it was found. An import returns a Backup for a finished metadata
  document; when the runtime has stored it and a Restore names it, a run of \<^verbatim>\<open>SyncRestore\<close> leaves an operator restore of this cluster
  whose source is that bucket with the document's prefix and segment: destination and suffix give the key of the very document the
  import read, when the key has no slashes at its ends. Only for the key that is just the suffix is the Restore failed instead.\<close>

theorem imported_backup_restores_in_place:
  assumes imported: "ImportBackups L S imp storage = Inr bs" "b \<in> set bs"
    and stored: "restoresBackup r (bkp_Name b)" "env_backup E h (bkp_Name b) = Inr b'" "sameOrigin b b'" "bkp_State b' \<noteq> BackupFailed"
    and storage: "\<And>h. env_backupStorage E h (imp_StorageRef imp) = Inr storage"
    and run: "SyncRestore L E c r h = (Inr x, h')"
  shows "\<exists>s3 keys key data m. bst_S3 storage = Some s3 \<and> Inr keys \<in> set (s3_Pages S (s3s_Bucket s3)) \<and> key \<in> set keys \<and>
    getObject S (s3s_Bucket s3) key = Inr data \<and> unmarshalMeta L data = Inr m \<and> pm_Status m = ''done'' \<and>
    map_option oe_Path (bkp_External b) = Some (trimSuffix key ''.pbm.json'') \<and> hasSuffix key ''.pbm.json'' \<and>
    (if key = ''.pbm.json'' then es_State x = RestoreFailed \<and> writes h' = writes h
     else \<exists>ob s. restoreLeft E r x h h' ob \<and> or_ClusterName ob = c_Name c \<and> or_BackupName ob = '''' \<and>
       or_BackupSource ob = Some s \<and> readsDocument s s3 key)"
proof -
  obtain s3 keys key data m where found: "bst_S3 storage = Some s3" "Inr keys \<in> set (s3_Pages S (s3s_Bucket s3))"
    "key \<in> set keys" "getObject S (s3s_Bucket s3) key = Inr data" "unmarshalMeta L data = Inr m"
    and fin: "pm_Status m = pbmStatusDone" "hasSuffix key pbmMetadataSuffix"
    and b: "b = importedBackup imp (trimSuffix key pbmMetadataSuffix) m"
    using imported by (rule imported_member)
  let ?p = "trimSuffix key ''.pbm.json''" and ?h1 = "h @ [Get KBackup (bkp_Name b)]"
  have path: "map_option oe_Path (bkp_External b) = Some ?p" "hasSuffix key ''.pbm.json''"
    using fin(2) by (simp_all add: b importedBackup_def pbmMetadataSuffix_def)
  then have key: "?p @ ''.pbm.json'' = key" using trimSuffix_inverse by blast
  obtain ext where ext: "bkp_OriginType b' = OriginExternal" "bkp_External b' = Some ext" "oe_Path ext = ?p"
    "bkp_StorageRef b' = imp_StorageRef imp"
    using stored(3) by (auto simp: sameOrigin_def b importedBackup_def pbmMetadataSuffix_def)
  note res = resolves_named_backup [OF stored(1,2,4), of L]
  have "if key = ''.pbm.json'' then es_State x = RestoreFailed \<and> writes h' = writes h
     else \<exists>ob s. restoreLeft E r x h h' ob \<and> or_ClusterName ob = c_Name c \<and> or_BackupName ob = '''' \<and>
       or_BackupSource ob = Some s \<and> readsDocument s s3 key"
  proof (cases "?p = ''''")
    case True
    with ext(3) obtain m where "restoreModeOf E c b' ?h1 = (Inr (Inl (noExec RestoreFailed m)), ?h1)"
      using external_without_path [OF ext(1,2)] by metis
    from SyncRestore_waits [OF run res this] True key show ?thesis by auto
  next
    case False
    then have "key \<noteq> ''.pbm.json''" using key by (metis append_self_conv2)
    have at: "oe_Path ext \<noteq> ''''" "env_backupStorage E ?h1 (bkp_StorageRef b') = Inr storage"
      using False ext(3,4) storage by simp_all
    obtain s h2 where src: "buildExternalBackupSource E b' ?h1 = (Inr (Inr s), h2)"
      "restoreModeOf E c b' ?h1 = (Inr (Inr (FromExternal s)), h2)"
      by (rule external_mode [OF ext(1,2) at found(1)])
    obtain ob old where ob: "restoreLeft E r x h h' ob" "mutateOpRestore L c r (FromExternal s) None old = Inr ob"
      using SyncRestore_leaves [OF run res src(2)] .
    have "readsDocument s s3 key"
      using key ext(3) by (intro external_reads_document [OF src(1) ext(2) _ _ at(2) found(1)]) simp_all
    with ob(1) mutateOpRestore_external [OF ob(2)] \<open>key \<noteq> ''.pbm.json''\<close> show ?thesis by auto
  qed
  then show ?thesis using found fin(1) path unfolding pbmStatusDone_def by blast
qed

section \<open>From a backup to a restore\<close>

text \<open>The Backup after the runtime has stored what \<^verbatim>\<open>SyncBackup\<close> returned.\<close>

definition recorded :: "backup \<Rightarrow> backupState execStatus \<Rightarrow> backup" where
  "recorded b x = b\<lparr>bkp_State := es_State x, bkp_CompletedAt := es_CompletedAt x, bkp_OperatorBackupRef := es_OperatorRef x\<rparr>"

text \<open>The server returns an operator backup under its own name.\<close>

definition namesBackups :: "env \<Rightarrow> bool" where
  "namesBackups E \<longleftrightarrow> (\<forall>h n ob. env_opBackup E h n = Inr ob \<longrightarrow> ob_Name ob = n)"

lemma backupExec_ref: "backupExec E n op err h = (Inr x, h') \<Longrightarrow> es_OperatorRef x = Some n"
  by (cases op) (auto simp: backupExec_def Let_def io_simps)

lemma SyncBackup_succeeded:
  assumes run: "SyncBackup L E c b h = (Inr x, h')" and won: "es_State x = BackupSucceeded" and named: "namesBackups E"
  obtains old h1 where "env_opBackup E h1 (bkp_Name b) = Inr old" "obs_State (ob_Status old) = OpBackupReady"
    "es_OperatorRef x = Some (bkp_Name b)" "\<exists>h2. es_CompletedAt x = Some (env_now E h2)"
proof -
  have "es_State (noExec BackupPending m) \<noteq> BackupSucceeded" for m by simp
  then obtain ob h1 h2 where put: "createOrUpdate (getOpBackup E (bkp_Name b)) (newOpBackup b) (mutateOpBackup L c b)
      (\<lambda>ob. writeCall E (CreateOpBackup ob)) (\<lambda>ob. writeCall E (UpdateOpBackup ob)) h1 = (Inr ob, h2)"
    and exec: "backupExec E (ob_Name ob) (obs_State (ob_Status ob)) (obs_Error (ob_Status ob)) h2 = (Inr x, h')"
    using run won by (auto simp: SyncBackup_def handleIO_def io_simps split: prod.splits sum.splits if_splits)
  have ready: "obs_State (ob_Status ob) = OpBackupReady"
    using exec won by (cases "obs_State (ob_Status ob)") (auto simp: backupExec_def Let_def io_simps)
  then obtain old where old: "env_opBackup E h1 (bkp_Name b) = Inr old" "ob_Status old = ob_Status ob"
    using syncedOpBackup(5) [OF put] by blast
  have "ob_Name ob = bkp_Name b"
    using createOrUpdate_result [OF put] named
    by (auto simp: call_defs io_simps namesBackups_def newOpBackup_def dest: mutateOpBackup_fields(5))
  moreover have "\<exists>h2. es_CompletedAt x = Some (env_now E h2)"
    using exec ready by (auto simp: backupExec_def Let_def io_simps call_defs)
  ultimately show thesis using that old ready backupExec_ref [OF exec] by metis
qed

lemma recorded_mode:
  assumes "bkp_OriginType b = OriginInstance" "bkp_InstanceRef b = Some i" "es_OperatorRef x = Some (bkp_Name b)"
  shows "i = c_Name c \<Longrightarrow> restoreModeOf E c (recorded b x) h = (Inr (Inr (FromOwnBackup (bkp_Name b))), h)"
    and "i \<noteq> c_Name c \<Longrightarrow> env_opBackup E h (bkp_Name b) = Inr src \<Longrightarrow> obs_Destination (ob_Status src) \<noteq> '''' \<Longrightarrow>
      restoreModeOf E c (recorded b x) h =
        (Inr (Inr (FromOtherCluster (ob_Status src) (bkp_StorageRef b))), h @ [Get KOpBackup (bkp_Name b)])"
    and "i \<noteq> c_Name c \<Longrightarrow> env_opBackup E h (bkp_Name b) = Inr src \<Longrightarrow> obs_Destination (ob_Status src) = '''' \<Longrightarrow>
      \<exists>m. restoreModeOf E c (recorded b x) h = (Inr (Inl (noExec RestorePending m)), h @ [Get KOpBackup (bkp_Name b)])"
    and "i \<noteq> c_Name c \<Longrightarrow> env_opBackup E h (bkp_Name b) = Inl e \<Longrightarrow>
      (if isNotFound e then \<exists>m. restoreModeOf E c (recorded b x) h = (Inr (Inl (noExec RestorePending m)), h @ [Get KOpBackup (bkp_Name b)])
       else isl (fst (restoreModeOf E c (recorded b x) h)))"
  using assms by (auto simp: restoreModeOf_def recorded_def call_defs io_defs Let_def)

text \<open>A clone's restore: it waits for the source, or names all of it.\<close>

definition clonedFrom :: "backup \<Rightarrow> opBackupStatus \<Rightarrow> opRestore \<Rightarrow> bool" where
  "clonedFrom b src ob \<longleftrightarrow> or_BackupName ob = '''' \<and> or_StorageName ob = bkp_StorageRef b \<and>
     (\<exists>s. or_BackupSource ob = Some s \<and> obs_StorageName s = bkp_StorageRef b \<and> obs_Destination s = obs_Destination src \<and>
        obs_S3 s = obs_S3 src \<and> obs_Type s = obs_Type src \<and> obs_PBMname s = obs_PBMname src)"

lemma mutateOpRestore_cases:
  assumes "mutateOpRestore L c r md pitr old = Inr ob"
  shows "or_ClusterName ob = c_Name c"
    and "md = FromOwnBackup n \<Longrightarrow> or_BackupName ob = n \<and> or_BackupSource ob = None"
    and "md = FromOtherCluster src (bkp_StorageRef b) \<Longrightarrow> clonedFrom b src ob"
  using assms by (auto simp: mutateOpRestore_def clonedFrom_def mapRight_def Let_def split: sum.splits restoreMode.splits)

text \<open>C13. A backup that was taken can be restored, here and elsewhere. Once \<^verbatim>\<open>SyncBackup\<close> has reported success, the operator backup
  was ready; and with its result stored on the Backup, a Restore that names it gives, on the same cluster, an operator restore of just
  that operator backup, and on another cluster one that copies where the data is, credentials being read from the storage of the
  same name; it waits only while that operator backup is gone or has no destination, and then writes nothing.\<close>

theorem taken_backup_restores:
  assumes taken: "SyncBackup L E c b h = (Inr x, h')" "es_State x = BackupSucceeded" and named: "namesBackups E"
    and origin: "bkp_OriginType b = OriginInstance" "bkp_InstanceRef b = Some (c_Name c)"
    and stored: "restoresBackup r (bkp_Name b)" "env_backup E g (bkp_Name b) = Inr (recorded b x)"
    and run: "SyncRestore L E c' r g = (Inr y, g')"
  shows "(\<exists>h1 old. env_opBackup E h1 (bkp_Name b) = Inr old \<and> obs_State (ob_Status old) = OpBackupReady) \<and>
    (if c_Name c' = c_Name c
     then \<exists>ob. restoreLeft E r y g g' ob \<and> or_ClusterName ob = c_Name c \<and> or_BackupName ob = bkp_Name b \<and> or_BackupSource ob = None
     else case env_opBackup E (g @ [Get KBackup (bkp_Name b)]) (bkp_Name b) of
       Inl e \<Rightarrow> isNotFound e \<and> es_State y = RestorePending \<and> writes g' = writes g
     | Inr src \<Rightarrow>
         (if obs_Destination (ob_Status src) = '''' then es_State y = RestorePending \<and> writes g' = writes g
          else \<exists>ob. restoreLeft E r y g g' ob \<and> or_ClusterName ob = c_Name c' \<and> clonedFrom b (ob_Status src) ob))"
proof -
  obtain old h1 where old: "env_opBackup E h1 (bkp_Name b) = Inr old" "obs_State (ob_Status old) = OpBackupReady"
    and ref: "es_OperatorRef x = Some (bkp_Name b)"
    using taken named by (rule SyncBackup_succeeded)
  let ?g = "g @ [Get KBackup (bkp_Name b)]"
  have "bkp_State (recorded b x) \<noteq> BackupFailed" using taken(2) by (simp add: recorded_def)
  note res = resolves_named_backup [OF stored this, of L] and modes = recorded_mode [OF origin ref]
  have waits: "es_State y = RestorePending \<and> writes g' = writes g"
    if "restoreModeOf E c' (recorded b x) ?g = (Inr (Inl (noExec RestorePending m)), g2)" for m g2
    using SyncRestore_waits [OF run res that] by simp
  have leaves: "\<exists>ob old. restoreLeft E r y g g' ob \<and> mutateOpRestore L c' r md None old = Inr ob"
    if "restoreModeOf E c' (recorded b x) ?g = (Inr (Inr md), g2)" for md g2
    using SyncRestore_leaves [OF run res that] by blast
  consider (own) "c_Name c' = c_Name c"
    | (gone) e where "c_Name c \<noteq> c_Name c'" "env_opBackup E ?g (bkp_Name b) = Inl e"
    | (there) src where "c_Name c \<noteq> c_Name c'" "env_opBackup E ?g (bkp_Name b) = Inr src"
    by (cases "env_opBackup E ?g (bkp_Name b)") metis+
  then show ?thesis
  proof cases
    case own
    obtain ob o1 where ob: "restoreLeft E r y g g' ob"
      "mutateOpRestore L c' r (FromOwnBackup (bkp_Name b)) None o1 = Inr ob"
      using leaves [OF modes(1) [OF own [symmetric]]] by blast
    with own old mutateOpRestore_cases(1,2) [OF ob(2)] show ?thesis by auto
  next
    case gone
    have "\<not> isl (fst (restoreModeOf E c' (recorded b x) ?g))" using run res by (auto simp: SyncRestore_def io_simps)
    with gone old show ?thesis using modes(4) [OF gone] waits by (auto split: if_splits)
  next
    case there
    show ?thesis
    proof (cases "obs_Destination (ob_Status src) = ''''")
      case True
      with there old show ?thesis using waits modes(3) [OF there True] by auto
    next
      case False
      obtain ob o1 where "restoreLeft E r y g g' ob"
        "mutateOpRestore L c' r (FromOtherCluster (ob_Status src) (bkp_StorageRef b)) None o1 = Inr ob"
        using leaves [OF modes(2) [OF there False]] by blast
      with there old False show ?thesis using mutateOpRestore_cases(1,3) by auto
    qed
  qed
qed

section \<open>From a scheduled backup to its Backup\<close>

text \<open>C16. A scheduled backup is adopted, not taken again. When the Backup that \<^verbatim>\<open>Mirror\<close> made of an operator backup is synced, the
  operator backup keeps its cluster, storage and status: at most its finalizer and owner are added, by one update, and none is
  created. The status reported is the one of that operator backup.\<close>

theorem mirrored_backup_adopted:
  assumes mirrored: "Mirror E (OOpBackup ob) h = (Inr (Some b), h1)"
    and stored: "bkp_Name b' = bkp_Name b" "bkp_StorageRef b' = bkp_StorageRef b"
    and server: "\<And>g. env_opBackup E g (ob_Name ob) = Inr ob" and here: "c_Name c = ob_ClusterName ob"
    and run: "SyncBackup L E c b' g = (Inr x, g')"
  shows "(writes g' = writes g \<or>
      (\<exists>ctl. lib_setControllerReference L (ob_Name ob) (ob_Controller ob) = Inr ctl \<and> writes g' = writes g @
         [UpdateOpBackup (ob\<lparr>ob_Finalizers := addFinalizer psmdbDeleteBackupFinalizer (ob_Finalizers ob), ob_Controller := ctl\<rparr>)])) \<and>
    (case es_OperatorRef x of
       None \<Rightarrow> es_State x = BackupPending \<and> writes g' = writes g
     | Some n \<Rightarrow> n = ob_Name ob \<and> (es_State x = BackupSucceeded \<longleftrightarrow> obs_State (ob_Status ob) = OpBackupReady) \<and>
         (es_State x = BackupFailed \<longleftrightarrow> obs_State (ob_Status ob) = OpBackupError))"
proof -
  have name: "bkp_Name b' = ob_Name ob" "bkp_StorageRef b' = ob_StorageName ob" using mirror_only_scheduled [OF mirrored] stored by auto
  let ?adopted = "\<lambda>ctl. ob\<lparr>ob_Finalizers := addFinalizer psmdbDeleteBackupFinalizer (ob_Finalizers ob), ob_Controller := ctl\<rparr>"
  have mutated: "\<exists>ctl. lib_setControllerReference L (ob_Name ob) (ob_Controller ob) = Inr ctl \<and> new = ?adopted ctl"
    if "mutateOpBackup L c b' ob = Inr new" for new
    using that here name by (auto simp: mutateOpBackup_def mapRight_def Let_def split: sum.splits)
  show ?thesis
  proof (cases "\<exists>m. x = noExec BackupPending m")
    case True
    then have "g' = g @ [Get KPSMDB (c_Name c)]"
      using run by (auto simp: SyncBackup_def handleIO_def io_simps call_defs noExec_def backupExec_ref
          split: prod.splits sum.splits if_splits dest: backupExec_ref)
    with True show ?thesis by (auto simp: noExec_def writes_def)
  next
    case False
    then obtain new g1 g2 where put: "createOrUpdate (getOpBackup E (ob_Name ob)) (newOpBackup b') (mutateOpBackup L c b')
        (\<lambda>ob. writeCall E (CreateOpBackup ob)) (\<lambda>ob. writeCall E (UpdateOpBackup ob)) g1 = (Inr new, g2)" "writes g1 = writes g"
      and exec: "backupExec E (ob_Name new) (obs_State (ob_Status new)) (obs_Error (ob_Status new)) g2 = (Inr x, g')"
      using run by (auto simp: SyncBackup_def handleIO_def io_simps call_defs name writes_def split: prod.splits sum.splits if_splits)
    have new: "mutateOpBackup L c b' ob = Inr new" "writes g2 = writes g \<or> writes g2 = writes g @ [UpdateOpBackup new]"
      using createOrUpdate_result [OF put(1)] server put(2)
      by (auto simp: call_defs io_simps writes_def split: if_splits option.splits)
    have "writes g' = writes g2" using readOnly_writes [OF backup_status.exec_readOnly exec] .
    with new mutated [OF new(1)] backupExec_ref [OF exec] exec show ?thesis
      by (cases "obs_State (ob_Status ob)") (auto simp: backupExec_def Let_def io_simps)
  qed
qed

section \<open>From the advertised window to a recovery\<close>

text \<open>A point-in-time restore of instance \<open>i\<close> to date \<open>d\<close> from storage \<open>st\<close>.\<close>

definition recoversTo :: "restore \<Rightarrow> string \<Rightarrow> string \<Rightarrow> time \<Rightarrow> bool" where
  "recoversTo r i st d \<longleftrightarrow> ds_Type (res_DataSource r) = DataSourceTypePointInTime \<and>
     (\<exists>pit. ds_PointInTime (res_DataSource r) = Some pit \<and> pit_StorageRef pit = st \<and> pit_Date pit = Some d \<and>
        (case pit_InstanceRef pit of None \<Rightarrow> res_InstanceRef r | Some n \<Rightarrow> n) = i)"

text \<open>Every ready operator backup of the storage has a succeeded Backup, stamped at most \<open>lag\<close> after the operator's completion.\<close>

definition trackedWithin :: "time \<Rightarrow> string \<Rightarrow> string \<Rightarrow> opBackup list \<Rightarrow> backup list \<Rightarrow> bool" where
  "trackedWithin lag cluster st obs bs \<longleftrightarrow> list_all (\<lambda>ob. onStorage cluster st ob \<longrightarrow>
     list_ex (\<lambda>b. bkp_StorageRef b = st \<and> bkp_State b = BackupSucceeded \<and>
       (case bkp_CompletedAt b of None \<Rightarrow> False | Some t \<Rightarrow> t \<le> completedAt ob + lag)) bs) obs"

lemma available_oldest:
  assumes "pw_State (pitrWindow (collectStorageBackups obs cluster st)) = PITRStateAvailable"
  obtains ob where "ob \<in> set obs" "onStorage cluster st ob"
    "pw_Earliest (pitrWindow (collectStorageBackups obs cluster st)) = Some (completedAt ob)"
proof -
  obtain ob rest where ob: "collectStorageBackups obs cluster st = ob # rest"
    using assms by (cases "collectStorageBackups obs cluster st") (auto simp: pitrWindow_def)
  then have "ob \<in> set (collectStorageBackups obs cluster st)" by simp
  then have m: "ob \<in> set obs" "onStorage cluster st ob" by (auto simp: collectStorageBackups_def)
  then have "obs_CompletedAt (ob_Status ob) = Some (completedAt ob)" by (auto simp: onStorage_def completedAt_def)
  with ob assms have "pw_Earliest (pitrWindow (collectStorageBackups obs cluster st)) = Some (completedAt ob)"
    by (auto simp: pitrWindow_def split: option.splits)
  with m that show thesis by blast
qed

lemma bestBase_exists:
  assumes "b \<in> set bs" "pitrCandidate st date b = Some b"
  obtains best where "bestBase st date bs = Some best" "best \<in> set bs" "pitrCandidate st date best = Some best"
proof -
  have "bestBase st date bs \<noteq> None" using assms base_backup.pick_None [of st date bs] by fastforce
  then obtain best where best: "bestBase st date bs = Some best" by blast
  then obtain x where "x \<in> set bs" "pitrCandidate st date x = Some best" using base_backup.pick_seen by blast
  moreover from this have "x = best" by (simp add: pitrCandidate_Some)
  ultimately show thesis using that best by blast
qed

lemma window_of_storage:
  assumes "BackupStorageStatuses E c h = (Inr sts, h')" "(st, Some w) \<in> set sts"
  obtains obs where "env_opBackups E h = Inr obs" "w = pitrWindow (collectStorageBackups obs (c_Name c) st)"
  using assms
  by (auto simp: BackupStorageStatuses_def io_simps call_defs split: option.splits if_splits)

text \<open>C15. The advertised recovery window can be used. When \<^verbatim>\<open>BackupStorageStatuses\<close> reports a window for a storage and every ready
  operator backup there has its succeeded Backup, a Restore to any date from the start of the window on finds a base backup completed
  by then and asks for just that date, once the date is later than the start by the delay with which Backups were stamped.\<close>

theorem advertised_window_recoverable:
  assumes run: "BackupStorageStatuses E c h = (Inr sts, h')" "(st, Some w) \<in> set sts" "pw_State w = PITRStateAvailable"
    and tracked: "env_backupsOf E g (res_Namespace r) (c_Name c) = Inr bs"
      "\<And>obs. env_opBackups E h = Inr obs \<Longrightarrow> trackedWithin lag (c_Name c) st obs bs"
    and target: "recoversTo r (c_Name c) st d"
  shows "\<exists>t0. pw_Earliest w = Some t0 \<and> (t0 + lag \<le> d \<longrightarrow>
    (\<exists>b p t g'. resolveRestoreSource L E r g = (Inr (Inr (b, Some p)), g') \<and> writes g' = writes g \<and> prs_Date p = Some d \<and>
       b \<in> set bs \<and> bkp_StorageRef b = st \<and> bkp_State b = BackupSucceeded \<and> bkp_CompletedAt b = Some t \<and> t \<le> d))"
proof -
  obtain obs where obs: "env_opBackups E h = Inr obs" "w = pitrWindow (collectStorageBackups obs (c_Name c) st)"
    using run(1,2) by (rule window_of_storage)
  obtain ob where ob: "ob \<in> set obs" "onStorage (c_Name c) st ob" "pw_Earliest w = Some (completedAt ob)"
    using run(3) unfolding obs(2) by (rule available_oldest)
  show ?thesis
  proof (intro exI [of _ "completedAt ob"] conjI impI)
    show "pw_Earliest w = Some (completedAt ob)" by (rule ob(3))
    assume late: "completedAt ob + lag \<le> d"
    obtain b where "b \<in> set bs" "bkp_StorageRef b = st" "bkp_State b = BackupSucceeded"
      "\<exists>t. bkp_CompletedAt b = Some t \<and> t \<le> completedAt ob + lag"
      using tracked(2) [OF obs(1)] ob(1,2) by (auto simp: trackedWithin_def list_all_iff list_ex_iff split: option.splits)
    with late have "b \<in> set bs" "pitrCandidate st (Some d) b = Some b" by (auto simp: pitrCandidate_Some)
    then obtain best where best: "bestBase st (Some d) bs = Some best" "best \<in> set bs" "pitrCandidate st (Some d) best = Some best"
      by (rule bestBase_exists)
    obtain p g' where res: "resolveRestoreSource L E r g = (Inr (Inr (best, Some p)), g')" "prs_Date p = Some d"
      using target tracked(1) best(1)
      by (auto simp: recoversTo_def resolveRestoreSource_def resolvePointInTimeSource_def selectPITRBaseBackup_def
          call_defs io_defs Let_def)
    then have "writes g' = writes g" using readOnly_writes [OF readOnly_resolveRestoreSource] by blast
    with res best(2,3) show "\<exists>b p t g'. resolveRestoreSource L E r g = (Inr (Inr (b, Some p)), g') \<and> writes g' = writes g \<and>
       prs_Date p = Some d \<and> b \<in> set bs \<and> bkp_StorageRef b = st \<and> bkp_State b = BackupSucceeded \<and>
       bkp_CompletedAt b = Some t \<and> t \<le> d"
      by (auto simp: pitrCandidate_Some)
  qed
qed

text \<open>The delay matters: a target after the operator's completion but before the provider saw it lies in the window, yet finds no base.\<close>

theorem window_starts_too_early:
  assumes taken: "SyncBackup L E c b h = (Inr x, h')" "es_State x = BackupSucceeded" "namesBackups E"
    and clock: "\<And>h. env_now E h = now" and ready: "onStorage (c_Name c) (bkp_StorageRef b) ob" "latestRestorable [ob] = Some t1"
    and only: "env_backupsOf E g (res_Namespace r) (c_Name c) = Inr [recorded b x]"
    and target: "recoversTo r (c_Name c) (bkp_StorageRef b) d" "completedAt ob \<le> d" "d < now" "d \<le> t1"
  shows "pw_State (pitrWindow (collectStorageBackups [ob] (c_Name c) (bkp_StorageRef b))) = PITRStateAvailable"
    and "\<exists>t0. pw_Earliest (pitrWindow (collectStorageBackups [ob] (c_Name c) (bkp_StorageRef b))) = Some t0 \<and> t0 \<le> d"
    and "\<exists>t1. pw_Latest (pitrWindow (collectStorageBackups [ob] (c_Name c) (bkp_StorageRef b))) = Some t1 \<and> d \<le> t1"
    and "\<exists>y g'. resolveRestoreSource L E r g = (Inr (Inl y), g') \<and> es_State y = RestorePending"
proof -
  have ws: "collectStorageBackups [ob] (c_Name c) (bkp_StorageRef b) = [ob]" using ready(1) by (simp add: collectStorageBackups_def)
  then show open_window: "pw_State (pitrWindow (collectStorageBackups [ob] (c_Name c) (bkp_StorageRef b))) = PITRStateAvailable"
    using ready(2) by (simp add: pitrWindow_def)
  show "\<exists>t1. pw_Latest (pitrWindow (collectStorageBackups [ob] (c_Name c) (bkp_StorageRef b))) = Some t1 \<and> d \<le> t1"
    using ws ready(2) target(4) by (simp add: pitrWindow_def)
  show "\<exists>t0. pw_Earliest (pitrWindow (collectStorageBackups [ob] (c_Name c) (bkp_StorageRef b))) = Some t0 \<and> t0 \<le> d"
    using available_oldest [OF open_window] target(2) by (metis empty_iff empty_set set_ConsD)
  have "es_CompletedAt x = Some now" using SyncBackup_succeeded [OF taken] clock by metis
  then have "bestBase (bkp_StorageRef b) (Some d) [recorded b x] = None"
    using target(3) by (simp add: bestBase_def baseStep_def pitrCandidate_def recorded_def)
  then show "\<exists>y g'. resolveRestoreSource L E r g = (Inr (Inl y), g') \<and> es_State y = RestorePending"
    using target(1) only
    by (auto simp: recoversTo_def resolveRestoreSource_def resolvePointInTimeSource_def selectPITRBaseBackup_def noExec_def
        call_defs io_defs Let_def)
qed

section \<open>From supplied credentials to clients\<close>

text \<open>The secret that was first created under a name.\<close>

fun firstCreated :: "string \<Rightarrow> history \<Rightarrow> secret option" where
  "firstCreated n [] = None"
| "firstCreated n (cl # h) =
     (case cl of CreateSecret s \<Rightarrow> if sec_Name s = n then Some s else firstCreated n h | _ \<Rightarrow> firstCreated n h)"

lemma firstCreated_append [simp]:
  "firstCreated n (g @ h) = (case firstCreated n g of None \<Rightarrow> firstCreated n h | Some s \<Rightarrow> Some s)"
  by (induction g) (auto split: call.splits)

lemma firstCreated_none: "list_all (\<lambda>cl. \<nexists>s. cl = CreateSecret s) h \<Longrightarrow> firstCreated n h = None"
  by (induction h) (auto split: call.splits)

text \<open>
  A server that keeps what was created under a name: there is no such secret before, and afterwards it has the created data. Others
  may add to it (the operator generates the users that are missing), and the keys \<open>own\<close> may be overwritten.
\<close>

definition keepsSecret :: "env \<Rightarrow> string \<Rightarrow> string set \<Rightarrow> bool" where
  "keepsSecret E n own \<longleftrightarrow> (\<forall>h. case firstCreated n h of
     None \<Rightarrow> (\<exists>e. env_secret E h n = Inl e \<and> isNotFound e)
   | Some s \<Rightarrow> (\<exists>sec. env_secret E h n = Inr sec \<and>
       (\<forall>k v. sec_Data s k = Some v \<longrightarrow> k \<notin> own \<longrightarrow> sec_Data sec k = Some v)))"

lemma keepsSecret_missing:
  "keepsSecret E n own \<Longrightarrow> firstCreated n h = None \<Longrightarrow> \<exists>e. env_secret E h n = Inl e \<and> isNotFound e"
  unfolding keepsSecret_def by (drule spec [of _ h]) simp

lemma keepsSecret_kept:
  assumes "keepsSecret E n own" "firstCreated n h = Some s"
  shows "\<exists>sec. env_secret E h n = Inr sec \<and> (\<forall>k v. sec_Data s k = Some v \<longrightarrow> k \<notin> own \<longrightarrow> dataAt sec k = v)"
proof -
  have "case firstCreated n h of None \<Rightarrow> (\<exists>e. env_secret E h n = Inl e \<and> isNotFound e)
    | Some s \<Rightarrow> (\<exists>sec. env_secret E h n = Inr sec \<and> (\<forall>k v. sec_Data s k = Some v \<longrightarrow> k \<notin> own \<longrightarrow> sec_Data sec k = Some v))"
    using assms(1) unfolding keepsSecret_def by blast
  with assms(2) obtain sec where "env_secret E h n = Inr sec" "\<forall>k v. sec_Data s k = Some v \<longrightarrow> k \<notin> own \<longrightarrow> sec_Data sec k = Some v"
    by auto
  then show ?thesis by (auto simp: dataAt_def)
qed

text \<open>A sync that applies a CR has prepared and seeded before.\<close>

lemma applied_after_seeding:
  assumes run: "SyncPSMDB L E c h = (r, h @ cs)" and applied: "ApplyPSMDB cr \<in> set cs"
  obtains prep h2 ds where "list_all prepCall prep" "seedCredentials L E c (h @ prep) = (Inr (), h2)" "h @ cs = h2 @ ds"
proof -
  obtain q h1 where build: "buildPSMDB L E c h = (q, h1)" by (cases "buildPSMDB L E c h")
  have "\<not> isl q"
  proof
    assume "isl q"
    with run build have h1: "h1 = h @ cs" by (cases q) (simp_all add: SyncPSMDB_def bindIO_def)
    obtain css where css: "h1 = h @ concat css" "list_all2 list_all (syncPhases L c) css"
      using phasedD [OF phased_buildPSMDB build] by blast
    from css(2) have "ApplyPSMDB cr \<notin> set (concat css)" by (rule phases3) (auto simp: not_applied)
    with css(1) h1 applied show False by simp
  qed
  then obtain cr' where built: "buildPSMDB L E c h = (Inr cr', h1)" using build by (cases q) auto
  obtain crp tls hp h2 cr2 where prep: "preparePSMDB L E c h = (Inr (crp, tls), hp)" and
    seed: "seedCredentials L E c hp = (Inr (), h2)" and
    pmm: "applyPMMBindings L E c (usersSecretOf (c_Name c)) crp h2 = (Inr cr2, h1)"
    using built by (auto simp: buildPSMDB_def io_simps)
  obtain pc where pc: "hp = h @ pc" "list_all prepCall pc" using emitsD [OF emits_preparePSMDB prep] by blast
  obtain d1 where d1: "h1 = h2 @ d1" using emitsD [OF emits_applyPMMBindings pmm] by blast
  have anything: "emits (\<lambda>_. True) (bindIO (writeCall E (ApplyPSMDB cr')) (\<lambda>_. bindIO (deleteUnusedHiddenVolumes L E c) (\<lambda>_.
      bindIO (seedDataSource L E c) (\<lambda>more. if more \<and> hiddenStartPending c cr'
        then failIO (WaitFor ''hidden members start once the volumes of earlier ones are deleted'') else returnIO ()))))"
    unfolding writeCall_def
    by (auto intro!: emits_bind emits_mono [OF emits_final_hidden] emits_mono [OF emits_seedDataSource])
  obtain d2 where "h @ cs = h1 @ d2"
    using run built emitsD [OF anything] by (simp add: SyncPSMDB_def bindIO_def [of "buildPSMDB L E c"]) blast
  then show thesis using that [of pc h2 "d1 @ d2"] pc seed d1 by simp
qed

text \<open>The secret the credentials of an Instance come from: the user's, or else the users secret of the Instance its data comes from.\<close>

definition credentialsFrom :: "env \<Rightarrow> ctx \<Rightarrow> string \<Rightarrow> bool" where
  "credentialsFrom E c name = (case in_UserSecretRef (c_Instance c) of
     Some ref \<Rightarrow> name = ref
   | None \<Rightarrow> (case in_DataSource (c_Instance c) of
       None \<Rightarrow> False
     | Some ds \<Rightarrow> \<exists>i. i \<noteq> '''' \<and> name = ''everest-secrets-'' @ i \<and> (\<forall>h. fst (dataSourceInstanceName E ds h) = Inr i)))"

lemma seeding_creates:
  assumes seed: "seedCredentials L E c h = (Inr (), h')" and source: "credentialsFrom E c name"
    and missing: "env_secret E h (usersSecretOf (c_Name c)) = Inl e" "isNotFound e" and there: "\<And>h. env_secret E h name = Inr src"
  obtains reads where "list_all isRead reads"
    "createSecret E c (usersSecretOf (c_Name c)) (sec_Data src) (h @ reads) = (Inr (), h')"
proof -
  let ?n = "usersSecretOf (c_Name c)"
  show thesis
  proof (cases "in_UserSecretRef (c_Instance c)")
    case (Some ref)
    then have "createSecret E c ?n (sec_Data src) (h @ [Get KSecret ?n, Get KSecret ref]) = (Inr (), h')"
      using seed source missing there
      by (simp add: credentialsFrom_def seedCredentials_def ensureUserSecret_def handleIO_def getSecret_def callIO_def bindIO_def wrapIO_def)
    with that [of "[Get KSecret ?n, Get KSecret ref]"] show thesis by simp
  next
    case None
    with source obtain ds i where ds: "in_DataSource (c_Instance c) = Some ds" "i \<noteq> ''''" "name = ''everest-secrets-'' @ i"
      "\<And>h. fst (dataSourceInstanceName E ds h) = Inr i"
      by (auto simp: credentialsFrom_def split: option.splits)
    let ?h = "h @ [Get KSecret ?n]"
    obtain h1 where h1: "dataSourceInstanceName E ds ?h = (Inr i, h1)" using ds(4) [of ?h] by (cases "dataSourceInstanceName E ds ?h") simp
    obtain rs where rs: "h1 = ?h @ rs" "list_all isRead rs" using emitsD [OF readOnly_dataSourceInstanceName h1] by blast
    have "createSecret E c ?n (sec_Data src) (h1 @ [Get KSecret name]) = (Inr (), h')"
      using seed None ds(1,2) missing there h1 unfolding ds(3)
      by (simp add: seedCredentials_def ensureDataSourceCredentials_def handleIO_def getSecret_def callIO_def
          bindIO_def [of "dataSourceInstanceName E ds"] Let_def)
    with that [of "[Get KSecret ?n] @ rs @ [Get KSecret name]"] rs show thesis by simp
  qed
qed

lemma seeded_from:
  assumes seed: "seedCredentials L E c h = (Inr (), h')" and source: "credentialsFrom E c name"
    and server: "keepsSecret E (usersSecretOf (c_Name c)) own" "\<And>h. env_secret E h name = Inr src"
    and fresh: "firstCreated (usersSecretOf (c_Name c)) h = None"
  shows "firstCreated (usersSecretOf (c_Name c)) h' = Some (managedSecret c (usersSecretOf (c_Name c)) (sec_Data src))"
proof -
  let ?n = "usersSecretOf (c_Name c)"
  obtain e where e: "env_secret E h ?n = Inl e" "isNotFound e" using keepsSecret_missing [OF server(1) fresh] by blast
  obtain reads where reads: "list_all isRead reads" "createSecret E c ?n (sec_Data src) (h @ reads) = (Inr (), h')"
    using seed source e server(2) by (rule seeding_creates)
  have "list_all (\<lambda>cl. \<nexists>s. cl = CreateSecret s) reads" using reads(1) by (rule list.pred_mono_strong) auto
  then have "firstCreated ?n reads = None" by (rule firstCreated_none)
  with createSecret_writes [OF reads(2)] fresh show ?thesis by (simp add: managedSecret_def)
qed

lemma ready_built:
  assumes "StatusPSMDB L E c h = (Inr (ReadyWithConnectionDetails d), h')"
  obtains cr where "buildConnectionDetails L E c cr (h @ statusCalls c) = (Inr d, h')"
proof (cases "env_psmdb E h (c_Name c)")
  case (Inl e)
  with assms status_unreadable [OF Inl, of L] show thesis by simp
next
  case (Inr cr)
  show thesis
  proof (cases "seeded (statusDataSource E c h)")
    case False
    with assms status_not_seeded [OF Inr False, of L] show thesis by (simp split: if_splits)
  next
    case True
    obtain b h2 where built: "buildConnectionDetails L E c cr (h @ statusCalls c) = (b, h2)"
      by (cases "buildConnectionDetails L E c cr (h @ statusCalls c)")
    with assms status_restores [OF Inr True, of L] have "buildConnectionDetails L E c cr (h @ statusCalls c) = (Inr d, h')"
      by (cases "statusRestores E c h"; cases b) (auto split: if_splits)
    with that show thesis by blast
  qed
qed

text \<open>C12. Clients are told the right credentials: those the user supplied, or for an Instance made from another one's data that one's,
  which the restored data has. When a sync of a new Instance gets to applying the CR, the users secret has been created with the data of
  that secret, under the name the CR gives the operator; and whenever the Instance is reported ready later, the user name and password
  among its connection details are those, on a server that keeps created secrets, whatever the operator adds to it and
  whatever becomes of the PMM token in it.\<close>

theorem credentials_reach_clients:
  assumes run: "SyncPSMDB L E c h = (r, h @ cs)" and applied: "ApplyPSMDB cr \<in> set cs"
    and source: "credentialsFrom E c name"
    and server: "keepsSecret E (usersSecretOf (c_Name c)) {lib_pmmServerToken L}" "\<And>h. env_secret E h name = Inr src"
    and fresh: "firstCreated (usersSecretOf (c_Name c)) h = None"
    and admin: "sec_Data src (lib_databaseAdminUser L) = Some user" "sec_Data src (lib_databaseAdminPassword L) = Some password"
      "lib_pmmServerToken L \<notin> {lib_databaseAdminUser L, lib_databaseAdminPassword L}"
    and later: "StatusPSMDB L E c ((h @ cs) @ since) = (Inr (ReadyWithConnectionDetails d), h')"
  shows "cd_Username d = user \<and> cd_Password d = password \<and>
    (\<exists>s. ps_Secrets (cr_Spec cr) = Some s \<and> ss_Users s = usersSecretOf (c_Name c)) \<and>
    firstCreated (usersSecretOf (c_Name c)) (h @ cs) = Some (managedSecret c (usersSecretOf (c_Name c)) (sec_Data src))"
proof -
  let ?n = "usersSecretOf (c_Name c)"
  obtain prep h2 ds where stages: "list_all prepCall prep" "seedCredentials L E c (h @ prep) = (Inr (), h2)" "h @ cs = h2 @ ds"
    using run applied by (rule applied_after_seeding)
  have "list_all (\<lambda>cl. \<nexists>s. cl = CreateSecret s) prep"
    using stages(1) by (rule list.pred_mono_strong) (auto simp: prepCall_def)
  then have "firstCreated ?n (h @ prep) = None" using fresh firstCreated_none by simp
  then have created: "firstCreated ?n (h @ cs) = Some (managedSecret c ?n (sec_Data src))"
    unfolding stages(3) using seeded_from [OF stages(2) source server] by simp
  obtain live where built: "buildConnectionDetails L E c live (((h @ cs) @ since) @ statusCalls c) = (Inr d, h')"
    using later by (rule ready_built)
  have "firstCreated ?n (((h @ cs) @ since) @ statusCalls c) = Some (managedSecret c ?n (sec_Data src))"
    by (subst firstCreated_append, subst firstCreated_append, unfold created) simp
  from keepsSecret_kept [OF server(1) this] obtain sec where
    sec: "env_secret E (((h @ cs) @ since) @ statusCalls c) ?n = Inr sec"
      "\<forall>k v. sec_Data src k = Some v \<longrightarrow> k \<notin> {lib_pmmServerToken L} \<longrightarrow> dataAt sec k = v"
    by (auto simp: managedSecret_def)
  have "cd_Username d = user" "cd_Password d = password"
    using connection_details_exact [OF built sec(1)] sec(2) admin by auto
  moreover have "\<exists>s. ps_Secrets (cr_Spec cr) = Some s \<and> ss_Users s = ?n"
    using SyncPSMDB_applied [OF run applied] unfolding appliedFor_def usersSecretOf_def by blast
  ultimately show ?thesis using created by blast
qed

section \<open>Witnesses\<close>

definition foundBackup :: backup where
  "foundBackup = importedBackup sampleImport (trimSuffix ''a.pbm.json'' pbmMetadataSuffix) doneMeta"

definition foundRestore :: restore where
  "foundRestore = sampleRestore\<lparr>res_DataSource := \<lparr>ds_Type = DataSourceTypeBackup, ds_Backup = Some (bkp_Name foundBackup),
     ds_PointInTime = None\<rparr>\<rparr>"

definition foundCluster :: env where
  "foundCluster = emptyCluster\<lparr>env_backup := \<lambda>h n. Inr (foundBackup\<lparr>bkp_State := BackupSucceeded\<rparr>),
     env_backupStorage := \<lambda>h n. Inr sampleStorage\<rparr>"

lemma foundName: "importBackupName s p \<noteq> ''''"
  by (simp add: importBackupName_def)

lemma path_a: "trimSuffix ''a.pbm.json'' pbmMetadataSuffix = ''a''"
  by code_simp

theorem imported_backup_restores_in_place_witness:
  "\<exists>x h' ob s. SyncRestore documentLib foundCluster bareCtx foundRestore [] = (Inr x, h') \<and>
     restoreLeft foundCluster foundRestore x [] h' ob \<and> or_BackupSource ob = Some s \<and> obs_Destination s @ ''.pbm.json'' = ''s3://b/a.pbm.json''"
proof -
  obtain x h' where run: "SyncRestore documentLib foundCluster bareCtx foundRestore [] = (Inr x, h')"
    by (simp add: SyncRestore_def resolveRestoreSource_def resolveBackupSource_def restoreModeOf_def buildExternalBackupSource_def
        createOrUpdate_def mutateOpRestore_def mapRight_def newOpRestore_def restoreExec_def foundRestore_def sampleRestore_def
        foundCluster_def foundBackup_def importedBackup_def foundName path_a sampleStorage_def documentLib_def plainLib_def
        emptyCluster_def call_defs io_defs Let_def)
  have imported: "ImportBackups documentLib sampleS3 sampleImport sampleStorage = Inr [foundBackup]"
    using sampleImport_runs by (simp add: foundBackup_def)
  have stored: "restoresBackup foundRestore (bkp_Name foundBackup)"
    "env_backup foundCluster [] (bkp_Name foundBackup) = Inr (foundBackup\<lparr>bkp_State := BackupSucceeded\<rparr>)"
    "sameOrigin foundBackup (foundBackup\<lparr>bkp_State := BackupSucceeded\<rparr>)"
    "bkp_State (foundBackup\<lparr>bkp_State := BackupSucceeded\<rparr>) \<noteq> BackupFailed"
    and storage: "env_backupStorage foundCluster h (imp_StorageRef sampleImport) = Inr sampleStorage" for h
    by (simp_all add: restoresBackup_def foundRestore_def foundBackup_def importedBackup_def importBackupName_def
        foundCluster_def sameOrigin_def)
  have "foundBackup \<in> set [foundBackup]" by simp
  from imported_backup_restores_in_place [OF imported this stored storage run] obtain s3 keys key where
    found: "bst_S3 sampleStorage = Some s3" "Inr keys \<in> set (s3_Pages sampleS3 (s3s_Bucket s3))" "key \<in> set keys"
      "hasSuffix key ''.pbm.json''" and
    left: "if key = ''.pbm.json'' then es_State x = RestoreFailed \<and> writes h' = writes []
     else \<exists>ob s. restoreLeft foundCluster foundRestore x [] h' ob \<and> or_ClusterName ob = c_Name bareCtx \<and> or_BackupName ob = '''' \<and>
       or_BackupSource ob = Some s \<and> readsDocument s s3 key"
    by (elim exE conjE) (rule that)
  have no: "\<not> hasSuffix ''a/data'' ''.pbm.json''" "\<not> hasSuffix ''a.pbm.json'' ''/.pbm.json''" by code_simp+
  with found have key: "key = ''a.pbm.json''" and bucket: "s3s_Bucket s3 = ''b''"
    by (auto simp: sampleS3_def sampleStorage_def sampleBucket_def)
  obtain ob s where ob: "restoreLeft foundCluster foundRestore x [] h' ob" "or_BackupSource ob = Some s" "readsDocument s s3 key"
    using left unfolding key by auto
  have "obs_Destination s @ ''.pbm.json'' = ''s3://'' @ s3s_Bucket s3 @ ''/'' @ key"
    using ob(3) no(2) unfolding readsDocument_def key by force
  then have "obs_Destination s @ ''.pbm.json'' = ''s3://b/a.pbm.json''" by (simp add: key bucket)
  with run ob(1,2) show ?thesis by blast
qed

definition takenBackup :: backup where
  "takenBackup = doneBackup\<lparr>bkp_CompletedAt := Some 130, bkp_OperatorBackupRef := Some ''b1''\<rparr>"

text \<open>A cluster whose operator finished a backup at 100, which the provider saw at 130.\<close>

definition takenCluster :: env where
  "takenCluster = backupCluster\<lparr>env_opBackup := \<lambda>h n. if n = ''b1'' then Inr syncedBackup else Inl (APINotFound n),
     env_backup := \<lambda>h n. Inr takenBackup, env_now := \<lambda>h. 130, env_opBackups := \<lambda>h. Inr [syncedBackup],
     env_backupsOf := \<lambda>h ns n. Inr [takenBackup]\<rparr>"

definition cloneCtx :: ctx where
  "cloneCtx = bareCtx\<lparr>c_Name := ''clone''\<rparr>"

definition takenStatus :: "backupState execStatus" where
  "takenStatus = \<lparr>es_State = BackupSucceeded, es_Message = '''', es_CompletedAt = Some 130, es_OperatorRef = Some ''b1''\<rparr>"

lemma takenCluster_runs:
  "\<exists>h'. SyncBackup plainLib takenCluster bareCtx doneBackup [] = (Inr takenStatus, h')"
  "\<exists>y g'. SyncRestore plainLib takenCluster cloneCtx sampleRestore [] = (Inr y, g')"
  by (simp_all add: SyncBackup_def createOrUpdate_def backupExec_def mutateOpBackup_def mapRight_def addFinalizer_def takenStatus_def
      syncedBackup_def readyBackup_def doneBackup_def externalBackup_def plainLib_def bareCtx_def cloneCtx_def takenBackup_def
      takenCluster_def backupCluster_def onceBackedUp_def storageCR_def emptyCluster_def
      SyncRestore_def resolveRestoreSource_def resolveBackupSource_def restoreModeOf_def mutateOpRestore_def newOpRestore_def
      restoreExec_def sampleRestore_def zeroOpStatus_def call_defs io_defs Let_def)

lemma takenCluster_facts:
  "namesBackups takenCluster" "recorded doneBackup takenStatus = takenBackup" "bkp_Name doneBackup = ''b1''"
  "bkp_OriginType doneBackup = OriginInstance" "bkp_InstanceRef doneBackup = Some (c_Name bareCtx)"
  "restoresBackup sampleRestore ''b1''" "es_State takenStatus = BackupSucceeded"
  by (auto simp: namesBackups_def takenCluster_def syncedBackup_def readyBackup_def recorded_def doneBackup_def takenBackup_def
      takenStatus_def externalBackup_def bareCtx_def restoresBackup_def sampleRestore_def split: if_splits)

theorem taken_backup_restores_witness:
  "\<exists>y g' ob s. SyncRestore plainLib takenCluster cloneCtx sampleRestore [] = (Inr y, g') \<and>
     restoreLeft takenCluster sampleRestore y [] g' ob \<and> or_ClusterName ob = ''clone'' \<and> or_BackupSource ob = Some s \<and>
     obs_Destination s = ''s3://b/p''"
proof -
  obtain h' where taken: "SyncBackup plainLib takenCluster bareCtx doneBackup [] = (Inr takenStatus, h')"
    using takenCluster_runs(1) by blast
  obtain y g' where run: "SyncRestore plainLib takenCluster cloneCtx sampleRestore [] = (Inr y, g')"
    using takenCluster_runs(2) by blast
  note facts = takenCluster_facts
  have stored: "restoresBackup sampleRestore (bkp_Name doneBackup)"
    "env_backup takenCluster [] (bkp_Name doneBackup) = Inr (recorded doneBackup takenStatus)"
    using facts by (simp_all add: takenCluster_def)
  have src: "env_opBackup takenCluster g ''b1'' = Inr syncedBackup" "obs_Destination (ob_Status syncedBackup) = ''s3://b/p''" for g
    by (simp_all add: takenCluster_def syncedBackup_def readyBackup_def)
  have other: "c_Name cloneCtx = ''clone''" "(''clone'' = c_Name bareCtx) = False" by (simp_all add: cloneCtx_def bareCtx_def)
  from taken_backup_restores [OF taken facts(7,1,4,5) stored run, THEN conjunct2] obtain ob s where
    "restoreLeft takenCluster sampleRestore y [] g' ob" "or_ClusterName ob = ''clone''" "or_BackupSource ob = Some s"
    "obs_Destination s = ''s3://b/p''"
    unfolding facts(3) other src sum.case if_False clonedFrom_def by auto
  with run show ?thesis by blast
qed

definition pitrRestore :: "time \<Rightarrow> restore" where
  "pitrRestore d = sampleRestore\<lparr>res_DataSource := \<lparr>ds_Type = DataSourceTypePointInTime, ds_Backup = None, ds_PointInTime =
     Some \<lparr>pit_InstanceRef = None, pit_StorageRef = ''s3'', pit_RecoveryTarget = ''date'', pit_Date = Some d\<rparr>\<rparr>\<rparr>"

lemma pitrRestore_recovers: "recoversTo (pitrRestore d) ''my-mongo'' ''s3'' d"
  by (simp add: recoversTo_def pitrRestore_def sampleRestore_def)

theorem advertised_window_recoverable_witness:
  "\<exists>b p g'. resolveRestoreSource plainLib takenCluster (pitrRestore 200) [] = (Inr (Inr (b, Some p)), g') \<and> prs_Date p = Some 200"
proof -
  let ?w = "pitrWindow [syncedBackup]"
  have name: "c_Name pitrCtx = ''my-mongo''" by (simp add: pitrCtx_def bareCtx_def)
  have w: "pw_State ?w = PITRStateAvailable" "pw_Earliest ?w = Some 100" by code_simp+
  have on: "onStorage ''my-mongo'' ''s3'' syncedBackup" by code_simp
  then have "collectStorageBackups [syncedBackup] ''my-mongo'' ''s3'' = [syncedBackup]" by (simp add: collectStorageBackups_def)
  then obtain h' where run: "BackupStorageStatuses takenCluster pitrCtx [] = (Inr [(''s3'', Some ?w)], h')"
    by (simp add: BackupStorageStatuses_def pitrCtx_def bareCtx_def bareInstance_def pitrBackup_def pitrEnabled_def takenCluster_def
        call_defs io_defs)
  have "(''s3'', Some ?w) \<in> set [(''s3'', Some ?w)]" by simp
  moreover have bs: "env_backupsOf takenCluster [] (res_Namespace (pitrRestore 200)) (c_Name pitrCtx) = Inr [takenBackup]"
    by (simp add: takenCluster_def)
  moreover have "trackedWithin 30 (c_Name pitrCtx) ''s3'' obs [takenBackup]" if "env_opBackups takenCluster [] = Inr obs" for obs
  proof -
    have "obs = [syncedBackup]" using that by (simp add: takenCluster_def)
    moreover have "trackedWithin 30 ''my-mongo'' ''s3'' [syncedBackup] [takenBackup]" by code_simp
    ultimately show ?thesis by (simp add: name)
  qed
  ultimately show ?thesis
    using advertised_window_recoverable [OF run _ w(1) bs _ pitrRestore_recovers [of 200, folded name], of 30 plainLib] w(2) by fastforce
qed

text \<open>The window of that cluster starts at 100, but a recovery to 120 waits for a backup that will not come.\<close>

theorem window_starts_too_early_witness:
  "\<exists>y g'. resolveRestoreSource plainLib takenCluster (pitrRestore 120) [] = (Inr (Inl y), g') \<and> es_State y = RestorePending"
proof -
  obtain h' where taken: "SyncBackup plainLib takenCluster bareCtx doneBackup [] = (Inr takenStatus, h')"
    using takenCluster_runs(1) by blast
  have at: "c_Name bareCtx = ''my-mongo''" "bkp_StorageRef doneBackup = ''s3''"
    by (simp_all add: bareCtx_def doneBackup_def externalBackup_def)
  have "onStorage ''my-mongo'' ''s3'' syncedBackup" "latestRestorable [syncedBackup] = Some 250" "completedAt syncedBackup \<le> 120"
    by code_simp+
  then show ?thesis
    using window_starts_too_early(4) [OF taken takenCluster_facts(7,1), where now = 130 and ob = syncedBackup and d = 120 and
        r = "pitrRestore 120" and g = "[]" and ?t1.0 = 250] pitrRestore_recovers [of 120]
    unfolding at takenCluster_facts(2) by (simp add: takenCluster_def)
qed

definition userCtx :: ctx where
  "userCtx = bareCtx\<lparr>c_Instance := bareInstance\<lparr>in_UserSecretRef := Some ''mine''\<rparr>\<rparr>"

definition keepingCluster :: env where
  "keepingCluster = seedReadyCluster\<lparr>env_secret := \<lambda>h n. if n = ''mine'' then Inr adminSecret else
     (case firstCreated n h of None \<Rightarrow> Inl (APINotFound n) | Some s \<Rightarrow> Inr s)\<rparr>"

lemma keepingCluster_keeps: "n \<noteq> ''mine'' \<Longrightarrow> keepsSecret keepingCluster n own"
  by (auto simp: keepsSecret_def keepingCluster_def split: option.splits)

definition readyStatus :: "go_error + status \<Rightarrow> bool" where
  "readyStatus q = (case q of Inr (ReadyWithConnectionDetails d) \<Rightarrow> True | _ \<Rightarrow> False)"

theorem credentials_reach_clients_witness:
  "\<exists>d h'. StatusPSMDB plainLib keepingCluster userCtx (snd (SyncPSMDB plainLib keepingCluster userCtx [])) =
     (Inr (ReadyWithConnectionDetails d), h') \<and> cd_Username d = ''databaseAdmin'' \<and> cd_Password d = ''s3cret''"
proof -
  obtain r cs where run: "SyncPSMDB plainLib keepingCluster userCtx [] = (r, [] @ cs)"
    by (cases "SyncPSMDB plainLib keepingCluster userCtx []") simp
  have "list_ex appliesCR (snd (SyncPSMDB plainLib keepingCluster userCtx []))" by code_simp
  then obtain cr where applied: "ApplyPSMDB cr \<in> set cs" using run by (auto dest: appliesCR_E)
  have "readyStatus (fst (StatusPSMDB plainLib keepingCluster userCtx (snd (SyncPSMDB plainLib keepingCluster userCtx []))))"
    by code_simp
  then obtain d h' where later: "StatusPSMDB plainLib keepingCluster userCtx (([] @ cs) @ []) = (Inr (ReadyWithConnectionDetails d), h')"
    using run by (cases "StatusPSMDB plainLib keepingCluster userCtx cs") (auto simp: readyStatus_def split: sum.splits status.splits)
  have source: "credentialsFrom keepingCluster userCtx ''mine''" by (simp add: credentialsFrom_def userCtx_def)
  have "usersSecretOf (c_Name userCtx) \<noteq> ''mine''" by code_simp
  note keeps = keepingCluster_keeps [OF this]
  have mine: "env_secret keepingCluster h ''mine'' = Inr adminSecret" for h by (simp add: keepingCluster_def)
  have admin: "sec_Data adminSecret (lib_databaseAdminUser plainLib) = Some ''databaseAdmin''"
    "sec_Data adminSecret (lib_databaseAdminPassword plainLib) = Some ''s3cret''"
    "lib_pmmServerToken plainLib \<notin> {lib_databaseAdminUser plainLib, lib_databaseAdminPassword plainLib}"
    by (simp_all add: adminSecret_def plainLib_def)
  have fresh: "firstCreated (usersSecretOf (c_Name userCtx)) [] = None" by simp
  from credentials_reach_clients [OF run applied source keeps mine fresh admin later] later run show ?thesis by auto
qed

lemma writes_Nil: "writes [] = []"
  by (simp add: writes_def)

theorem mirrored_backup_adopted_witness:
  "\<exists>b h1 x g'. Mirror (bucketCluster\<lparr>env_psmdb := \<lambda>h n. Inr storageCR, env_opBackup := \<lambda>h n. Inr readyBackup\<rparr>)
       (OOpBackup readyBackup) [] = (Inr (Some b), h1) \<and>
     SyncBackup plainLib (bucketCluster\<lparr>env_psmdb := \<lambda>h n. Inr storageCR, env_opBackup := \<lambda>h n. Inr readyBackup\<rparr>) bareCtx b [] =
       (Inr x, g') \<and> es_State x = BackupSucceeded \<and> CreateOpBackup readyBackup \<notin> set (writes g')"
proof -
  let ?E = "bucketCluster\<lparr>env_psmdb := \<lambda>h n. Inr storageCR, env_opBackup := \<lambda>h n. Inr readyBackup\<rparr>"
  obtain b h1 where mirrored: "Mirror ?E (OOpBackup readyBackup) [] = (Inr (Some b), h1)"
    by (simp add: Mirror_def readyBackup_def psmdbBackupAncestorLabel_def bucketCluster_def sample_defs
        pitrBackup_def providerName_def call_defs io_defs Let_def)
  have b: "bkp_Name b = ob_Name readyBackup" "bkp_StorageRef b = ob_StorageName readyBackup"
    using mirror_only_scheduled [OF mirrored] by auto
  obtain x g' where run: "SyncBackup plainLib ?E bareCtx b [] = (Inr x, g')" and ref: "es_OperatorRef x = Some ''b1''"
    using b by (simp add: SyncBackup_def createOrUpdate_def backupExec_def mutateOpBackup_def mapRight_def addFinalizer_def
      readyBackup_def plainLib_def bareCtx_def bucketCluster_def storageCR_def emptyCluster_def call_defs io_defs Let_def)
  have server: "env_opBackup ?E g (ob_Name readyBackup) = Inr readyBackup" for g by simp
  have here: "c_Name bareCtx = ob_ClusterName readyBackup" and ready: "obs_State (ob_Status readyBackup) = OpBackupReady"
    by (simp_all add: bareCtx_def readyBackup_def)
  note adopted = mirrored_backup_adopted [OF mirrored refl refl server here run]
  have "es_State x = BackupSucceeded" using adopted ref ready by simp
  moreover have "CreateOpBackup readyBackup \<notin> set (writes g')"
    using conjunct1 [OF adopted] writes_Nil by (elim disjE exE conjE) simp_all
  ultimately show ?thesis using mirrored run by blast
qed

end
