(* ===== verification/Spec2Isabelle.thy ===== *)
theory Spec2Isabelle
  imports Reconcile_Loop Operation_Panics Sync_Settles Journeys
begin

text \<open>
  A verification library for the OpenEverest provider of Percona Server for MongoDB (\<^verbatim>\<open>src/internal/provider\<close>,
  \<^verbatim>\<open>src/internal/operatorcrds\<close>, \<^verbatim>\<open>src/cmd/provider\<close>).

  \<^bold>\<open>The program.\<close> The provider turns an Instance into a \<^verbatim>\<open>PerconaServerMongoDB\<close> CR that Percona's operator carries out.
  The OpenEverest runtime calls it: \<^verbatim>\<open>Validate\<close> at admission, \<^verbatim>\<open>ValidateReferences\<close>, \<^verbatim>\<open>Sync\<close>, \<^verbatim>\<open>Status\<close> and
  \<^verbatim>\<open>Cleanup\<close> on every reconcile of an Instance, \<^verbatim>\<open>SyncBackup\<close>, \<^verbatim>\<open>SyncRestore\<close> and their clean-ups for Backup and Restore
  objects, \<^verbatim>\<open>Mirror\<close>, \<^verbatim>\<open>ImportBackups\<close>, \<^verbatim>\<open>BackupStorageStatuses\<close> and \<^verbatim>\<open>MonitoringSources\<close> for what it publishes,
  and \<^verbatim>\<open>CheckUpgrade\<close> in the preflight of a release. It keeps no state of its own; all state is in the cluster.

  \<^bold>\<open>How it is modelled.\<close> Structs are records and enums datatypes (Cluster\_Types), \<^verbatim>\<open>int32\<close> is \<^typ>\<open>32 word\<close> read as signed,
  quantities are integers in their base unit, Go maps are partial functions, nil pointers \<^term>\<open>None\<close>. An operation is a
  function on the history of calls made so far, returning an error or a value and the longer history (PSMDB\_Prelude: \<open>io\<close>,
  with \<open>bindIO\<close> for the early return on errors, \<open>handleIO\<close> where the code looks at the error, \<open>wrapIO\<close> for
  \<^verbatim>\<open>fmt.Errorf\<close> with \<^verbatim>\<open>%w\<close>). A nil dereference is the error \<open>Panic\<close>. What is not under \<^verbatim>\<open>src\<close> is a
  parameter: the record \<open>lib\<close> holds the pure functions of the libraries, the record \<open>env\<close> the answers of the API server and
  of the runtime, each a function of the whole history (Cluster\_Env). So nothing is assumed about what users or the operator do
  between two calls; a theorem that needs more says so in a hypothesis, and its witness has a concrete cluster that meets it
  (Cluster\_Samples).

  \<^bold>\<open>The theories\<close>, from the bottom:
  \<^item> PSMDB\_Prelude: Go strings and integers, quantities, the actions above with the calculi \<open>emits\<close> (which calls an action can make),
    \<open>phased\<close> (in which order), \<open>failsOnly\<close> (with which errors; \<open>succeeds\<close> and \<open>neverPanics\<close> are cases of it), \<open>constOutcome\<close> and
    \<open>only\<close> (outcomes that do not depend on the history, or only on a part of it), and \<open>rounds\<close> for actions the runtime repeats, with the locale
    \<open>retried\<close>.
  \<^item> Cluster\_Types, Cluster\_Env, Cluster\_Samples: data, calls and environment, concrete samples.
  \<^item> Replsets, Topology (replsets.go, mongos.go, common/spec.go): members of both topologies; names of the shards, resources of
    routers, pinned storage class of config servers. The locale \<open>spec\_stage\<close> is the contract of a stage of the sync that leaves
    the member structure alone; scheduling, labelling, TLS, exporter and PMM interpret it.
  \<^item> Hidden\_Members (hidden.go): hidden members, deletion of their volumes, their hosts and backup priority; the locale
    \<open>resource\_defaulting\<close>, which the merging of PMM resources meets too.
  \<^item> Scheduling (scheduling.go): affinity, topology spread and pod labels.
  \<^item> TLS\_Config (tls.go): TLS parameters, certificates, clients without certificates.
  \<^item> Validation (validate.go, the validating part of tls.go): admission and reference checks with every field error, and the
    equivalence of admission with a declarative specification.
  \<^item> Backup\_Spec, Backup\_Run, Backup\_Import (backup.go, backup\_status.go, backup\_import.go): the CR's backup section, mirrored
    backups and recovery windows; running, restoring and deleting backups; import of existing ones, with names by FNV-1a. The
    locales \<open>status\_mapping\<close>, \<open>cleanup\_contract\<close>, \<open>cleanup\_loop\<close>, \<open>instance\_enqueue\<close> state what backups and restores share,
    \<open>newest\_pick\<close> what the loops that choose a newest element do.
  \<^item> Monitoring (metrics.go, monitoring.go, monitoring\_sources.go, pmm.go): exporters, published endpoints, PMM.
  \<^item> Upgrade (operator\_version.go, upgrade.go, \<^verbatim>\<open>convergedCRVersion\<close>): operator version, CR version, upgrade check.
  \<^item> Credentials, Cluster\_Sync, Cluster\_Status (provider.go): the users secret, with the locale \<open>secret\_seeding\<close>; the whole of
    \<^verbatim>\<open>SyncPSMDB\<close> composed of the stages above, with \<open>frame\_stage\<close> extending \<open>spec\_stage\<close>; \<^verbatim>\<open>StatusPSMDB\<close> and connection details.
  \<^item> Provider\_Main (operatorcrds.go, the provider object, main.go): bundled CRDs, watches, flags and exit codes.
  \<^item> Sync\_Panics, Operation\_Panics: nil dereferences, stage by stage of a sync and for all operations.
  \<^item> Sync\_Progress: when a sync succeeds, and what repeated syncs reach.
  \<^item> Applied\_CR: the applied CR of an Instance that \<^verbatim>\<open>Validate\<close> accepted.
  \<^item> Sync\_Settles: repeated syncs apply the same CR.
  \<^item> Journeys: what the components achieve together for one user action, from an import, a backup, a schedule or a recovery window to a
    restore, and from supplied credentials to clients.
  \<^item> Reconcile\_Loop: all operations together, as the inductive set of histories they can produce.

  \<^bold>\<open>What is shown.\<close> Of single operations: admission accepts the instances that meet the declarative specification and, unless their
  member counts add up beyond \<^verbatim>\<open>int32\<close>, no others, and a TLS
  change it accepts for an Instance beyond \<^verbatim>\<open>Pending\<close> is accepted at reconcile time; deletions of hidden volumes spare volumes in use;
  the base of a point-in-time
  recovery is the newest fit backup; a retained backup keeps its data; a higher CR version needs approval, and so does the TLS option that
  restarts a running cluster, unless its first replica set has it already; the upgrade check reports exactly
  the instances outside the window; credentials are seeded once; the phase of an Instance is exactly the one described.
  Of the sync as a whole: the applied CR is the Instance's, whatever the cluster answers; its writes come in a fixed order; the initial
  restore starts only behind its gate; for an accepted Instance the CR is well formed, and with a cluster that answers, references in
  place and backup settings the code supports the sync gets
  to apply it. Of repeated operations: syncs apply the same CR as long as nothing else changes (with one case of sharded clusters left out, where
  they do not), the initial restore starts under the same conditions once the cluster is up, clean-ups end. Of components that pass objects to each other: a backup that was taken or imported is restored from where it lies, a
  scheduled one is adopted and not taken again, targets of the advertised recovery window have a base backup (apart from the
  delay with which Backups are stamped, for which a target without one is shown), and clients are told the credentials the Instance was
  given. Of all operations: most never panic, and what the others trust in order not to is named (a sync: counted retentions and managed
  PMM classes; reference checks: an accepted Instance; the upgrade check: padded versions; imports: an S3 storage). In any order,
  the CRs and secrets they write are the Instance's, the volumes they delete are listed under its label, and the operator backups
  and restores they write or delete go by the names of the Backups and Restores the runtime hands over; whether those are
  the Instance's is up to the runtime.

  \<^bold>\<open>Loops and fuel.\<close> Every loop of the code runs over a finite list and is structural recursion here, so every operation is a
  total function and no fuel is needed; paged listings are lists of pages. The loop the runtime drives is \<open>rounds\<close>, with the
  number of rounds as a bound in the theorems that say something is reached.

  \<^bold>\<open>Not modelled.\<close> Logging; contexts and cancellation; the scheme registration functions, which are kept as names; decoding of
  flags, YAML, JSON and quantities, version comparison, label and name helpers of the operator, whose results are parameters;
  the markers of rbac.go and gen.go, which hold no code; the parameter structs of \<^verbatim>\<open>src/definition\<close> that are only read by the schema
  generator; charts, manifests and tests.
\<close>

end
